(* ===== verification/Prelude.thy ===== *)
theory Prelude
  imports Main "HOL-Library.Word"
begin

text \<open>
  Shared vocabulary of the development: results of fallible Python code, database
  tables as lists of rows with a primary key, the interface a table offers its
  clients, de-duplication, and the automation collections.

  \<^item> \<open>handler_simps\<close> collects the unfolding facts of request handlers' guards;
  \<^item> \<open>table_simps\<close> collects the lookup laws of tables.
\<close>

named_theorems handler_simps
named_theorems table_simps

section \<open>Errors as values\<close>

text \<open>
  An \<open>HTTPException\<close> is \<open>Http status detail\<close>. Any other Python exception that
  escapes a handler (the framework answers 500) is \<open>Raised name\<close>.
\<close>

datatype detail =
    DText string
  | DTextU "nat list"              \<comment> \<open>an f-string over user text, as code points\<close>
  | DUploadRejected string string   \<comment> \<open>\<open>UploadRejectDetail\<close>: reason, message\<close>
  | DScanNotClean string string     \<comment> \<open>\<open>DownloadNotAvailableDetail\<close>: scan status, message\<close>

datatype err = Http nat detail | Raised string

type_synonym 'a result = "err + 'a"

section \<open>Tables\<close>

text \<open>
  A table is the list of its rows in insertion order; \<open>key\<close> projects the primary
  key. \<open>tbl_get\<close> is \<open>session.get\<close>, \<open>tbl_put\<close> writes a row back (an UPDATE
  of the row with that key, an INSERT when there is none), \<open>tbl_del\<close> is DELETE and
  \<open>tbl_insert\<close> is a plain INSERT, which violates the primary key (\<open>None\<close>) when the
  key is taken.
\<close>

definition tbl_get :: "('r \<Rightarrow> 'k) \<Rightarrow> 'r list \<Rightarrow> 'k \<Rightarrow> 'r option" where
  "tbl_get key t k = find (\<lambda>r. key r = k) t"

fun tbl_put :: "('r \<Rightarrow> 'k) \<Rightarrow> 'r list \<Rightarrow> 'r \<Rightarrow> 'r list" where
  "tbl_put key [] r = [r]"
| "tbl_put key (x # t) r = (if key x = key r then r # t else x # tbl_put key t r)"

definition tbl_del :: "('r \<Rightarrow> 'k) \<Rightarrow> 'r list \<Rightarrow> 'k \<Rightarrow> 'r list" where
  "tbl_del key t k = filter (\<lambda>r. key r \<noteq> k) t"

definition tbl_insert :: "('r \<Rightarrow> 'k) \<Rightarrow> 'r list \<Rightarrow> 'r \<Rightarrow> 'r list option" where
  "tbl_insert key t r = (if tbl_get key t (key r) = None then Some (t @ [r]) else None)"

lemma tbl_get_Nil [simp]: "tbl_get key [] k = None"
  by (simp add: tbl_get_def)

lemma tbl_get_Cons [simp]:
  "tbl_get key (x # t) k = (if key x = k then Some x else tbl_get key t k)"
  by (simp add: tbl_get_def)

lemma tbl_get_append:
  "tbl_get key (t @ u) k = (case tbl_get key t k of Some r \<Rightarrow> Some r | None \<Rightarrow> tbl_get key u k)"
  by (induction t) auto

lemma tbl_get_put [table_simps]:
  "tbl_get key (tbl_put key t r) k = (if k = key r then Some r else tbl_get key t k)"
  by (induction t) auto

lemma tbl_get_del [table_simps]:
  "tbl_get key (tbl_del key t k') k = (if k = k' then None else tbl_get key t k)"
  by (induction t) (auto simp: tbl_del_def)

lemma tbl_get_key: "tbl_get key t k = Some r \<Longrightarrow> key r = k"
  by (auto simp: tbl_get_def find_Some_iff)

lemma tbl_get_mem: "tbl_get key t k = Some r \<Longrightarrow> r \<in> set t"
  by (auto simp: tbl_get_def find_Some_iff)

lemma tbl_get_None: "tbl_get key t k = None \<longleftrightarrow> k \<notin> key ` set t"
  by (auto simp: tbl_get_def find_None_iff)

lemma tbl_get_distinct:
  "distinct (map key t) \<Longrightarrow> r \<in> set t \<Longrightarrow> tbl_get key t (key r) = Some r"
  by (induction t) (auto simp: rev_image_eqI)

lemma tbl_get_insert:
  "tbl_insert key t r = Some t' \<Longrightarrow>
   tbl_get key t' k = (if k = key r then Some r else tbl_get key t k)"
  by (auto simp: tbl_insert_def tbl_get_append split: if_splits option.splits)

lemma set_tbl_put:
  "distinct (map key t) \<Longrightarrow>
   set (tbl_put key t r) = insert r {x \<in> set t. key x \<noteq> key r}"
  by (induction t) (auto simp: image_iff)

lemma set_tbl_put_subset: "set (tbl_put key t r) \<subseteq> insert r (set t)"
  by (induction t) auto

lemma keys_tbl_put:
  "map key (tbl_put key t r) =
   (if key r \<in> key ` set t then map key t else map key t @ [key r])"
  by (induction t) (auto split: if_splits)

lemma distinct_tbl_put: "distinct (map key t) \<Longrightarrow> distinct (map key (tbl_put key t r))"
  by (auto simp: keys_tbl_put)

lemma distinct_tbl_del: "distinct (map key t) \<Longrightarrow> distinct (map key (tbl_del key t k))"
  by (simp add: tbl_del_def distinct_map_filter)

lemma put_same_map:
  "tbl_get key t (key r) = Some x \<Longrightarrow> f r = f x \<Longrightarrow> map f (tbl_put key t r) = map f t"
  by (induction t) (auto split: if_splits)

text \<open>A secondary key stays unique when the written row's value is free among the others.\<close>

lemma distinct_put:
  assumes "distinct (map key t)"
  shows "distinct (map f t) \<Longrightarrow> (\<And>x. x \<in> set t \<Longrightarrow> key x \<noteq> key r \<Longrightarrow> f x \<noteq> f r) \<Longrightarrow>
    distinct (map f (tbl_put key t r))"
  using assms
proof (induction t)
  case (Cons y t)
  show ?case
  proof (cases "key y = key r")
    case True
    have "f r \<notin> f ` set t"
    proof
      assume "f r \<in> f ` set t"
      then obtain x where "x \<in> set t" "f x = f r" by auto
      moreover from this Cons.prems(3) True have "key x \<noteq> key r" by (auto simp: rev_image_eqI)
      ultimately show False using Cons.prems(2) [of x] by simp
    qed
    then show ?thesis using True Cons.prems(1) by simp
  next
    case False
    have "f y \<notin> f ` set (tbl_put key t r)"
      using Cons.prems False set_tbl_put_subset [of key t r] by fastforce
    then show ?thesis using Cons False by simp
  qed
qed simp

text \<open>Writing a row moves any row-wise sum by exactly the difference of that row.\<close>

lemma sum_tbl_put:
  fixes f :: "'r \<Rightarrow> int"
  shows "sum_list (map f (tbl_put key t r)) =
    sum_list (map f t) - (case tbl_get key t (key r) of None \<Rightarrow> 0 | Some x \<Rightarrow> f x) + f r"
  by (induction t) auto

section \<open>The interface of a table\<close>

text \<open>
  What every controller relies on when it loads a row by primary key, changes it and
  writes it back. Clients prove their frame conditions here once.
\<close>

locale keyed_table =
  fixes key :: "'r \<Rightarrow> 'k"
    and get :: "'t \<Rightarrow> 'k \<Rightarrow> 'r option"
    and put :: "'t \<Rightarrow> 'r \<Rightarrow> 't"
    and del :: "'t \<Rightarrow> 'k \<Rightarrow> 't"
  assumes get_put: "get (put t r) k = (if k = key r then Some r else get t k)"
    and get_del: "get (del t k') k = (if k = k' then None else get t k)"
    and get_key: "get t k = Some r \<Longrightarrow> key r = k"
begin

lemma get_put_same: "get (put t r) (key r) = Some r"
  by (simp add: get_put)

lemma get_put_other: "k \<noteq> key r \<Longrightarrow> get (put t r) k = get t k"
  by (simp add: get_put)

lemma put_put: "key r = key r' \<Longrightarrow> get (put (put t r) r') k = get (put t r') k"
  by (simp add: get_put)

lemma put_keeps:
  assumes "\<And>k r. get t k = Some r \<Longrightarrow> P r" and "P r"
  shows "get (put t r) k = Some x \<Longrightarrow> P x"
  using assms by (auto simp: get_put split: if_splits)

lemma del_keeps:
  assumes "\<And>k r. get t k = Some r \<Longrightarrow> P r"
  shows "get (del t k') k = Some x \<Longrightarrow> P x"
  using assms by (auto simp: get_del split: if_splits)

lemma update_frame:
  "get t k = Some r \<Longrightarrow> key (f r) = key r \<Longrightarrow> k' \<noteq> k \<Longrightarrow> get (put t (f r)) k' = get t k'"
  by (auto simp: get_put dest: get_key)

end

text \<open>Every table of the service is such a table, whatever its row type and key.\<close>

interpretation tbl: keyed_table key "tbl_get key" "tbl_put key" "tbl_del key"
  for key :: "'r \<Rightarrow> 'k"
  by unfold_locales (auto simp: table_simps dest: tbl_get_key)

section \<open>Order-preserving de-duplication\<close>

text \<open>
  The \<open>seen\<close>-set loop (\<open>_unique_ids\<close>, \<open>_categories_for\<close>) and
  \<open>dict.fromkeys\<close> both keep the first occurrence of each element.
\<close>

fun dedup_from :: "'a list \<Rightarrow> 'a list \<Rightarrow> 'a list" where
  "dedup_from seen [] = []"
| "dedup_from seen (x # xs) =
     (if x \<in> set seen then dedup_from seen xs else x # dedup_from (x # seen) xs)"

definition dedup :: "'a list \<Rightarrow> 'a list" where
  "dedup xs = dedup_from [] xs"

lemma set_dedup_from: "set (dedup_from seen xs) = set xs - set seen"
  by (induction xs arbitrary: seen) auto

lemma distinct_dedup_from: "distinct (dedup_from seen xs)"
  by (induction xs arbitrary: seen) (auto simp: set_dedup_from)

lemma set_dedup [simp]: "set (dedup xs) = set xs"
  by (simp add: dedup_def set_dedup_from)

lemma distinct_dedup [simp]: "distinct (dedup xs)"
  by (simp add: dedup_def distinct_dedup_from)

lemma dedup_from_distinct:
  "distinct xs \<Longrightarrow> set xs \<inter> set seen = {} \<Longrightarrow> dedup_from seen xs = xs"
  by (induction xs arbitrary: seen) auto

lemma dedup_id: "distinct xs \<Longrightarrow> dedup xs = xs"
  by (simp add: dedup_def dedup_from_distinct)

lemma length_dedup_from: "length (dedup_from seen xs) \<le> length xs"
  by (induction xs arbitrary: seen) (auto intro: le_SucI)

lemma length_dedup: "length (dedup xs) \<le> length xs"
  by (simp add: dedup_def length_dedup_from)

lemma dedup_Nil_iff [simp]: "dedup xs = [] \<longleftrightarrow> xs = []"
  by (metis set_dedup set_empty)

section \<open>Lists\<close>

lemma find_filter: "find Q (filter P xs) = find (\<lambda>x. P x \<and> Q x) xs"
  by (induction xs) auto

lemma find_snoc: "find P (xs @ [x]) =
   (case find P xs of Some y \<Rightarrow> Some y | None \<Rightarrow> if P x then Some x else None)"
  by (induction xs) auto

lemma find_None_filter: "find P xs = None \<longleftrightarrow> filter P xs = []"
  by (auto simp: find_None_iff filter_empty_conv)

lemma first_separator:
  "c \<notin> set a \<Longrightarrow> c \<notin> set b \<Longrightarrow> a @ c # x = b @ c # y \<Longrightarrow> a = b \<and> x = y"
proof (induction a arbitrary: b)
  case Nil then show ?case by (cases b) auto
next
  case (Cons d a) then show ?case by (cases b) auto
qed

lemma sum_list_nonneg_int: "(\<And>x. x \<in> set xs \<Longrightarrow> 0 \<le> f x) \<Longrightarrow> 0 \<le> (\<Sum>x\<leftarrow>xs. (f x :: int))"
  by (induction xs) auto

lemma map_sum_Inr: "map_sum id f x = Inr y \<longleftrightarrow> (\<exists>z. x = Inr z \<and> y = f z)"
  by (cases x) auto

end
