(* ===== verification/PyText.thy ===== *)
theory PyText
  imports Prelude
begin

text \<open>
  Python text. User-supplied text (file names, category names, object keys) is a list
  of Unicode code points, \<open>ustr\<close>; text the program writes itself (enum values, MIME
  types, bucket names, messages) is an HOL \<open>string\<close>, and \<open>u\<close> embeds it. The string
  methods the service calls are defined on code points: \<open>strip\<close>, \<open>replace\<close> of one
  character, \<open>split\<close> on one character, \<open>partition\<close>, slicing. The Unicode Character Database is data
  outside the repository, so what the code reads of it is the record \<open>unicode_db\<close>,
  a parameter of the definitions that use it. UUIDs are 128-bit integers with the
  canonical renderings \<open>uuid.hex\<close> and \<open>str(uuid)\<close>.
\<close>

type_synonym ustr = "nat list"

definition u :: "string \<Rightarrow> ustr" where
  "u s = map of_char s"

record unicode_db =
  uc_nfc :: "ustr \<Rightarrow> ustr"      \<comment> \<open>\<open>unicodedata.normalize("NFC", _)\<close>\<close>
  uc_other :: "nat \<Rightarrow> bool"     \<comment> \<open>\<open>unicodedata.category(_).startswith("C")\<close>\<close>
  uc_lower :: "ustr \<Rightarrow> ustr"    \<comment> \<open>\<open>str.lower\<close>\<close>

text \<open>Decimal rendering of integers in f-strings.\<close>

fun str_nat :: "nat \<Rightarrow> ustr" where
  "str_nat n = (if n < 10 then [48 + n] else str_nat (n div 10) @ [48 + n mod 10])"

declare str_nat.simps [simp del]

definition str_int :: "int \<Rightarrow> ustr" where
  "str_int i = (if i < 0 then 45 # str_nat (nat (- i)) else str_nat (nat i))"

section \<open>White space and \<open>strip\<close>\<close>

text \<open>The code points \<open>str.strip()\<close> removes (\<open>str.isspace\<close>).\<close>

definition is_space :: "nat \<Rightarrow> bool" where
  "is_space c \<longleftrightarrow>
     (9 \<le> c \<and> c \<le> 13) \<or> (28 \<le> c \<and> c \<le> 32) \<or> c = 133 \<or> c = 160 \<or> c = 5760 \<or>
     (8192 \<le> c \<and> c \<le> 8202) \<or> c = 8232 \<or> c = 8233 \<or> c = 8239 \<or> c = 8287 \<or> c = 12288"

definition strip :: "ustr \<Rightarrow> ustr" where
  "strip s = rev (dropWhile is_space (rev (dropWhile is_space s)))"

lemma set_strip: "set (strip s) \<subseteq> set s"
  unfolding strip_def by (auto dest!: set_dropWhileD)

lemma length_strip: "length (strip s) \<le> length s"
  unfolding strip_def
  by (metis length_dropWhile_le length_rev order_trans)

lemma strip_hd: "strip s \<noteq> [] \<Longrightarrow> \<not> is_space (hd (strip s))"
proof -
  assume ne: "strip s \<noteq> []"
  let ?d = "dropWhile is_space s"
  have "rev (takeWhile is_space (rev ?d) @ dropWhile is_space (rev ?d)) = ?d"
    by (simp only: takeWhile_dropWhile_id rev_rev_ident)
  then have d: "?d = strip s @ rev (takeWhile is_space (rev ?d))"
    unfolding strip_def by (simp only: rev_append)
  with ne have "?d \<noteq> []" and "hd ?d = hd (strip s)"
    by (metis append_is_Nil_conv, metis hd_append2)
  with hd_dropWhile [of is_space s] show ?thesis by simp
qed

lemma strip_last: "strip s \<noteq> [] \<Longrightarrow> \<not> is_space (last (strip s))"
  unfolding strip_def by (metis hd_dropWhile hd_rev last_rev rev_is_Nil_conv)

lemma strip_fixed:
  assumes "s = [] \<or> (\<not> is_space (hd s) \<and> \<not> is_space (last s))"
  shows "strip s = s"
proof (cases "s = []")
  case False
  with assms have "dropWhile is_space s = s"
    by (cases s) auto
  moreover from False assms have "dropWhile is_space (rev s) = rev s"
    by (cases "rev s") (auto simp: hd_rev [symmetric])
  ultimately show ?thesis by (simp add: strip_def)
qed (simp add: strip_def)

lemma strip_idem [simp]: "strip (strip s) = strip s"
  by (rule strip_fixed) (auto dest: strip_hd strip_last)

section \<open>Replacing and splitting\<close>

definition replace_ch :: "nat \<Rightarrow> nat \<Rightarrow> ustr \<Rightarrow> ustr" where
  "replace_ch a b s = map (\<lambda>c. if c = a then b else c) s"

text \<open>\<open>s.split(c)\<close> on a one-character separator: never empty.\<close>

fun split_on :: "'a \<Rightarrow> 'a list \<Rightarrow> 'a list list" where
  "split_on c [] = [[]]"
| "split_on c (x # xs) =
     (if x = c then [] # split_on c xs
      else (case split_on c xs of [] \<Rightarrow> [[x]] | p # ps \<Rightarrow> (x # p) # ps))"

text \<open>\<open>c.join(parts)\<close>.\<close>

fun join_with :: "'a \<Rightarrow> 'a list list \<Rightarrow> 'a list" where
  "join_with c [] = []"
| "join_with c [p] = p"
| "join_with c (p # q # ps) = p @ c # join_with c (q # ps)"

lemma split_on_ne [simp]: "split_on c s \<noteq> []"
  by (induction s) (auto split: list.splits)

lemma join_split: "join_with c (split_on c s) = s"
proof (induction s)
  case (Cons x xs)
  then show ?case
    by (cases "split_on c xs") (auto, metis join_with.simps list.exhaust append_Cons)
qed simp

lemma split_no_sep: "p \<in> set (split_on c s) \<Longrightarrow> c \<notin> set p"
proof (induction s arbitrary: p)
  case (Cons x xs)
  then show ?case
    by (cases "split_on c xs") (auto split: if_splits)
qed simp

lemma set_split_on: "p \<in> set (split_on c s) \<Longrightarrow> set p \<subseteq> set s"
proof (induction s arbitrary: p)
  case (Cons x xs)
  then show ?case
    by (cases "split_on c xs") (auto split: if_splits, blast+)
qed simp

lemma split_on_single: "c \<notin> set s \<Longrightarrow> split_on c s = [s]"
  by (induction s) auto

lemma split_on_append:
  "c \<notin> set p \<Longrightarrow> split_on c (p @ c # s) = p # split_on c s"
  by (induction p) auto

lemma split_join:
  "ps \<noteq> [] \<Longrightarrow> (\<And>p. p \<in> set ps \<Longrightarrow> c \<notin> set p) \<Longrightarrow> split_on c (join_with c ps) = ps"
  by (induction c ps rule: join_with.induct) (auto simp: split_on_single split_on_append)

definition last_segment :: "'a \<Rightarrow> 'a list \<Rightarrow> 'a list" where
  "last_segment c s = last (split_on c s)"   \<comment> \<open>\<open>s.split(c)[-1]\<close>, \<open>s.rsplit(c, 1)[-1]\<close>\<close>

lemma last_segment_no_sep: "c \<notin> set (last_segment c s)"
  unfolding last_segment_def by (rule split_no_sep [of _ c s]) simp

lemma set_last_segment: "set (last_segment c s) \<subseteq> set s"
  unfolding last_segment_def by (rule set_split_on [of _ c s]) simp

lemma last_segment_id: "c \<notin> set s \<Longrightarrow> last_segment c s = s"
  by (simp add: last_segment_def split_on_single)

text \<open>\<open>s.partition(sep)\<close>: \<open>None\<close> when the separator does not occur.\<close>

fun partition_at :: "ustr \<Rightarrow> ustr \<Rightarrow> (ustr \<times> ustr) option" where
  "partition_at sep s =
     (if take (length sep) s = sep then Some ([], drop (length sep) s)
      else case s of [] \<Rightarrow> None | c # s' \<Rightarrow> map_option (\<lambda>(a, b). (c # a, b)) (partition_at sep s'))"

declare partition_at.simps [simp del]

lemma partition_at_Some: "partition_at sep s = Some (a, b) \<Longrightarrow> s = a @ sep @ b"
proof (induction sep s arbitrary: a b rule: partition_at.induct)
  case (1 sep s)
  then show ?case
    by (subst (asm) (2) partition_at.simps) (auto split: if_splits list.splits, metis append_take_drop_id)
qed

section \<open>UUID renderings\<close>

type_synonym uuid = "128 word"

definition hex_digit :: "nat \<Rightarrow> nat" where
  "hex_digit d = (if d < 10 then 48 + d else 87 + d)"   \<comment> \<open>\<open>0-9a-f\<close>\<close>

text \<open>The \<open>n\<close> low hexadecimal digits of \<open>k\<close>, most significant first.\<close>

fun hex_digits :: "nat \<Rightarrow> nat \<Rightarrow> ustr" where
  "hex_digits 0 k = []"
| "hex_digits (Suc n) k = hex_digits n (k div 16) @ [hex_digit (k mod 16)]"

definition uuid_hex :: "uuid \<Rightarrow> ustr" where
  "uuid_hex w = hex_digits 32 (unat w)"

text \<open>\<open>str(uuid)\<close>: 8-4-4-4-12 hexadecimal digits.\<close>

definition uuid_str :: "uuid \<Rightarrow> ustr" where
  "uuid_str w = (let h = uuid_hex w in
     take 8 h @ 45 # take 4 (drop 8 h) @ 45 # take 4 (drop 12 h) @ 45 #
     take 4 (drop 16 h) @ 45 # drop 20 h)"

lemma length_hex_digits [simp]: "length (hex_digits n k) = n"
  by (induction n arbitrary: k) auto

lemma length_uuid_hex [simp]: "length (uuid_hex w) = 32"
  by (simp add: uuid_hex_def)

lemma hex_digit_inj: "d < 16 \<Longrightarrow> e < 16 \<Longrightarrow> hex_digit d = hex_digit e \<Longrightarrow> d = e"
  by (auto simp: hex_digit_def split: if_splits)

lemma hex_digits_inj:
  "k < 16 ^ n \<Longrightarrow> l < 16 ^ n \<Longrightarrow> hex_digits n k = hex_digits n l \<Longrightarrow> k = l"
proof (induction n arbitrary: k l)
  case (Suc n)
  then have "hex_digits n (k div 16) = hex_digits n (l div 16)"
    and "hex_digit (k mod 16) = hex_digit (l mod 16)" by auto
  moreover from Suc.prems have "k div 16 < 16 ^ n" "l div 16 < 16 ^ n"
    by (auto simp: less_mult_imp_div_less mult.commute)
  ultimately have "k div 16 = l div 16" and "k mod 16 = l mod 16"
    using Suc.IH hex_digit_inj by auto
  then show ?case by (metis div_mult_mod_eq)
qed simp

lemma uuid_hex_inj: "uuid_hex a = uuid_hex b \<Longrightarrow> a = b"
proof -
  assume "uuid_hex a = uuid_hex b"
  moreover have "unat a < 16 ^ 32" and "unat b < 16 ^ 32"
    using unsigned_less [of a] unsigned_less [of b] by simp_all
  ultimately have "unat a = unat b"
    unfolding uuid_hex_def by (metis hex_digits_inj)
  then show ?thesis by (rule word_unat_eq_iff [THEN iffD2])
qed

lemma hex_digits_range: "c \<in> set (hex_digits n k) \<Longrightarrow> (48 \<le> c \<and> c \<le> 57) \<or> (97 \<le> c \<and> c \<le> 102)"
proof (induction n arbitrary: k)
  case (Suc n)
  have "k mod 16 < 16" by simp
  then have "(48 \<le> hex_digit (k mod 16) \<and> hex_digit (k mod 16) \<le> 57) \<or>
      (97 \<le> hex_digit (k mod 16) \<and> hex_digit (k mod 16) \<le> 102)"
    unfolding hex_digit_def by arith
  with Suc show ?case by auto
qed simp

lemma uuid_hex_range: "c \<in> set (uuid_hex w) \<Longrightarrow> (48 \<le> c \<and> c \<le> 57) \<or> (97 \<le> c \<and> c \<le> 102)"
  unfolding uuid_hex_def by (rule hex_digits_range)

lemma uuid_str_inj: "uuid_str a = uuid_str b \<Longrightarrow> a = b"
proof (rule uuid_hex_inj)
  assume eq: "uuid_str a = uuid_str b"
  let ?a = "uuid_hex a" and ?b = "uuid_hex b"
  have parts: "take 8 ?a = take 8 ?b \<and> take 4 (drop 8 ?a) = take 4 (drop 8 ?b) \<and>
      take 4 (drop 12 ?a) = take 4 (drop 12 ?b) \<and>
      take 4 (drop 16 ?a) = take 4 (drop 16 ?b) \<and> drop 20 ?a = drop 20 ?b"
    using eq by (simp add: uuid_str_def Let_def)
  have cut: "h = take 8 h @ take 4 (drop 8 h) @ take 4 (drop 12 h) @ take 4 (drop 16 h) @ drop 20 h"
    for h :: ustr
  proof -
    have "take 4 (drop n h) @ drop (4 + n) h = drop n h" for n
      using append_take_drop_id [of 4 "drop n h"] by (simp add: add.commute)
    from this [of 8] this [of 12] this [of 16] show ?thesis by simp
  qed
  from parts show "?a = ?b" by (metis cut)
qed

lemma uuid_str_range: "c \<in> set (uuid_str w) \<Longrightarrow> c = 45 \<or> (48 \<le> c \<and> c \<le> 57) \<or> (97 \<le> c \<and> c \<le> 102)"
  unfolding uuid_str_def Let_def
  using uuid_hex_range [of c w] by (auto dest!: in_set_takeD in_set_dropD)

lemma slash_notin_uuid_str: "47 \<notin> set (uuid_str w)"
  using uuid_str_range by force

lemma length_uuid_str [simp]: "length (uuid_str w) = 36"
  by (simp add: uuid_str_def Let_def)

end
