(* ===== verification/DataModel.thy ===== *)
theory DataModel
  imports PyText
begin

text \<open>
  The data of \<open>media_service/db_models\<close>: one datatype per \<open>StrEnum\<close>, one record per
  table, the link table of filings, and the state every handler threads: the database,
  the object storage and the metrics counters. Column order and names follow the
  models. Timestamps are integers (microseconds, UTC); \<open>utcnow()\<close> and freshly minted
  UUIDs are inputs of the handlers. Columns no code of the service reads or writes after
  construction keep their declared defaults.
\<close>

type_synonym datetime = int

text \<open>
  A Python \<open>datetime\<close> carries a time zone or does not. Nearly all of the service's are aware
  and stand for their instant. A naive one reaches the database in one place; what happens
  there is the database layer's decision (SQLAlchemy, with the session pinned to UTC by
  \<open>core/utc_session.py\<close>), so it is a parameter: it takes the value as UTC, or rejects it, as
  \<open>controllers/dashboard.py\<close> and the changelog document for the pinned version.
\<close>

datatype py_datetime = Aware datetime | Naive datetime

definition no_timezone :: err where
  "no_timezone = Raised ''Datetime values must have timezone information''"

fun bind_timestamp :: "bool \<Rightarrow> py_datetime \<Rightarrow> datetime result" where
  "bind_timestamp takes_naive (Aware t) = Inr t"
| "bind_timestamp takes_naive (Naive t) = (if takes_naive then Inr t else Inl no_timezone)"

definition seconds :: "int \<Rightarrow> int" where   \<comment> \<open>\<open>timedelta(seconds=s)\<close>\<close>
  "seconds s = 1000000 * s"

section \<open>Enumerations\<close>

datatype media_category =
  CAT_AVATAR | CAT_DOCUMENT | CAT_ASSET | CAT_CHAT_ATTACHMENT | CAT_EXPORT | CAT_RECEIPT

datatype media_visibility = VIS_PUBLIC | VIS_PRIVATE | VIS_TENANT | VIS_SENSITIVE

datatype media_object_status =
    OBJ_PENDING_UPLOAD | OBJ_UPLOADED | OBJ_PROCESSING | OBJ_READY | OBJ_FAILED
  | OBJ_DELETED | OBJ_REJECTED

datatype scan_status = SCAN_PENDING | SCAN_CLEAN | SCAN_INFECTED | SCAN_QUARANTINED | SCAN_SKIPPED

datatype moderation_status = MOD_PENDING | MOD_APPROVED | MOD_REJECTED | MOD_SKIPPED

datatype upload_session_status = SES_INITIATED | SES_COMPLETED | SES_ABORTED | SES_EXPIRED

datatype job_status = JOB_QUEUED | JOB_PROCESSING | JOB_COMPLETED | JOB_FAILED

datatype outbox_status = OUT_PENDING | OUT_DELIVERED | OUT_FAILED

fun category_value :: "media_category \<Rightarrow> string" where
  "category_value CAT_AVATAR = ''avatar''"
| "category_value CAT_DOCUMENT = ''document''"
| "category_value CAT_ASSET = ''asset''"
| "category_value CAT_CHAT_ATTACHMENT = ''chat_attachment''"
| "category_value CAT_EXPORT = ''export''"
| "category_value CAT_RECEIPT = ''receipt''"

fun visibility_value :: "media_visibility \<Rightarrow> string" where
  "visibility_value VIS_PUBLIC = ''public''"
| "visibility_value VIS_PRIVATE = ''private''"
| "visibility_value VIS_TENANT = ''tenant''"
| "visibility_value VIS_SENSITIVE = ''sensitive''"

fun object_status_value :: "media_object_status \<Rightarrow> string" where
  "object_status_value OBJ_PENDING_UPLOAD = ''pending_upload''"
| "object_status_value OBJ_UPLOADED = ''uploaded''"
| "object_status_value OBJ_PROCESSING = ''processing''"
| "object_status_value OBJ_READY = ''ready''"
| "object_status_value OBJ_FAILED = ''failed''"
| "object_status_value OBJ_DELETED = ''deleted''"
| "object_status_value OBJ_REJECTED = ''rejected''"

fun scan_value :: "scan_status \<Rightarrow> string" where
  "scan_value SCAN_PENDING = ''pending''"
| "scan_value SCAN_CLEAN = ''clean''"
| "scan_value SCAN_INFECTED = ''infected''"
| "scan_value SCAN_QUARANTINED = ''quarantined''"
| "scan_value SCAN_SKIPPED = ''skipped''"

fun session_status_value :: "upload_session_status \<Rightarrow> string" where
  "session_status_value SES_INITIATED = ''initiated''"
| "session_status_value SES_COMPLETED = ''completed''"
| "session_status_value SES_ABORTED = ''aborted''"
| "session_status_value SES_EXPIRED = ''expired''"

section \<open>The authenticated principal\<close>

text \<open>What the controllers read of the SDK's \<open>UserModel\<close>.\<close>

record principal =
  p_id :: uuid
  p_superuser :: bool
  p_tenant :: "uuid option"

text \<open>\<open>core/tenancy.py\<close>: the caller's tenant, \<open>None\<close> when untenanted.\<close>

definition user_tenant_id :: "principal \<Rightarrow> uuid option" where
  "user_tenant_id p = p_tenant p"

text \<open>\<open>policies/ownership.py\<close>.\<close>

definition is_owner :: "uuid \<Rightarrow> uuid \<Rightarrow> bool" where
  "is_owner owner_user_id current_user_id \<longleftrightarrow> owner_user_id = current_user_id"

section \<open>Rows\<close>

record media_object =
  mo_id :: uuid
  mo_tenant_id :: "uuid option"
  mo_owner_user_id :: uuid
  mo_category :: media_category
  mo_visibility :: media_visibility
  mo_storage_bucket :: string
  mo_object_key :: ustr
  mo_original_filename :: "ustr option"
  mo_mime_type :: string
  mo_extension :: "string option"
  mo_size_bytes :: int
  mo_sha256 :: "string option"
  mo_etag :: "string option"
  mo_storage_class :: string
  mo_status :: media_object_status
  mo_scan_status :: scan_status
  mo_moderation_status :: moderation_status
  mo_created_at :: datetime
  mo_updated_at :: datetime
  mo_deleted_at :: "datetime option"

record upload_session =
  us_id :: uuid
  us_tenant_id :: "uuid option"
  us_owner_user_id :: uuid
  us_category :: media_category
  us_visibility :: media_visibility
  us_storage_bucket :: string
  us_object_key :: ustr
  us_original_filename :: "ustr option"
  us_expected_mime_type :: string
  us_expected_size_bytes :: int
  us_status :: upload_session_status
  us_created_at :: datetime
  us_expires_at :: datetime
  us_completed_at :: "datetime option"
  us_category_ids :: "int list option"

text \<open>
  Usage rows are found by their scope \<open>(owner_user_id, tenant_id)\<close> only, so the
  surrogate \<open>id\<close> and \<open>created_at\<close> are left out. An untenanted scope is the key with
  tenant \<open>None\<close>: \<open>_find_usage\<close> matches \<open>IS NULL\<close> explicitly.
\<close>

type_synonym scope = "uuid \<times> uuid option"

record storage_usage =
  su_owner_user_id :: uuid
  su_tenant_id :: "uuid option"
  su_total_bytes :: int
  su_object_count :: int
  su_quota_bytes :: "int option"
  su_quota_objects :: "int option"
  su_updated_at :: datetime

definition su_scope :: "storage_usage \<Rightarrow> scope" where
  "su_scope r = (su_owner_user_id r, su_tenant_id r)"

record share_token =
  sh_id :: uuid
  sh_media_object_id :: uuid
  sh_owner_user_id :: uuid
  sh_tenant_id :: "uuid option"
  sh_expires_at :: datetime
  sh_max_uses :: "int option"
  sh_uses :: int
  sh_revoked :: bool
  sh_created_at :: datetime

record media_variant =
  mv_id :: uuid
  mv_media_object_id :: uuid
  mv_variant_name :: ustr
  mv_storage_bucket :: string
  mv_object_key :: ustr
  mv_width :: "int option"
  mv_height :: "int option"
  mv_size_bytes :: int
  mv_format :: string
  mv_created_at :: datetime

record variant_job =
  vj_id :: uuid
  vj_media_object_id :: uuid
  vj_owner_user_id :: uuid
  vj_tenant_id :: "uuid option"
  vj_status :: job_status
  vj_requested_presets :: "ustr list"
  vj_variants_expected :: int
  vj_variants_created :: int
  vj_error :: "ustr option"
  vj_created_at :: datetime
  vj_updated_at :: datetime

record outbox_event =
  oe_id :: uuid
  oe_event_type :: string
  oe_object_id :: uuid
  oe_payload :: "(string \<times> ustr) list"
  oe_status :: outbox_status
  oe_attempts :: int
  oe_next_attempt_at :: datetime
  oe_created_at :: datetime
  oe_delivered_at :: "datetime option"

record subscription =
  sub_id :: uuid
  sub_url :: ustr
  sub_secret :: ustr
  sub_event_types :: "string list"
  sub_active :: bool
  sub_created_at :: datetime

record export_job =
  ej_id :: uuid
  ej_owner_user_id :: uuid
  ej_tenant_id :: "uuid option"
  ej_is_superuser :: bool
  ej_status :: job_status
  ej_object_count :: int
  ej_total_size_bytes :: int
  ej_storage_bucket :: "string option"
  ej_object_key :: "ustr option"
  ej_size_bytes :: "int option"
  ej_expires_at :: "datetime option"
  ej_error :: "ustr option"
  ej_created_at :: datetime
  ej_updated_at :: datetime

record category =
  cat_id :: int
  cat_name :: ustr
  cat_slug :: ustr
  cat_parent_id :: "int option"
  cat_owner_id :: uuid
  cat_tenant_id :: "uuid option"

text \<open>Preset recipes (\<open>schemas/presets.py\<close>) as stored in the \<open>spec\<close> column.\<close>

datatype image_format = FMT_WEBP | FMT_JPEG | FMT_PNG | FMT_GIF | FMT_AVIF

record format_spec =
  fs_ext :: image_format
  fs_quality :: int

record image_size_spec =
  sz_fixed_width :: "int option"
  sz_fixed_height :: "int option"
  sz_fixed_size :: "int option"

record preset_spec =
  ps_image_size :: image_size_spec
  ps_formats :: "format_spec list"
  ps_allow_upscale :: bool
  ps_max_byte_size :: "int option"

record image_preset =
  ip_id :: uuid
  ip_owner_user_id :: uuid
  ip_tenant_id :: "uuid option"
  ip_name :: ustr
  ip_spec :: preset_spec
  ip_created_at :: datetime
  ip_updated_at :: datetime

section \<open>The state\<close>

text \<open>
  \<open>db_links\<close> is the filing table \<open>media_object_category\<close> (object id, category id);
  \<open>db_next_category\<close> is the AUTOINCREMENT counter of \<open>category.id\<close>.
\<close>

record database =
  db_objects :: "media_object list"
  db_sessions :: "upload_session list"
  db_usage :: "storage_usage list"
  db_shares :: "share_token list"
  db_variants :: "media_variant list"
  db_variant_jobs :: "variant_job list"
  db_outbox :: "outbox_event list"
  db_subscriptions :: "subscription list"
  db_export_jobs :: "export_job list"
  db_categories :: "category list"
  db_links :: "(uuid \<times> int) list"
  db_presets :: "image_preset list"
  db_next_category :: int

text \<open>The counters of \<open>metrics.py\<close>, as a log of increments.\<close>

datatype metric =
    M_upload_initiated string string
  | M_upload_completed string int
  | M_upload_failed
  | M_upload_rejected string
  | M_quota_rejected string
  | M_download_url_generated
  | M_rate_limit_redis_error string
  | M_share_resolve string

record 's world =
  w_db :: database
  w_sto :: 's              \<comment> \<open>the object storage's own state, opaque to the service\<close>
  w_metrics :: "metric list"

definition empty_db :: database where
  "empty_db = \<lparr>db_objects = [], db_sessions = [], db_usage = [], db_shares = [],
     db_variants = [], db_variant_jobs = [], db_outbox = [], db_subscriptions = [],
     db_export_jobs = [], db_categories = [], db_links = [], db_presets = [],
     db_next_category = 1\<rparr>"

abbreviation tick :: "metric \<Rightarrow> 's world \<Rightarrow> 's world" where
  "tick m w \<equiv> w\<lparr>w_metrics := w_metrics w @ [m]\<rparr>"

section \<open>Settings\<close>

text \<open>The fields of \<open>core/config.py\<close> the modelled code reads.\<close>

record settings =
  S3_BUCKET_PUBLIC :: string
  S3_BUCKET_PRIVATE :: string
  S3_BUCKET_SENSITIVE :: string
  S3_BUCKET_TEMP :: string
  S3_BUCKET_ARCHIVE :: string
  S3_PRESIGNED_URL_EXPIRE_SECONDS :: int
  MEDIA_MAX_UPLOAD_SIZE_BYTES :: int
  MEDIA_MAX_UPLOAD_SIZE_BYTES_PER_CATEGORY :: "(string \<times> int) list"
  MEDIA_SHA256_VERIFY_CHUNK_SIZE :: int
  MEDIA_DEFAULT_QUOTA_BYTES :: "int option"
  MEDIA_DEFAULT_QUOTA_OBJECTS :: "int option"
  MEDIA_SHARE_DEFAULT_EXPIRES_SECONDS :: int
  MEDIA_SHARE_MAX_EXPIRES_SECONDS :: int
  MEDIA_EXPORT_MAX_OBJECTS :: int
  MEDIA_EXPORT_MAX_TOTAL_BYTES :: int
  MEDIA_EXPORT_ARCHIVE_TTL_SECONDS :: int
  MEDIA_IMPORT_MAX_OBJECTS :: int
  MEDIA_IMPORT_MAX_TOTAL_BYTES :: int
  MEDIA_IMPORT_MAX_CATEGORIES :: int
  MEDIA_IMPORT_MAX_CATEGORY_DEPTH :: int
  MEDIA_IMPORT_MAX_MANIFEST_BYTES :: int
  MEDIA_IMPORT_MAX_ARCHIVE_BYTES :: int
  MEDIA_EXPORT_STREAM_CHUNK_SIZE :: int
  MEDIA_RETENTION_PURGE_DAYS :: int
  MEDIA_PURGE_BATCH_LIMIT :: int
  MEDIA_RECONCILE_GRACE_MINUTES :: int
  MEDIA_RECONCILE_BATCH_LIMIT :: int
  OUTBOX_BATCH_LIMIT :: int
  OUTBOX_MAX_ATTEMPTS :: int
  OUTBOX_BACKOFF_BASE_SECONDS :: int
  MEDIA_WEBHOOK_ALLOWED_INTERNAL_HOSTS :: "ustr list"
  MEDIA_RATE_LIMIT_FAILURE_MODE :: string
  MEDIA_REDIS_NAMESPACE :: ustr
  MEDIA_INTERNAL_SERVICE_TOKEN :: ustr   \<comment> \<open>a required secret, no default\<close>

text \<open>
  The declared defaults, with a deployment's choice of quotas as arguments and an
  example value for the service token.
\<close>

definition default_settings :: "int option \<Rightarrow> int option \<Rightarrow> settings" where
  "default_settings qb qo = \<lparr>
     S3_BUCKET_PUBLIC = ''public-media'', S3_BUCKET_PRIVATE = ''private-media'',
     S3_BUCKET_SENSITIVE = ''sensitive-media'', S3_BUCKET_TEMP = ''temp-media'',
     S3_BUCKET_ARCHIVE = ''archive-media'', S3_PRESIGNED_URL_EXPIRE_SECONDS = 300,
     MEDIA_MAX_UPLOAD_SIZE_BYTES = 104857600,
     MEDIA_MAX_UPLOAD_SIZE_BYTES_PER_CATEGORY = [],
     MEDIA_SHA256_VERIFY_CHUNK_SIZE = 1048576,
     MEDIA_DEFAULT_QUOTA_BYTES = qb, MEDIA_DEFAULT_QUOTA_OBJECTS = qo,
     MEDIA_SHARE_DEFAULT_EXPIRES_SECONDS = 604800,
     MEDIA_SHARE_MAX_EXPIRES_SECONDS = 2592000,
     MEDIA_EXPORT_MAX_OBJECTS = 5000, MEDIA_EXPORT_MAX_TOTAL_BYTES = 5368709120,
     MEDIA_EXPORT_ARCHIVE_TTL_SECONDS = 86400,
     MEDIA_IMPORT_MAX_OBJECTS = 5000, MEDIA_IMPORT_MAX_TOTAL_BYTES = 5368709120,
     MEDIA_IMPORT_MAX_CATEGORIES = 1000, MEDIA_IMPORT_MAX_CATEGORY_DEPTH = 10,
     MEDIA_IMPORT_MAX_MANIFEST_BYTES = 16777216,
     MEDIA_IMPORT_MAX_ARCHIVE_BYTES = 5368709120,
     MEDIA_EXPORT_STREAM_CHUNK_SIZE = 1048576,
     MEDIA_RETENTION_PURGE_DAYS = 30, MEDIA_PURGE_BATCH_LIMIT = 500,
     MEDIA_RECONCILE_GRACE_MINUTES = 60, MEDIA_RECONCILE_BATCH_LIMIT = 1000,
     OUTBOX_BATCH_LIMIT = 100, OUTBOX_MAX_ATTEMPTS = 8, OUTBOX_BACKOFF_BASE_SECONDS = 30,
     MEDIA_WEBHOOK_ALLOWED_INTERNAL_HOSTS = [],
     MEDIA_RATE_LIMIT_FAILURE_MODE = ''fail_open'', MEDIA_REDIS_NAMESPACE = u ''media'',
     MEDIA_INTERNAL_SERVICE_TOKEN = u ''service-token''\<rparr>"

end
