(* ===== verification/Quotas.thy ===== *)
theory Quotas
  imports DataModel "HOL-Library.Multiset"
begin

text \<open>
  \<open>core/quotas.py\<close>: per-scope running totals and their ceilings. Every function takes
  the \<open>storage_usage\<close> table and returns it updated; the increments of the quota metric
  are returned as a list. \<open>_lock_or_create_usage\<close> differs from
  \<open>get_or_create_usage\<close> by the row lock and the flush only, so a call of
  \<open>reserve_storage_for_object\<close> is one atomic step of the table.

  The locale \<open>usage_ledger\<close> is the contract the upload and delete paths rely on; its
  \<open>tracks\<close> lemmas say when the totals equal the stored collection.
\<close>

section \<open>Finding and creating a scope's row\<close>

definition find_usage :: "storage_usage list \<Rightarrow> uuid \<Rightarrow> uuid option \<Rightarrow> storage_usage option" where
  "find_usage us owner tenant = tbl_get su_scope us (owner, tenant)"

definition new_usage :: "uuid \<Rightarrow> uuid option \<Rightarrow> datetime \<Rightarrow> storage_usage" where
  "new_usage owner tenant now = \<lparr>su_owner_user_id = owner, su_tenant_id = tenant,
     su_total_bytes = 0, su_object_count = 0, su_quota_bytes = None, su_quota_objects = None,
     su_updated_at = now\<rparr>"

definition get_or_create_usage ::
  "storage_usage list \<Rightarrow> uuid \<Rightarrow> uuid option \<Rightarrow> datetime \<Rightarrow> storage_usage \<times> storage_usage list" where
  "get_or_create_usage us owner tenant now =
     (case find_usage us owner tenant of
        Some r \<Rightarrow> (r, us)
      | None \<Rightarrow> let r = new_usage owner tenant now in (r, us @ [r]))"

definition lock_or_create_usage ::
  "storage_usage list \<Rightarrow> uuid \<Rightarrow> uuid option \<Rightarrow> datetime \<Rightarrow> storage_usage \<times> storage_usage list" where
  "lock_or_create_usage us owner tenant now =
     (case tbl_get su_scope us (owner, tenant) of
        Some r \<Rightarrow> (r, us)
      | None \<Rightarrow> let r = new_usage owner tenant now in (r, us @ [r]))"

section \<open>Ceilings\<close>

definition effective_quota_bytes :: "settings \<Rightarrow> storage_usage option \<Rightarrow> int option" where
  "effective_quota_bytes cfg usage =
     (case usage of
        Some r \<Rightarrow> (case su_quota_bytes r of Some q \<Rightarrow> Some q | None \<Rightarrow> MEDIA_DEFAULT_QUOTA_BYTES cfg)
      | None \<Rightarrow> MEDIA_DEFAULT_QUOTA_BYTES cfg)"

definition effective_quota_objects :: "settings \<Rightarrow> storage_usage option \<Rightarrow> int option" where
  "effective_quota_objects cfg usage =
     (case usage of
        Some r \<Rightarrow> (case su_quota_objects r of Some q \<Rightarrow> Some q | None \<Rightarrow> MEDIA_DEFAULT_QUOTA_OBJECTS cfg)
      | None \<Rightarrow> MEDIA_DEFAULT_QUOTA_OBJECTS cfg)"

definition over :: "int option \<Rightarrow> int \<Rightarrow> bool" where
  "over quota n \<longleftrightarrow> (case quota of None \<Rightarrow> False | Some q \<Rightarrow> n > q)"

definition check_quota ::
  "settings \<Rightarrow> storage_usage list \<Rightarrow> uuid \<Rightarrow> uuid option \<Rightarrow> int \<Rightarrow> unit result \<times> metric list" where
  "check_quota cfg us owner tenant additional_bytes =
     (let usage = find_usage us owner tenant;
          current_bytes = (case usage of Some r \<Rightarrow> su_total_bytes r | None \<Rightarrow> 0);
          current_count = (case usage of Some r \<Rightarrow> su_object_count r | None \<Rightarrow> 0)
      in if over (effective_quota_bytes cfg usage) (current_bytes + additional_bytes)
         then (Inl (Http 413 (DText ''Storage byte quota exceeded.'')), [M_quota_rejected ''bytes''])
         else if over (effective_quota_objects cfg usage) (current_count + 1)
         then (Inl (Http 409 (DText ''Storage object-count quota exceeded.'')),
               [M_quota_rejected ''objects''])
         else (Inr (), []))"

section \<open>Moving the totals\<close>

text \<open>\<open>UploadRejectReason\<close>, the stable reject tokens.\<close>

datatype upload_reject_reason =
    REJ_SIZE_EXCEEDED | REJ_MIME_MISMATCH | REJ_SHA256_MISMATCH
  | REJ_QUOTA_BYTES_EXCEEDED | REJ_QUOTA_OBJECTS_EXCEEDED

fun reject_value :: "upload_reject_reason \<Rightarrow> string" where
  "reject_value REJ_SIZE_EXCEEDED = ''size_exceeded''"
| "reject_value REJ_MIME_MISMATCH = ''mime_mismatch''"
| "reject_value REJ_SHA256_MISMATCH = ''sha256_mismatch''"
| "reject_value REJ_QUOTA_BYTES_EXCEEDED = ''quota_bytes_exceeded''"
| "reject_value REJ_QUOTA_OBJECTS_EXCEEDED = ''quota_objects_exceeded''"

definition credited :: "storage_usage \<Rightarrow> int \<Rightarrow> datetime \<Rightarrow> storage_usage" where
  "credited r n now = r\<lparr>su_total_bytes := su_total_bytes r + n,
     su_object_count := su_object_count r + 1, su_updated_at := now\<rparr>"

definition record_object_added ::
  "storage_usage list \<Rightarrow> uuid \<Rightarrow> uuid option \<Rightarrow> int \<Rightarrow> datetime \<Rightarrow> storage_usage list" where
  "record_object_added us owner tenant size_bytes now =
     (let (r, us1) = get_or_create_usage us owner tenant now
      in tbl_put su_scope us1 (credited r size_bytes now))"

text \<open>
  On refusal the freshly flushed zero row stays in the session, and the reject path
  commits it, so the table is returned in both cases.
\<close>

definition reserve_storage_for_object ::
  "settings \<Rightarrow> storage_usage list \<Rightarrow> uuid \<Rightarrow> uuid option \<Rightarrow> int \<Rightarrow> datetime \<Rightarrow>
   (upload_reject_reason + unit) \<times> storage_usage list \<times> metric list" where
  "reserve_storage_for_object cfg us owner tenant size_bytes now =
     (let (r, us1) = lock_or_create_usage us owner tenant now
      in if over (effective_quota_bytes cfg (Some r)) (su_total_bytes r + size_bytes)
         then (Inl REJ_QUOTA_BYTES_EXCEEDED, us1, [M_quota_rejected ''bytes''])
         else if over (effective_quota_objects cfg (Some r)) (su_object_count r + 1)
         then (Inl REJ_QUOTA_OBJECTS_EXCEEDED, us1, [M_quota_rejected ''objects''])
         else (Inr (), tbl_put su_scope us1 (credited r size_bytes now), []))"

definition debited :: "storage_usage \<Rightarrow> int \<Rightarrow> datetime \<Rightarrow> storage_usage" where
  "debited r n now = r\<lparr>su_total_bytes := max 0 (su_total_bytes r - n),
     su_object_count := max 0 (su_object_count r - 1), su_updated_at := now\<rparr>"

definition record_object_removed ::
  "storage_usage list \<Rightarrow> uuid \<Rightarrow> uuid option \<Rightarrow> int \<Rightarrow> datetime \<Rightarrow> storage_usage list" where
  "record_object_removed us owner tenant size_bytes now =
     (let (r, us1) = get_or_create_usage us owner tenant now
      in tbl_put su_scope us1 (debited r size_bytes now))"

section \<open>Balances\<close>

text \<open>What a scope has been charged: a missing row is zero usage.\<close>

definition balance :: "storage_usage list \<Rightarrow> scope \<Rightarrow> int \<times> int" where
  "balance us k = (case tbl_get su_scope us k of
     Some r \<Rightarrow> (su_total_bytes r, su_object_count r) | None \<Rightarrow> (0, 0))"

definition quotas_of :: "settings \<Rightarrow> storage_usage list \<Rightarrow> scope \<Rightarrow> int option \<times> int option" where
  "quotas_of cfg us k =
     (effective_quota_bytes cfg (tbl_get su_scope us k), effective_quota_objects cfg (tbl_get su_scope us k))"

lemma usage_simps [simp]:
  "su_scope (new_usage o' t now) = (o', t)"
  "su_total_bytes (new_usage o' t now) = 0"
  "su_object_count (new_usage o' t now) = 0"
  "effective_quota_bytes cfg (Some (new_usage o' t now)) = effective_quota_bytes cfg None"
  "effective_quota_objects cfg (Some (new_usage o' t now)) = effective_quota_objects cfg None"
  "su_scope (credited r n now) = su_scope r"
  "su_scope (debited r n now) = su_scope r"
  "su_total_bytes (credited r n now) = su_total_bytes r + n"
  "su_object_count (credited r n now) = su_object_count r + 1"
  "su_total_bytes (debited r n now) = max 0 (su_total_bytes r - n)"
  "su_object_count (debited r n now) = max 0 (su_object_count r - 1)"
  "effective_quota_bytes cfg (Some (credited r n now)) = effective_quota_bytes cfg (Some r)"
  "effective_quota_objects cfg (Some (credited r n now)) = effective_quota_objects cfg (Some r)"
  by (simp_all add: su_scope_def new_usage_def credited_def debited_def
      effective_quota_bytes_def effective_quota_objects_def)

lemma get_or_create_row:
  assumes "get_or_create_usage us owner tenant now = (r, us1)"
  shows "su_scope r = (owner, tenant)"
    and "k \<noteq> (owner, tenant) \<Longrightarrow> tbl_get su_scope us1 k = tbl_get su_scope us k"
    and "balance us (owner, tenant) = (su_total_bytes r, su_object_count r)"
    and "quotas_of cfg us (owner, tenant) =
      (effective_quota_bytes cfg (Some r), effective_quota_objects cfg (Some r))"
  using assms
  by (auto simp: get_or_create_usage_def find_usage_def Let_def tbl_get_append balance_def quotas_of_def
      split: option.splits dest: tbl_get_key)

lemma get_or_create_get:
  "get_or_create_usage us owner tenant now = (r, us1) \<Longrightarrow> tbl_get su_scope us1 (owner, tenant) = Some r"
  by (auto simp: get_or_create_usage_def find_usage_def Let_def tbl_get_append split: option.splits)

lemma get_or_create_balance:
  "get_or_create_usage us owner tenant now = (r, us1) \<Longrightarrow> balance us1 k = balance us k"
  using get_or_create_row [of us owner tenant now r us1] get_or_create_get [of us owner tenant now r us1]
  by (cases "k = (owner, tenant)") (simp_all add: balance_def)

lemma get_or_create_quotas:
  "get_or_create_usage us owner tenant now = (r, us1) \<Longrightarrow> quotas_of cfg us1 k = quotas_of cfg us k"
  using get_or_create_row [of us owner tenant now r us1] get_or_create_get [of us owner tenant now r us1]
  by (cases "k = (owner, tenant)") (simp_all add: quotas_of_def)

lemma lock_is_get_or_create: "lock_or_create_usage = get_or_create_usage"
  by (intro ext) (simp add: lock_or_create_usage_def get_or_create_usage_def find_usage_def)

lemma balance_put:
  "balance (tbl_put su_scope us r) k =
     (if k = su_scope r then (su_total_bytes r, su_object_count r) else balance us k)"
  by (simp add: balance_def table_simps)

lemma reserve_balance:
  assumes "reserve_storage_for_object cfg us owner tenant n now = (res, us', ms)"
  shows "balance us' k = (if k = (owner, tenant) \<and> res = Inr ()
      then (fst (balance us k) + n, snd (balance us k) + 1) else balance us k)"
proof -
  obtain r us1 where c: "get_or_create_usage us owner tenant now = (r, us1)"
    by fastforce
  note row = get_or_create_row [OF c] get_or_create_balance [OF c]
  show ?thesis
    using assms row(5) [of k] row(3)
    by (auto simp: reserve_storage_for_object_def lock_is_get_or_create c row(1) balance_put
        split: if_splits)
qed

lemma removed_balance:
  "balance (record_object_removed us owner tenant n now) k =
     (if k = (owner, tenant)
      then (max 0 (fst (balance us k) - n), max 0 (snd (balance us k) - 1)) else balance us k)"
proof -
  obtain r us1 where c: "get_or_create_usage us owner tenant now = (r, us1)"
    by fastforce
  show ?thesis
    by (simp add: record_object_removed_def c get_or_create_row [OF c] get_or_create_balance [OF c]
        balance_put)
qed

lemma reserve_ok_iff:
  "fst (reserve_storage_for_object cfg us owner tenant n now) = Inr () \<longleftrightarrow>
     \<not> over (fst (quotas_of cfg us (owner, tenant))) (fst (balance us (owner, tenant)) + n) \<and>
     \<not> over (snd (quotas_of cfg us (owner, tenant))) (snd (balance us (owner, tenant)) + 1)"
proof -
  obtain r us1 where c: "get_or_create_usage us owner tenant now = (r, us1)"
    by fastforce
  show ?thesis
    by (simp add: reserve_storage_for_object_def lock_is_get_or_create c get_or_create_row [OF c])
qed

lemma reserve_quotas:
  "quotas_of cfg (fst (snd (reserve_storage_for_object cfg us owner tenant n now))) k = quotas_of cfg us k"
proof -
  obtain r us1 where c: "get_or_create_usage us owner tenant now = (r, us1)"
    by fastforce
  have "tbl_get su_scope us1 (owner, tenant) = Some r" by (rule get_or_create_get [OF c])
  then have "quotas_of cfg (tbl_put su_scope us1 (credited r n now)) k = quotas_of cfg us1 k"
    by (simp add: quotas_of_def table_simps get_or_create_row [OF c])
  then show ?thesis
    by (simp add: reserve_storage_for_object_def lock_is_get_or_create c get_or_create_quotas [OF c])
qed

section \<open>The ledger contract\<close>

text \<open>
  \<open>ledger_tracks b M\<close>: the balances \<open>b\<close> are the byte sums and counts of the
  collection \<open>M\<close> of charged objects \<open>(scope, size)\<close>.
\<close>

definition charged :: "'k \<Rightarrow> ('k \<times> int) multiset \<Rightarrow> int \<times> int" where
  "charged k M = (let N = filter_mset (\<lambda>x. fst x = k) M
     in (sum_mset (image_mset snd N), int (size N)))"

definition ledger_tracks :: "('k \<Rightarrow> int \<times> int) \<Rightarrow> ('k \<times> int) multiset \<Rightarrow> bool" where
  "ledger_tracks b M \<longleftrightarrow> (\<forall>k. b k = charged k M)"

lemma charged_empty [simp]: "charged k {#} = (0, 0)"
  by (simp add: charged_def)

lemma charged_add:
  "charged k (add_mset (k', n) M) =
     (if k' = k then (fst (charged k M) + n, snd (charged k M) + 1) else charged k M)"
  by (simp add: charged_def Let_def)

lemma charged_nonneg:
  "(\<And>x. x \<in># M \<Longrightarrow> 0 \<le> snd x) \<Longrightarrow> 0 \<le> fst (charged k M) \<and> 0 \<le> snd (charged k M)"
proof (induction M)
  case (add x M)
  then have "0 \<le> snd x" and "0 \<le> fst (charged k M) \<and> 0 \<le> snd (charged k M)" by auto
  then show ?case by (cases x) (simp add: charged_add)
qed simp

locale usage_ledger =
  fixes bal :: "'t \<Rightarrow> 'k \<Rightarrow> int \<times> int"
    and credit :: "'t \<Rightarrow> 'k \<Rightarrow> int \<Rightarrow> 't option"
    and debit :: "'t \<Rightarrow> 'k \<Rightarrow> int \<Rightarrow> 't"
  assumes credit_exact: "credit t k n = Some t' \<Longrightarrow>
      bal t' k' = (if k' = k then (fst (bal t k') + n, snd (bal t k') + 1) else bal t k')"
    and debit_exact: "bal (debit t k n) k' =
      (if k' = k then (max 0 (fst (bal t k') - n), max 0 (snd (bal t k') - 1)) else bal t k')"
begin

lemma credit_tracks:
  "ledger_tracks (bal t) M \<Longrightarrow> credit t k n = Some t' \<Longrightarrow> ledger_tracks (bal t') (add_mset (k, n) M)"
  by (auto simp: ledger_tracks_def credit_exact charged_add)

lemma debit_tracks:
  assumes "ledger_tracks (bal t) (add_mset (k, n) M)" and "\<And>x. x \<in># M \<Longrightarrow> 0 \<le> snd x"
  shows "ledger_tracks (bal (debit t k n)) M"
  using assms(1) charged_nonneg [of M k, OF assms(2)]
  by (auto simp: ledger_tracks_def debit_exact charged_add prod_eq_iff)

lemma debit_only_k: "k' \<noteq> k \<Longrightarrow> bal (debit t k n) k' = bal t k'"
  by (simp add: debit_exact)

end

definition credit_usage ::
  "settings \<Rightarrow> datetime \<Rightarrow> storage_usage list \<Rightarrow> scope \<Rightarrow> int \<Rightarrow> storage_usage list option" where
  "credit_usage cfg now us k n =
     (case reserve_storage_for_object cfg us (fst k) (snd k) n now of
        (Inr _, us', _) \<Rightarrow> Some us' | _ \<Rightarrow> None)"

definition debit_usage :: "datetime \<Rightarrow> storage_usage list \<Rightarrow> scope \<Rightarrow> int \<Rightarrow> storage_usage list" where
  "debit_usage now us k n = record_object_removed us (fst k) (snd k) n now"

lemma credit_usage_reserve:
  "credit_usage cfg now us k n = Some us' \<longleftrightarrow>
     (\<exists>ms. reserve_storage_for_object cfg us (fst k) (snd k) n now = (Inr (), us', ms))"
  by (auto simp: credit_usage_def split: prod.splits sum.splits)

interpretation ledger: usage_ledger balance "credit_usage cfg now" "debit_usage now"
  for cfg :: settings and now :: datetime
proof unfold_locales
  fix us us' :: "storage_usage list" and k k' :: scope and n :: int
  assume "credit_usage cfg now us k n = Some us'"
  then obtain ms where "reserve_storage_for_object cfg us (fst k) (snd k) n now = (Inr (), us', ms)"
    by (auto simp: credit_usage_reserve)
  from reserve_balance [OF this, of k']
  show "balance us' k' =
      (if k' = k then (fst (balance us k') + n, snd (balance us k') + 1) else balance us k')"
    by simp
next
  fix us :: "storage_usage list" and k k' :: scope and n :: int
  show "balance (debit_usage now us k n) k' =
      (if k' = k then (max 0 (fst (balance us k') - n), max 0 (snd (balance us k') - 1))
       else balance us k')"
    by (simp add: debit_usage_def removed_balance)
qed

section \<open>Properties\<close>

definition within_quota :: "int option \<Rightarrow> int \<Rightarrow> bool" where
  "within_quota quota n \<longleftrightarrow> (case quota of None \<Rightarrow> True | Some q \<Rightarrow> n \<le> q)"

lemma not_over_within: "\<not> over q n \<longleftrightarrow> within_quota q n"
  by (auto simp: over_def within_quota_def split: option.splits)

text \<open>
  The actual-size reservation is exact and enforcing: it succeeds precisely when
  both the byte total with the new object and the object count with it stay within the
  scope's effective ceilings; on success exactly these amounts are credited to exactly
  this scope; on refusal no scope's totals move.
\<close>

theorem reserve_enforces_quota:
  "case reserve_storage_for_object cfg us owner tenant n now of (res, us', ms) \<Rightarrow>
     (res = Inr () \<longleftrightarrow>
        within_quota (fst (quotas_of cfg us (owner, tenant))) (fst (balance us (owner, tenant)) + n) \<and>
        within_quota (snd (quotas_of cfg us (owner, tenant))) (snd (balance us (owner, tenant)) + 1)) \<and>
     balance us' = (if res = Inr ()
        then (balance us)((owner, tenant) :=
               (fst (balance us (owner, tenant)) + n, snd (balance us (owner, tenant)) + 1))
        else balance us) \<and>
     quotas_of cfg us' = quotas_of cfg us"
proof -
  obtain res us' ms where r: "reserve_storage_for_object cfg us owner tenant n now = (res, us', ms)"
    by (metis prod_cases3)
  have "balance us' = (if res = Inr ()
        then (balance us)((owner, tenant) :=
               (fst (balance us (owner, tenant)) + n, snd (balance us (owner, tenant)) + 1))
        else balance us)"
    using reserve_balance [OF r] by (auto simp: fun_eq_iff)
  moreover have "quotas_of cfg us' = quotas_of cfg us"
    using reserve_quotas [of cfg us owner tenant n now] by (auto simp: r)
  ultimately show ?thesis
    using reserve_ok_iff [of cfg us owner tenant n now] by (simp add: r not_over_within)
qed

text \<open>A schedule of completions and removals, in any interleaving the row lock allows.\<close>

datatype ledger_op = Reserve scope int datetime | Remove scope int datetime

fun ledger_op_size :: "ledger_op \<Rightarrow> int" where
  "ledger_op_size (Reserve k n t) = n"
| "ledger_op_size (Remove k n t) = n"

fun ledger_step :: "settings \<Rightarrow> storage_usage list \<Rightarrow> ledger_op \<Rightarrow> storage_usage list" where
  "ledger_step cfg us (Reserve k n now) =
     fst (snd (reserve_storage_for_object cfg us (fst k) (snd k) n now))"
| "ledger_step cfg us (Remove k n now) = record_object_removed us (fst k) (snd k) n now"

definition ledger_ok :: "settings \<Rightarrow> storage_usage list \<Rightarrow> bool" where
  "ledger_ok cfg us \<longleftrightarrow> (\<forall>k.
     0 \<le> fst (balance us k) \<and> 0 \<le> snd (balance us k) \<and>
     within_quota (map_option (max 0) (fst (quotas_of cfg us k))) (fst (balance us k)) \<and>
     within_quota (map_option (max 0) (snd (quotas_of cfg us k))) (snd (balance us k)))"

lemma within_max: "within_quota q n \<Longrightarrow> within_quota (map_option (max 0) q) n"
  by (auto simp: within_quota_def split: option.splits)

lemma within_max_mono: "within_quota (map_option (max 0) q) n \<Longrightarrow> m \<le> max 0 n \<Longrightarrow>
   within_quota (map_option (max 0) q) m"
  by (auto simp: within_quota_def split: option.splits)

lemma within_max_debit:
  "within_quota (map_option (max 0) q) n \<Longrightarrow> 0 \<le> d \<Longrightarrow> within_quota (map_option (max 0) q) (max 0 (n - d))"
  by (erule within_max_mono) simp

lemma effective_quotas_debited [simp]:
  "effective_quota_bytes cfg (Some (debited r n now)) = effective_quota_bytes cfg (Some r)"
  "effective_quota_objects cfg (Some (debited r n now)) = effective_quota_objects cfg (Some r)"
  by (simp_all add: effective_quota_bytes_def effective_quota_objects_def debited_def)

lemma removed_quotas:
  "quotas_of cfg (record_object_removed us owner tenant n now) k = quotas_of cfg us k"
proof -
  obtain r us1 where c: "get_or_create_usage us owner tenant now = (r, us1)"
    by fastforce
  have "tbl_get su_scope us1 (owner, tenant) = Some r" by (rule get_or_create_get [OF c])
  then have "quotas_of cfg (tbl_put su_scope us1 (debited r n now)) k = quotas_of cfg us1 k"
    by (simp add: quotas_of_def table_simps get_or_create_row [OF c])
  then show ?thesis
    by (simp add: record_object_removed_def c get_or_create_quotas [OF c])
qed

lemma ledger_step_ok:
  assumes ok: "ledger_ok cfg us" and n: "0 \<le> ledger_op_size op"
  shows "ledger_ok cfg (ledger_step cfg us op)"
proof (cases op)
  case (Reserve k m now)
  obtain res us' ms where r: "reserve_storage_for_object cfg us (fst k) (snd k) m now = (res, us', ms)"
    by (metis prod_cases3)
  note bal = reserve_balance [OF r] and quot = reserve_quotas [of cfg us "fst k" "snd k" m now]
    and iff = reserve_ok_iff [of cfg us "fst k" "snd k" m now]
  show ?thesis
    using ok n bal quot iff
    by (auto simp: ledger_ok_def Reserve r not_over_within intro!: within_max)
next
  case (Remove k m now)
  have "ledger_ok cfg us \<Longrightarrow> within_quota (map_option (max 0) (fst (quotas_of cfg us k)))
      (max 0 (fst (balance us k) - m)) \<and>
    within_quota (map_option (max 0) (snd (quotas_of cfg us k))) (max 0 (snd (balance us k) - 1))"
    using n by (cases k) (simp add: ledger_ok_def Remove within_max_debit)
  with ok show ?thesis
    by (auto simp: ledger_ok_def Remove removed_balance removed_quotas)
qed

fun ledger_run :: "settings \<Rightarrow> storage_usage list \<Rightarrow> ledger_op list \<Rightarrow> storage_usage list" where
  "ledger_run cfg us [] = us"
| "ledger_run cfg us (op # ops) = ledger_run cfg (ledger_step cfg us op) ops"

text \<open>
  C2. No schedule of completions and removals over any scopes, whatever their declared
  sizes and order, takes a scope past its ceilings or below zero: if totals start
  non-negative and within the effective quotas, they stay so (an admin override below
  zero counts as zero, since removal clamps there).
\<close>

theorem ledger_run_within_quota:
  "ledger_ok cfg us \<Longrightarrow> (\<forall>op \<in> set ops. 0 \<le> ledger_op_size op) \<Longrightarrow> ledger_ok cfg (ledger_run cfg us ops)"
proof (induction ops arbitrary: us)
  case (Cons op ops)
  then show ?case by (simp add: ledger_step_ok)
qed simp

theorem ledger_run_within_quota_witness:
  "ledger_ok (default_settings (Some 100) None)
     (ledger_run (default_settings (Some 100) None) []
        [Reserve (1, None) 70 0, Reserve (1, None) 70 1, Remove (1, None) 30 2, Reserve (2, None) 90 3])"
proof (rule ledger_run_within_quota)
  show "ledger_ok (default_settings (Some 100) None) []"
    by (simp add: ledger_ok_def balance_def quotas_of_def effective_quota_bytes_def
        effective_quota_objects_def default_settings_def within_quota_def)
qed simp

end
