(* ===== verification/Storage.thy ===== *)
theory Storage
  imports DataModel
begin

text \<open>
  Object storage. \<open>ObjectStorage\<close> is the third-party SDK's client
  (\<open>media_sdk_m8\<close>), so it is a parameter: a record of its operations over an opaque
  storage state \<open>'s\<close>. A reading operation answers \<open>None\<close> where the client raises; a
  writing one answers whether it returned normally, with the state it left. What the
  service relies on is the predicate \<open>storage_laws\<close>, stated over a view of the stored
  bytes; it leaves open what a failing call has done to its own target. The service's
  bucket policy (\<open>storage/buckets.py\<close>) and its best-effort removal are defined here.
\<close>

type_synonym blob = "nat list"
type_synonym location = "string \<times> ustr"   \<comment> \<open>bucket, object key\<close>

record obj_stat =
  stat_size :: int
  stat_etag :: "string option"

record 's storage_api =
  api_stat :: "'s \<Rightarrow> string \<Rightarrow> ustr \<Rightarrow> obj_stat option"
  api_head :: "'s \<Rightarrow> string \<Rightarrow> ustr \<Rightarrow> blob option"
  api_stream :: "'s \<Rightarrow> string \<Rightarrow> ustr \<Rightarrow> int \<Rightarrow> blob list option"
  api_set_content_type :: "'s \<Rightarrow> string \<Rightarrow> ustr \<Rightarrow> string \<Rightarrow> bool \<times> 's"
  api_copy :: "'s \<Rightarrow> string \<Rightarrow> ustr \<Rightarrow> string \<Rightarrow> ustr \<Rightarrow> bool \<times> 's"
  api_remove :: "'s \<Rightarrow> string \<Rightarrow> ustr \<Rightarrow> bool \<times> 's"
  api_put :: "'s \<Rightarrow> string \<Rightarrow> ustr \<Rightarrow> blob \<Rightarrow> string \<Rightarrow> bool \<times> 's"
  api_list :: "'s \<Rightarrow> string \<Rightarrow> ustr list option"
  api_presign_get :: "string \<Rightarrow> ustr \<Rightarrow> int \<Rightarrow> ustr option \<Rightarrow> ustr"
  api_presign_post :: "string \<Rightarrow> ustr \<Rightarrow> string \<Rightarrow> int \<Rightarrow> int \<Rightarrow> (ustr \<times> (string \<times> ustr) list) option"

type_synonym 's view = "'s \<Rightarrow> location \<Rightarrow> blob option"

definition storage_laws :: "'s storage_api \<Rightarrow> 's view \<Rightarrow> bool" where
  "storage_laws api view \<longleftrightarrow>
     (\<forall>s b k st. api_stat api s b k = Some st \<longrightarrow> view s (b, k) \<noteq> None) \<and>
     (\<forall>s b k b' k' s'. api_copy api s b k b' k' = (True, s') \<longrightarrow>
        view s (b, k) \<noteq> None \<and> view s' = (view s)((b', k') := view s (b, k))) \<and>
     (\<forall>s b k b' k' s' l. api_copy api s b k b' k' = (False, s') \<longrightarrow> l \<noteq> (b', k') \<longrightarrow>
        view s' l = view s l) \<and>
     (\<forall>s b k s'. api_remove api s b k = (True, s') \<longrightarrow> view s' = (view s)((b, k) := None)) \<and>
     (\<forall>s b k s' l. api_remove api s b k = (False, s') \<longrightarrow> l \<noteq> (b, k) \<longrightarrow>
        view s' l = view s l) \<and>
     (\<forall>s b k ct ok s'. api_set_content_type api s b k ct = (ok, s') \<longrightarrow> view s' = view s) \<and>
     (\<forall>s b k x ct s'. api_put api s b k x ct = (True, s') \<longrightarrow> view s' = (view s)((b, k) := Some x)) \<and>
     (\<forall>s b k x ct s' l. api_put api s b k x ct = (False, s') \<longrightarrow> l \<noteq> (b, k) \<longrightarrow> view s' l = view s l)"

text \<open>Each law on its own, in the form proofs use.\<close>

lemma storage_copy_law:
  "storage_laws api view \<Longrightarrow> \<forall>s b k b' k' s'. api_copy api s b k b' k' = (True, s') \<longrightarrow>
     view s (b, k) \<noteq> None \<and> view s' = (view s)((b', k') := view s (b, k))"
  unfolding storage_laws_def by (elim conjE)

lemma storage_copy_fail_law:
  "storage_laws api view \<Longrightarrow> \<forall>s b k b' k' s' l. api_copy api s b k b' k' = (False, s') \<longrightarrow>
     l \<noteq> (b', k') \<longrightarrow> view s' l = view s l"
  unfolding storage_laws_def by (elim conjE)

lemma storage_remove_law:
  "storage_laws api view \<Longrightarrow> \<forall>s b k s'. api_remove api s b k = (True, s') \<longrightarrow>
     view s' = (view s)((b, k) := None)"
  unfolding storage_laws_def by (elim conjE)

lemma storage_remove_fail_law:
  "storage_laws api view \<Longrightarrow> \<forall>s b k s' l. api_remove api s b k = (False, s') \<longrightarrow>
     l \<noteq> (b, k) \<longrightarrow> view s' l = view s l"
  unfolding storage_laws_def by (elim conjE)

lemma storage_content_type_law:
  "storage_laws api view \<Longrightarrow> \<forall>s b k ct ok s'. api_set_content_type api s b k ct = (ok, s') \<longrightarrow>
     view s' = view s"
  unfolding storage_laws_def by (elim conjE)

lemma storage_put_law:
  "storage_laws api view \<Longrightarrow> \<forall>s b k x ct s'. api_put api s b k x ct = (True, s') \<longrightarrow>
     view s' = (view s)((b, k) := Some x)"
  unfolding storage_laws_def by (elim conjE)

lemma storage_put_fail_law:
  "storage_laws api view \<Longrightarrow> \<forall>s b k x ct s' l. api_put api s b k x ct = (False, s') \<longrightarrow>
     l \<noteq> (b, k) \<longrightarrow> view s' l = view s l"
  unfolding storage_laws_def by (elim conjE)

lemma storage_put_frame:
  assumes "storage_laws api view" and "l \<noteq> (b, k)"
  shows "view (snd (api_put api s b k x ct)) l = view s l"
proof (cases "api_put api s b k x ct")
  case (Pair ok s')
  then show ?thesis
    using storage_put_law [OF assms(1), THEN spec, of s]
      storage_put_fail_law [OF assms(1), THEN spec, of s] assms(2)
    by (cases ok; cases l) auto
qed

lemma storage_copy_ok:
  assumes "storage_laws api view" and "api_copy api s b k b' k' = (True, s')"
  shows "view s' = (view s)((b', k') := view s (b, k))" and "view s (b, k) \<noteq> None"
  using storage_copy_law [OF assms(1), THEN spec, of s] assms(2) by simp_all

lemma storage_copy_frame:
  assumes "storage_laws api view" and "l \<noteq> (b', k')"
  shows "view (snd (api_copy api s b k b' k')) l = view s l"
proof (cases "api_copy api s b k b' k'")
  case (Pair ok s')
  then show ?thesis
    using storage_copy_ok(1) [OF assms(1)] storage_copy_fail_law [OF assms(1), THEN spec, of s] assms(2)
    by (cases ok; cases l) auto
qed

lemma storage_remove_frame:
  assumes "storage_laws api view" and "l \<noteq> (b, k)"
  shows "view (snd (api_remove api s b k)) l = view s l"
proof (cases "api_remove api s b k")
  case (Pair ok s')
  then show ?thesis
    using storage_remove_law [OF assms(1), THEN spec, of s]
      storage_remove_fail_law [OF assms(1), THEN spec, of s] assms(2)
    by (cases ok; cases l) auto
qed

lemma storage_set_content_type_view:
  "storage_laws api view \<Longrightarrow> view (snd (api_set_content_type api s b k ct)) = view s"
  using storage_content_type_law [THEN spec, of api view s]
  by (cases "api_set_content_type api s b k ct") auto

section \<open>Bucket policy\<close>

datatype storage_class = SC_TEMP | SC_ARCHIVE

fun bucket_for_visibility :: "settings \<Rightarrow> media_visibility \<Rightarrow> string" where
  "bucket_for_visibility cfg VIS_PUBLIC = S3_BUCKET_PUBLIC cfg"
| "bucket_for_visibility cfg VIS_PRIVATE = S3_BUCKET_PRIVATE cfg"
| "bucket_for_visibility cfg VIS_SENSITIVE = S3_BUCKET_SENSITIVE cfg"
| "bucket_for_visibility cfg VIS_TENANT = S3_BUCKET_PRIVATE cfg"

fun bucket_for_storage_class :: "settings \<Rightarrow> storage_class \<Rightarrow> string" where
  "bucket_for_storage_class cfg SC_TEMP = S3_BUCKET_TEMP cfg"
| "bucket_for_storage_class cfg SC_ARCHIVE = S3_BUCKET_ARCHIVE cfg"

text \<open>\<open>_best_effort_remove\<close>: the storage error, if any, is logged and swallowed.\<close>

definition best_effort_remove :: "'s storage_api \<Rightarrow> string \<Rightarrow> ustr \<Rightarrow> 's world \<Rightarrow> 's world" where
  "best_effort_remove api b k w = w\<lparr>w_sto := snd (api_remove api (w_sto w) b k)\<rparr>"

lemma best_effort_remove_db [simp]:
  "w_db (best_effort_remove api b k w) = w_db w"
  "w_metrics (best_effort_remove api b k w) = w_metrics w"
  by (simp_all add: best_effort_remove_def)

lemma best_effort_remove_frame:
  "storage_laws api view \<Longrightarrow> l \<noteq> (b, k) \<Longrightarrow>
   view (w_sto (best_effort_remove api b k w)) l = view (w_sto w) l"
  by (simp add: best_effort_remove_def storage_remove_frame)

section \<open>Runs of best-effort removals\<close>

text \<open>
  Several clean-ups remove one location after the other and swallow each failure.
  \<open>refused\<close> collects the locations the storage refused to remove during such a run: a
  location that was on the list and was never refused is empty afterwards, and a location
  that was not on the list is untouched.
\<close>

fun remove_all :: "'s storage_api \<Rightarrow> location list \<Rightarrow> 's world \<Rightarrow> 's world" where
  "remove_all api [] w = w"
| "remove_all api ((b, k) # ls) w = remove_all api ls (best_effort_remove api b k w)"

fun refused :: "'s storage_api \<Rightarrow> location list \<Rightarrow> 's \<Rightarrow> location set" where
  "refused api [] s = {}"
| "refused api ((b, k) # ls) s =
     (case api_remove api s b k of (ok, s') \<Rightarrow> (if ok then {} else {(b, k)}) \<union> refused api ls s')"

lemma remove_all_db [simp]: "w_db (remove_all api ls w) = w_db w"
  by (induction api ls w rule: remove_all.induct) simp_all

lemma remove_all_append: "remove_all api (ls @ ls') w = remove_all api ls' (remove_all api ls w)"
  by (induction api ls w rule: remove_all.induct) simp_all

lemma remove_all_with_db: "remove_all api ls (w\<lparr>w_db := d\<rparr>) = (remove_all api ls w)\<lparr>w_db := d\<rparr>"
proof (induction api ls w rule: remove_all.induct)
  case (2 api b k ls w)
  have "best_effort_remove api b k (w\<lparr>w_db := d\<rparr>) = (best_effort_remove api b k w)\<lparr>w_db := d\<rparr>"
    by (cases w) (simp add: best_effort_remove_def)
  with 2 show ?case by simp
qed simp

lemma remove_all_bytes:
  assumes laws: "storage_laws api view"
  shows "l \<notin> set ls \<Longrightarrow> view (w_sto (remove_all api ls w)) l = view (w_sto w) l"
proof (induction ls arbitrary: w)
  case (Cons x ls)
  obtain b k where x: "x = (b, k)" by fastforce
  show ?case using Cons best_effort_remove_frame [OF laws, of l b k w] by (simp add: x)
qed simp

lemma remove_all_gone:
  assumes laws: "storage_laws api view"
  shows "l \<in> set ls \<Longrightarrow> l \<notin> refused api ls (w_sto w) \<Longrightarrow> view (w_sto (remove_all api ls w)) l = None"
proof (induction ls arbitrary: w)
  case (Cons x ls)
  obtain b k where x: "x = (b, k)" by fastforce
  obtain ok s' where rm: "api_remove api (w_sto w) b k = (ok, s')" by fastforce
  have sto: "w_sto (best_effort_remove api b k w) = s'" by (simp add: best_effort_remove_def rm)
  have rest: "l \<notin> refused api ls (w_sto (best_effort_remove api b k w))"
    using Cons.prems(2) by (simp add: x rm sto)
  show ?case
  proof (cases "l \<in> set ls")
    case True
    then show ?thesis using Cons.IH [OF _ rest] by (simp add: x)
  next
    case False
    with Cons.prems have l: "l = (b, k)" and ok by (auto simp: x rm split: if_splits)
    then have "view s' l = None" using storage_remove_law [OF laws] rm by fastforce
    then show ?thesis using remove_all_bytes [OF laws False] by (simp add: x sto)
  qed
qed simp

section \<open>A concrete storage, for evaluation\<close>

text \<open>
  Bytes in a map; \<open>copy_up\<close> says whether the copy call succeeds, so that the
  outage branches can be evaluated too.
\<close>

definition mem_api :: "bool \<Rightarrow> (location \<Rightarrow> blob option) storage_api" where
  "mem_api copy_up = \<lparr>
     api_stat = (\<lambda>s b k. map_option (\<lambda>x. \<lparr>stat_size = int (length x), stat_etag = None\<rparr>) (s (b, k))),
     api_head = (\<lambda>s b k. s (b, k)),
     api_stream = (\<lambda>s b k c. map_option (\<lambda>x. [x]) (s (b, k))),
     api_set_content_type = (\<lambda>s b k ct. (s (b, k) \<noteq> None, s)),
     api_copy = (\<lambda>s b k b' k'. if copy_up \<and> s (b, k) \<noteq> None
        then (True, s((b', k') := s (b, k))) else (False, s)),
     api_remove = (\<lambda>s b k. (True, s((b, k) := None))),
     api_put = (\<lambda>s b k x ct. (True, s((b, k) := Some x))),
     api_list = (\<lambda>s b. Some []),
     api_presign_get = (\<lambda>b k e cd. k),
     api_presign_post = (\<lambda>b k ct m e. Some (k, []))\<rparr>"

text \<open>A storage that refuses every removal.\<close>

definition stuck_api :: "(location \<Rightarrow> blob option) storage_api" where
  "stuck_api = (mem_api True)\<lparr>api_remove := (\<lambda>s b k. (False, s))\<rparr>"

lemma mem_api_refuses [simp]: "refused (mem_api up) ls s = {}"
  by (induction ls arbitrary: s) (auto simp: mem_api_def)

lemma mem_api_laws: "storage_laws (mem_api up) (\<lambda>s. s)"
  by (auto simp: storage_laws_def mem_api_def split: if_splits)

lemma stuck_api_laws: "storage_laws stuck_api (\<lambda>s. s)"
  using mem_api_laws [of True] by (simp add: storage_laws_def stuck_api_def)

end
