(* ===== verification/Keys.thy ===== *)
theory Keys
  imports Storage
begin

text \<open>
  Object keys (\<open>storage/keys.py\<close>), the archive layout (\<open>controllers/export_archive.py\<close>)
  and the presign helpers with the \<open>Content-Disposition\<close> builder
  (\<open>storage/presign.py\<close>). Keys and header values are code point lists. Code points
  used: 45 \<open>-\<close>, 46 \<open>.\<close>, 47 slash, 92 backslash, 95 \<open>_\<close>, 34 double quote,
  37 percent, 39 apostrophe, 127 DEL.
\<close>

section \<open>Key segments\<close>

definition owner_prefix :: "uuid \<Rightarrow> uuid option \<Rightarrow> ustr" where
  "owner_prefix owner tenant =
     (case tenant of
        Some t \<Rightarrow> u ''tenants/'' @ uuid_str t @ u ''/users/'' @ uuid_str owner
      | None \<Rightarrow> u ''users/'' @ uuid_str owner)"

definition path_base :: "ustr \<Rightarrow> ustr" where
  \<comment> \<open>\<open>filename.strip().replace("\\", "/").split("/")[-1]\<close>\<close>
  "path_base filename = last_segment 47 (replace_ch 92 47 (strip filename))"

definition safe_filename :: "ustr \<Rightarrow> ustr" where
  "safe_filename filename =
     (let base = path_base filename
      in if base = [] \<or> base = [46] \<or> base = [46, 46] then u ''file'' else base)"

definition KEY_UNSAFE_CHARS :: "nat list" where
  "KEY_UNSAFE_CHARS = [59, 37, 63, 35]"   \<comment> \<open>semicolon, percent, question mark, hash\<close>

definition key_char :: "nat \<Rightarrow> nat" where
  "key_char ch = (if ch \<in> set KEY_UNSAFE_CHARS \<or> ch < 32 \<or> ch = 127 then 95 else ch)"

definition key_segment :: "ustr \<Rightarrow> ustr" where
  "key_segment filename = map key_char (safe_filename filename)"

definition slug_segment :: "unicode_db \<Rightarrow> ustr \<Rightarrow> ustr" where
  "slug_segment U s = replace_ch 32 95 (uc_lower U (strip s))"

definition build_object_key ::
  "unicode_db \<Rightarrow> uuid \<Rightarrow> uuid \<Rightarrow> ustr \<Rightarrow> ustr \<Rightarrow> uuid option \<Rightarrow> ustr" where
  "build_object_key U owner media category filename tenant =
     owner_prefix owner tenant @ 47 # slug_segment U category @ 47 # uuid_str media @
     47 # u ''original'' @ 47 # key_segment filename"

definition build_variant_key ::
  "unicode_db \<Rightarrow> uuid \<Rightarrow> uuid \<Rightarrow> ustr \<Rightarrow> ustr \<Rightarrow> ustr \<Rightarrow> uuid option \<Rightarrow> ustr" where
  "build_variant_key U owner media category variant_name filename tenant =
     owner_prefix owner tenant @ 47 # slug_segment U category @ 47 # uuid_str media @
     47 # u ''variants'' @ 47 # slug_segment U variant_name @ 47 # key_segment filename"

definition build_export_archive_key :: "uuid \<Rightarrow> uuid \<Rightarrow> uuid option \<Rightarrow> ustr" where
  "build_export_archive_key owner job tenant =
     owner_prefix owner tenant @ u ''/exports/'' @ uuid_str job @ u ''.zip''"

definition archive_entry_name :: "media_object \<Rightarrow> ustr" where
  "archive_entry_name obj =
     (let name = (case mo_original_filename obj of
                    Some n \<Rightarrow> (if n = [] then u ''file'' else n) | None \<Rightarrow> u ''file'')
      in u ''files'' @ 47 # uuid_str (mo_id obj) @ 47 # safe_filename name)"

section \<open>Content-Disposition\<close>

text \<open>UTF-8; surrogates do not encode (\<open>UnicodeEncodeError\<close>).\<close>

definition utf8_char :: "nat \<Rightarrow> nat list option" where
  "utf8_char c =
     (if c < 128 then Some [c]
      else if c < 2048 then Some [192 + c div 64, 128 + c mod 64]
      else if 55296 \<le> c \<and> c \<le> 57343 then None
      else if c < 65536 then Some [224 + c div 4096, 128 + c div 64 mod 64, 128 + c mod 64]
      else Some [240 + c div 262144, 128 + c div 4096 mod 64, 128 + c div 64 mod 64, 128 + c mod 64])"

fun utf8 :: "ustr \<Rightarrow> nat list option" where
  "utf8 [] = Some []"
| "utf8 (c # s) = (case utf8_char c of None \<Rightarrow> None
     | Some b \<Rightarrow> (case utf8 s of None \<Rightarrow> None | Some bs \<Rightarrow> Some (b @ bs)))"

definition unreserved :: "nat \<Rightarrow> bool" where   \<comment> \<open>letters, digits and \<open>_.-~\<close>\<close>
  "unreserved b \<longleftrightarrow> (48 \<le> b \<and> b \<le> 57) \<or> (65 \<le> b \<and> b \<le> 90) \<or> (97 \<le> b \<and> b \<le> 122) \<or>
     b = 95 \<or> b = 46 \<or> b = 45 \<or> b = 126"

definition hex_upper :: "nat \<Rightarrow> nat" where
  "hex_upper d = (if d < 10 then 48 + d else 55 + d)"

definition quote_byte :: "nat \<Rightarrow> nat list" where
  "quote_byte b = (if unreserved b then [b] else [37, hex_upper (b div 16), hex_upper (b mod 16)])"

definition url_quote :: "ustr \<Rightarrow> ustr option" where   \<comment> \<open>\<open>urllib.parse.quote(s, safe="")\<close>\<close>
  "url_quote s = map_option (\<lambda>bs. concat (map quote_byte bs)) (utf8 s)"

definition disposition_char :: "nat \<Rightarrow> nat" where   \<comment> \<open>\<open>_UNSAFE_DISPOSITION_CHARS.sub("_", _)\<close>\<close>
  "disposition_char c = (if c < 32 \<or> c = 127 \<or> c = 34 \<or> c = 92 then 95 else c)"

definition ascii_fallback :: "ustr \<Rightarrow> ustr" where
  "ascii_fallback base =
     (let a = filter (\<lambda>c. c < 128) (map disposition_char base)
      in if a = [] then u ''download'' else a)"

definition safe_content_disposition :: "ustr \<Rightarrow> ustr option" where
  "safe_content_disposition filename =
     (let base = path_base filename
      in case url_quote base of
           None \<Rightarrow> None
         | Some encoded \<Rightarrow> Some (u ''attachment; filename='' @ 34 # ascii_fallback base @ 34 #
             u ''; filename*=UTF-8'' @ 39 # 39 # encoded))"

definition create_upload_url ::
  "'s storage_api \<Rightarrow> string \<Rightarrow> ustr \<Rightarrow> string \<Rightarrow> int \<Rightarrow> int \<Rightarrow> (ustr \<times> (string \<times> ustr) list) option" where
  "create_upload_url api bucket object_key content_type max_size_bytes expires_seconds =
     api_presign_post api bucket object_key content_type max_size_bytes expires_seconds"

definition create_download_url ::
  "'s storage_api \<Rightarrow> string \<Rightarrow> ustr \<Rightarrow> int \<Rightarrow> ustr option \<Rightarrow> ustr result" where
  "create_download_url api bucket object_key expires_seconds filename =
     (case filename of
        None \<Rightarrow> Inr (api_presign_get api bucket object_key expires_seconds None)
      | Some f \<Rightarrow>
          if f = [] then Inr (api_presign_get api bucket object_key expires_seconds None)
          else (case safe_content_disposition f of
                  None \<Rightarrow> Inl (Raised ''UnicodeEncodeError'')
                | Some h \<Rightarrow> Inr (api_presign_get api bucket object_key expires_seconds (Some h))))"

section \<open>What a segment can contain\<close>

lemma safe_filename_no_slash: "47 \<notin> set (safe_filename f)"
proof -
  have "47 \<notin> set (path_base f)"
    unfolding path_base_def by (rule last_segment_no_sep)
  then show ?thesis by (auto simp: safe_filename_def Let_def u_def)
qed

lemma safe_filename_proper:
  "safe_filename f \<noteq> [] \<and> safe_filename f \<noteq> [46] \<and> safe_filename f \<noteq> [46, 46]"
  by (simp add: safe_filename_def Let_def u_def)

lemma key_char_safe:
  "key_char c \<notin> set KEY_UNSAFE_CHARS \<and> 32 \<le> key_char c \<and> key_char c \<noteq> 127"
  by (auto simp: key_char_def KEY_UNSAFE_CHARS_def)

lemma key_char_slash: "key_char c = 47 \<longleftrightarrow> c = 47"
  by (auto simp: key_char_def KEY_UNSAFE_CHARS_def)

lemma key_segment_no_slash: "47 \<notin> set (key_segment f)"
proof
  assume "47 \<in> set (key_segment f)"
  then obtain c where "c \<in> set (safe_filename f)" and "key_char c = 47"
    by (auto simp: key_segment_def)
  then show False using safe_filename_no_slash [of f] by (simp add: key_char_slash)
qed

text \<open>
  Every file name becomes a key segment the public route can carry: non-empty, one
  path component, no character the gateway refuses percent-encoded
  (semicolon, percent, question mark, hash) and no control character.
\<close>

theorem key_segment_routable:
  "key_segment f \<noteq> [] \<and> 47 \<notin> set (key_segment f) \<and>
   (\<forall>c \<in> set (key_segment f). c \<notin> set KEY_UNSAFE_CHARS \<and> 32 \<le> c \<and> c \<noteq> 127)"
  using safe_filename_proper [of f] key_segment_no_slash [of f]
  by (auto simp: key_segment_def key_char_safe)

theorem key_segment_routable_witness:
  "key_segment (u ''a/b;c%d'') = u ''b_c_d'' \<and> list_all (\<lambda>c. 32 \<le> c) (key_segment (u ''a/b;c%d''))"
proof -
  have "list_all (\<lambda>c. 32 \<le> c) (key_segment (u ''a/b;c%d''))"
    using key_segment_routable [of "u ''a/b;c%d''"] by (simp add: list_all_iff)
  moreover have "key_segment (u ''a/b;c%d'') = u ''b_c_d''"
    by (simp add: key_segment_def safe_filename_def path_base_def Let_def u_def strip_def is_space_def
        replace_ch_def last_segment_def key_char_def KEY_UNSAFE_CHARS_def)
  ultimately show ?thesis by blast
qed

section \<open>Keys determine the object\<close>

lemma split_on_at: "split_on c (a @ c # b) = split_on c a @ split_on c b"
proof (induction a)
  case (Cons x xs)
  obtain p ps where "split_on c xs = p # ps"
    by (cases "split_on c xs") auto
  with Cons show ?case by (auto split: list.splits)
qed simp

lemma split_object_key:
  "\<exists>pre. split_on 47 (build_object_key U owner media category filename tenant) =
     pre @ [uuid_str media, u ''original'', key_segment filename]"
proof -
  have "47 \<notin> set (u ''original'')" by (simp add: u_def)
  then show ?thesis
    using key_segment_no_slash [of filename] slash_notin_uuid_str [of media]
    by (simp add: build_object_key_def split_on_at split_on_single flip: append_assoc)
qed

lemma object_key_parts:
  "build_object_key U owner media category filename tenant =
   build_object_key U' owner' media' category' filename' tenant' \<Longrightarrow>
   media = media' \<and> key_segment filename = key_segment filename'"
proof -
  assume eq: "build_object_key U owner media category filename tenant =
     build_object_key U' owner' media' category' filename' tenant'"
  obtain p where p: "split_on 47 (build_object_key U owner media category filename tenant) =
     p @ [uuid_str media, u ''original'', key_segment filename]"
    using split_object_key by blast
  obtain q where q: "split_on 47 (build_object_key U' owner' media' category' filename' tenant') =
     q @ [uuid_str media', u ''original'', key_segment filename']"
    using split_object_key by blast
  from p q eq have "uuid_str media = uuid_str media' \<and> key_segment filename = key_segment filename'"
    by simp
  then show ?thesis using uuid_str_inj by blast
qed

text \<open>
  C38. Object keys never collide: two originals stored under the same key belong to the
  same media id and carry the same file segment, whatever owners, tenants, categories
  and file names they were built from.
\<close>

theorem object_key_injective:
  "build_object_key U owner media category filename tenant =
   build_object_key U' owner' media' category' filename' tenant' \<Longrightarrow>
   media = media' \<and> key_segment filename = key_segment filename'"
  by (rule object_key_parts)

theorem object_key_injective_witness:
  "(5 :: uuid) = 5 \<and>
   key_segment (u ''x/a?b'') = key_segment (u ''a#b'')"
proof -
  have "build_object_key \<lparr>uc_nfc = id, uc_other = (\<lambda>c. c < 32), uc_lower = id\<rparr> 1 5 (u ''avatar'') (u ''x/a?b'') None =
        build_object_key \<lparr>uc_nfc = id, uc_other = (\<lambda>c. c < 32), uc_lower = id\<rparr> 1 5 (u ''avatar'') (u ''a#b'') None"
    by (simp add: build_object_key_def key_segment_def safe_filename_def path_base_def Let_def u_def
        strip_def is_space_def replace_ch_def last_segment_def key_char_def KEY_UNSAFE_CHARS_def)
  from object_key_injective [OF this] show ?thesis .
qed

lemma archive_entry_parts:
  "split_on 47 (archive_entry_name obj) =
     [u ''files'', uuid_str (mo_id obj),
      safe_filename (case mo_original_filename obj of
        Some n \<Rightarrow> (if n = [] then u ''file'' else n) | None \<Rightarrow> u ''file'')]"
proof -
  have "47 \<notin> set (u ''files'')" by (simp add: u_def)
  then show ?thesis
    by (simp add: archive_entry_name_def Let_def split_on_append split_on_single
        slash_notin_uuid_str safe_filename_no_slash)
qed

section \<open>Header injection\<close>

lemma hex_upper_range: "d < 16 \<Longrightarrow> unreserved (hex_upper d)"
  unfolding hex_upper_def unreserved_def by auto

lemma utf8_char_byte: "c < 1114112 \<Longrightarrow> utf8_char c = Some bs \<Longrightarrow> b \<in> set bs \<Longrightarrow> b < 256"
proof -
  assume c: "c < 1114112" and e: "utf8_char c = Some bs" and b: "b \<in> set bs"
  have "c div 262144 \<le> 4" "c mod 64 < 64" "c div 64 mod 64 < 64" "c div 4096 mod 64 < 64"
    using c by auto
  moreover have "c < 2048 \<Longrightarrow> c div 64 < 32" and "c < 65536 \<Longrightarrow> c div 4096 < 16" by auto
  ultimately show ?thesis
    using e b by (auto simp: utf8_char_def split: if_splits)
qed

lemma utf8_byte:
  "utf8 s = Some bs \<Longrightarrow> (\<And>c. c \<in> set s \<Longrightarrow> c < 1114112) \<Longrightarrow> b \<in> set bs \<Longrightarrow> b < 256"
proof (induction s arbitrary: bs)
  case (Cons c s)
  then have c: "c < 1114112" by simp
  from Cons show ?case
    by (auto split: option.splits dest: utf8_char_byte [OF c])
qed simp

lemma quote_byte_safe: "b < 256 \<Longrightarrow> c \<in> set (quote_byte b) \<Longrightarrow> unreserved c \<or> c = 37"
  by (auto simp: quote_byte_def hex_upper_range split: if_splits)

lemma unreserved_printable: "unreserved c \<or> c = 37 \<Longrightarrow> 32 < c \<and> c < 127 \<and> c \<noteq> 34 \<and> c \<noteq> 92"
  by (auto simp: unreserved_def)

lemma url_quote_safe:
  assumes "url_quote s = Some q" and "\<And>c. c \<in> set s \<Longrightarrow> c < 1114112" and "c \<in> set q"
  shows "32 < c \<and> c < 127 \<and> c \<noteq> 34 \<and> c \<noteq> 92"
proof -
  from assms(1) obtain bs where bs: "utf8 s = Some bs" and q: "q = concat (map quote_byte bs)"
    by (auto simp: url_quote_def)
  from assms(3) q obtain b where "b \<in> set bs" and "c \<in> set (quote_byte b)" by auto
  with utf8_byte [OF bs assms(2)] show ?thesis
    using quote_byte_safe unreserved_printable by blast
qed

lemma ascii_fallback_safe:
  "c \<in> set (ascii_fallback base) \<Longrightarrow> 32 \<le> c \<and> c < 127 \<and> c \<noteq> 34 \<and> c \<noteq> 92"
  by (auto simp: ascii_fallback_def Let_def disposition_char_def u_def split: if_splits)

lemma count_list_zero: "c \<notin> set xs \<Longrightarrow> count_list xs c = 0"
  by (induction xs) auto

text \<open>
  C39. No file name can break out of the \<open>Content-Disposition\<close> header: whenever the
  builder returns a value for a string of Unicode code points, it is printable ASCII
  (so no CR/LF smuggles a header), has no backslash, and its only two double quotes are
  the delimiters of the fallback.
\<close>

theorem content_disposition_injection_safe:
  assumes "safe_content_disposition f = Some h" and "\<forall>c \<in> set f. c < 1114112"
  shows "(\<forall>c \<in> set h. 32 \<le> c \<and> c < 127 \<and> c \<noteq> 92) \<and> count_list h 34 = 2"
proof -
  from assms(1) obtain q where q: "url_quote (path_base f) = Some q"
    and h: "h = u ''attachment; filename='' @ 34 # ascii_fallback (path_base f) @ 34 #
             u ''; filename*=UTF-8'' @ 39 # 39 # q"
    by (auto simp: safe_content_disposition_def Let_def split: option.splits)
  have "set (path_base f) \<subseteq> insert 47 (set f)"
    using set_last_segment [of 47 "replace_ch 92 47 (strip f)"] set_strip [of f]
    by (auto simp: path_base_def replace_ch_def)
  with assms(2) have "\<And>c. c \<in> set (path_base f) \<Longrightarrow> c < 1114112" by auto
  note qs = url_quote_safe [OF q this] and as = ascii_fallback_safe [of _ "path_base f"]
  have "34 \<notin> set q" and "34 \<notin> set (ascii_fallback (path_base f))" using qs as by blast+
  then have "count_list h 34 = 2" by (simp add: h u_def count_list_zero)
  moreover have "\<forall>c \<in> set h. 32 \<le> c \<and> c < 127 \<and> c \<noteq> 92"
    using qs as by (auto simp: h u_def less_imp_le)
  ultimately show ?thesis by blast
qed

theorem content_disposition_injection_safe_witness:
  "\<exists>h. safe_content_disposition (97 # 34 # 13 # 10 # u ''X-Evil: 1'') = Some h \<and> count_list h 34 = 2"
proof -
  have e: "\<exists>h. safe_content_disposition (97 # 34 # 13 # 10 # u ''X-Evil: 1'') = Some h"
    by (simp add: safe_content_disposition_def path_base_def Let_def u_def strip_def is_space_def
        replace_ch_def last_segment_def url_quote_def utf8_char_def)
  then obtain h where h: "safe_content_disposition (97 # 34 # 13 # 10 # u ''X-Evil: 1'') = Some h"
    by blast
  have "\<forall>c \<in> set (97 # 34 # 13 # 10 # u ''X-Evil: 1''). c < (1114112 :: nat)" by (simp add: u_def)
  from content_disposition_injection_safe [OF h this] h show ?thesis by blast
qed

end
