(* ===== verification/Validation.thy ===== *)
theory Validation
  imports Keys
begin

text \<open>
  \<open>core/validation.py\<close> and \<open>core/media_types.py\<close>: the upload gates. The magic-byte
  sniffer is the third-party \<open>filetype\<close> package (a parameter where it is used); SHA-256
  is a parameter \<open>sha256_hex\<close> over the whole byte string, which is what \<open>hashlib\<close>
  documents incremental updates to compute. The file-name policy is parametric in the
  Unicode database.
\<close>

section \<open>Declared and sniffed MIME types\<close>

definition UNSNIFFABLE_DECLARED :: "string list" where
  "UNSNIFFABLE_DECLARED = [''text/plain'', ''text/csv'', ''application/json'']"

definition ALLOWED_DECLARED_MIME :: "string list" where
  "ALLOWED_DECLARED_MIME = [
     ''image/jpeg'', ''image/png'', ''image/gif'', ''image/webp'', ''image/bmp'', ''image/tiff'',
     ''image/heic'', ''image/avif'', ''video/mp4'', ''video/webm'', ''video/quicktime'',
     ''audio/mpeg'', ''audio/ogg'', ''audio/wav'', ''audio/flac'',
     ''application/pdf'', ''application/zip'', ''text/plain'', ''text/csv'', ''application/json'']"

definition MEDIA_MAJORS :: "string list" where
  "MEDIA_MAJORS = [''image'', ''video'', ''audio'']"

definition is_allowed_declared_mime :: "string \<Rightarrow> bool" where
  "is_allowed_declared_mime declared \<longleftrightarrow> declared \<in> set ALLOWED_DECLARED_MIME"

definition mime_consistent :: "string \<Rightarrow> string option \<Rightarrow> bool" where
  "mime_consistent declared sniffed =
     (if declared \<notin> set ALLOWED_DECLARED_MIME then False
      else case sniffed of
        None \<Rightarrow> declared \<in> set UNSNIFFABLE_DECLARED
      | Some s \<Rightarrow>
          if declared = s then True
          else (let declared_major = hd (split_on (CHR ''/'') declared);
                    sniffed_major = hd (split_on (CHR ''/'') s)
                in declared_major = sniffed_major \<and> declared_major \<in> set MEDIA_MAJORS))"

definition PROCESSABLE_IMAGE_MIMES :: "string list" where
  "PROCESSABLE_IMAGE_MIMES = [''image/jpeg'', ''image/png'', ''image/gif'', ''image/webp'',
     ''image/bmp'', ''image/tiff'', ''image/heic'', ''image/avif'']"

definition is_processable_image :: "string \<Rightarrow> bool" where
  "is_processable_image mime \<longleftrightarrow> mime \<in> set PROCESSABLE_IMAGE_MIMES"

text \<open>
  \<open>verify_sha256_stream\<close>: the expected digest is compared after \<open>lower()\<close>; a
  hexadecimal digest is ASCII, so lowering ASCII letters decides the comparison.
\<close>

definition ascii_lower :: "char \<Rightarrow> char" where
  "ascii_lower c = (let n = (of_char c :: nat) in if 65 \<le> n \<and> n \<le> 90 then char_of (n + 32) else c)"

definition verify_sha256_stream :: "(blob \<Rightarrow> string) \<Rightarrow> blob list \<Rightarrow> string \<Rightarrow> bool" where
  "verify_sha256_stream sha256_hex chunks expected \<longleftrightarrow>
     sha256_hex (concat chunks) = map ascii_lower expected"

definition max_size_for_category :: "settings \<Rightarrow> string \<Rightarrow> int" where
  "max_size_for_category cfg category =
     (case map_of (MEDIA_MAX_UPLOAD_SIZE_BYTES_PER_CATEGORY cfg) category of
        Some n \<Rightarrow> n | None \<Rightarrow> MEDIA_MAX_UPLOAD_SIZE_BYTES cfg)"

section \<open>File names\<close>

definition MAX_FILENAME_LENGTH :: nat where
  "MAX_FILENAME_LENGTH = 255"

text \<open>Slash, backslash, less, greater, colon, double quote, bar, question mark, asterisk.\<close>

definition FORBIDDEN_FILENAME_CHARS :: "nat list" where
  "FORBIDDEN_FILENAME_CHARS = [47, 92, 60, 62, 58, 34, 124, 63, 42]"

definition FALLBACK_FILENAME :: ustr where
  "FALLBACK_FILENAME = u ''file''"

datatype filename_error = FN_EMPTY_OR_DOTS | FN_TOO_LONG | FN_FORBIDDEN "nat list"

definition is_forbidden_filename_char :: "unicode_db \<Rightarrow> nat \<Rightarrow> bool" where
  "is_forbidden_filename_char U ch \<longleftrightarrow> ch \<in> set FORBIDDEN_FILENAME_CHARS \<or> uc_other U ch"

definition only_dots :: "ustr \<Rightarrow> bool" where
  "only_dots name \<longleftrightarrow> (\<forall>c \<in> set name. c = 46)"

definition validate_filename :: "unicode_db \<Rightarrow> ustr \<Rightarrow> filename_error + ustr" where
  "validate_filename U value =
     (let name = strip (uc_nfc U value)
      in if name = [] \<or> only_dots name then Inl FN_EMPTY_OR_DOTS
         else if length name > MAX_FILENAME_LENGTH then Inl FN_TOO_LONG
         else let bad = sort (remdups (filter (is_forbidden_filename_char U) name))
              in if bad \<noteq> [] then Inl (FN_FORBIDDEN bad) else Inr name)"

definition mask_char :: "unicode_db \<Rightarrow> nat \<Rightarrow> nat" where
  "mask_char U ch = (if is_forbidden_filename_char U ch then 95 else ch)"

definition sanitize_filename :: "unicode_db \<Rightarrow> ustr option \<Rightarrow> ustr" where
  "sanitize_filename U value =
     (let name0 = strip (uc_nfc U (case value of None \<Rightarrow> [] | Some v \<Rightarrow> v));
          name1 = last_segment 47 (replace_ch 92 47 name0);
          name2 = map (mask_char U) name1;
          name3 = strip (take MAX_FILENAME_LENGTH (strip name2))
      in if name3 = [] \<or> only_dots name3 then FALLBACK_FILENAME else name3)"

text \<open>
  What the policy relies on of the Unicode database, as Unicode Standard Annex 15 and
  the character database document it: normalization is idempotent, NFC text is closed
  under taking substrings and under overwriting a character by the low line
  (a starter that takes part in no composition), ASCII letters are their own
  normal form, and the low line and ASCII letters are not of category C.
\<close>

definition unicode_laws :: "unicode_db \<Rightarrow> bool" where
  "unicode_laws U \<longleftrightarrow>
     (\<forall>s. uc_nfc U (uc_nfc U s) = uc_nfc U s) \<and>
     (\<forall>p q r. uc_nfc U (p @ q @ r) = p @ q @ r \<longrightarrow> uc_nfc U q = q) \<and>
     (\<forall>p c r. uc_nfc U (p @ c # r) = p @ c # r \<longrightarrow> uc_nfc U (p @ 95 # r) = p @ 95 # r) \<and>
     uc_nfc U FALLBACK_FILENAME = FALLBACK_FILENAME \<and>
     \<not> uc_other U 95 \<and> (\<forall>c \<in> set FALLBACK_FILENAME. \<not> uc_other U c)"

definition ascii_unicode :: unicode_db where   \<comment> \<open>the database restricted to ASCII text\<close>
  "ascii_unicode = \<lparr>uc_nfc = id, uc_other = (\<lambda>c. c < 32 \<or> c = 127), uc_lower = id\<rparr>"

lemma ascii_unicode_laws: "unicode_laws ascii_unicode"
  by (simp add: unicode_laws_def ascii_unicode_def FALLBACK_FILENAME_def u_def)

definition nfc :: "unicode_db \<Rightarrow> ustr \<Rightarrow> bool" where
  "nfc U s \<longleftrightarrow> uc_nfc U s = s"

lemma nfc_substring: "unicode_laws U \<Longrightarrow> nfc U (p @ q @ r) \<Longrightarrow> nfc U q"
  unfolding unicode_laws_def nfc_def by blast

lemma nfc_normalize: "unicode_laws U \<Longrightarrow> nfc U (uc_nfc U s)"
  unfolding unicode_laws_def nfc_def by blast

lemma nfc_low_line: "unicode_laws U \<Longrightarrow> nfc U (p @ c # r) \<Longrightarrow> nfc U (p @ 95 # r)"
  unfolding unicode_laws_def nfc_def by blast

lemma nfc_fallback: "unicode_laws U \<Longrightarrow> nfc U FALLBACK_FILENAME"
  unfolding unicode_laws_def nfc_def by (elim conjE)

lemma fallback_not_other: "unicode_laws U \<Longrightarrow> \<forall>c \<in> set FALLBACK_FILENAME. \<not> uc_other U c"
  unfolding unicode_laws_def by (elim conjE)

lemma low_line_not_other: "unicode_laws U \<Longrightarrow> \<not> uc_other U 95"
  unfolding unicode_laws_def by (elim conjE)

lemma nfc_take: "unicode_laws U \<Longrightarrow> nfc U s \<Longrightarrow> nfc U (take n s)"
  using nfc_substring [of U "[]" "take n s" "drop n s"] by simp

lemma nfc_dropWhile: "unicode_laws U \<Longrightarrow> nfc U s \<Longrightarrow> nfc U (dropWhile P s)"
  using nfc_substring [of U "takeWhile P s" "dropWhile P s" "[]"] by simp

lemma nfc_strip:
  assumes "unicode_laws U" and "nfc U s" shows "nfc U (strip s)"
proof -
  let ?d = "dropWhile is_space s"
  have "rev (takeWhile is_space (rev ?d) @ dropWhile is_space (rev ?d)) = ?d"
    by (simp only: takeWhile_dropWhile_id rev_rev_ident)
  then have "[] @ strip s @ rev (takeWhile is_space (rev ?d)) = ?d"
    unfolding strip_def by (simp only: rev_append append_Nil)
  with nfc_dropWhile [OF assms, of is_space] show ?thesis
    by (metis nfc_substring [OF assms(1)])
qed

lemma nfc_mask_prefix:
  assumes "unicode_laws U"
  shows "nfc U (p @ s) \<Longrightarrow> nfc U (p @ map (mask_char U) s)"
proof (induction s arbitrary: p)
  case (Cons c s)
  have "nfc U (p @ mask_char U c # s)"
    using Cons.prems nfc_low_line [OF assms] by (cases "is_forbidden_filename_char U c") (simp_all add: mask_char_def)
  then have "nfc U ((p @ [mask_char U c]) @ s)" by simp
  then have "nfc U ((p @ [mask_char U c]) @ map (mask_char U) s)" by (rule Cons.IH)
  then show ?case by simp
qed simp

lemma nfc_mask: "unicode_laws U \<Longrightarrow> nfc U s \<Longrightarrow> nfc U (map (mask_char U) s)"
  using nfc_mask_prefix [of U "[]"] by simp

text \<open>
  Only the last segment of the separator-normalised name is kept, and it is a substring
  of the name itself: it holds no separator of either kind.
\<close>

lemma last_segment_suffix: "\<exists>p. s = p @ last_segment c s"
proof (induction s)
  case (Cons x s)
  then obtain p where p: "s = p @ last_segment c s" by blast
  show ?case
  proof (cases "x = c")
    case True
    then show ?thesis using p by (auto simp: last_segment_def intro: exI [of _ "x # p"])
  next
    case False
    obtain q qs where "split_on c s = q # qs" using split_on_ne [of c s] by (meson neq_Nil_conv)
    show ?thesis
    proof (cases "qs = []")
      case True
      with \<open>split_on c s = q # qs\<close> have "s = q" using join_split [of c s] by simp
      with True False \<open>split_on c s = q # qs\<close> show ?thesis by (simp add: last_segment_def)
    next
      case ne: False
      then have "last_segment c (x # s) = last_segment c s"
        using False \<open>split_on c s = q # qs\<close> by (simp add: last_segment_def)
      with p show ?thesis by (metis append_Cons)
    qed
  qed
qed (simp add: last_segment_def)

lemma replace_ch_id: "a \<notin> set s \<Longrightarrow> replace_ch a b s = s"
  by (induction s) (auto simp: replace_ch_def)

lemma map_suffix: "map f s = p @ q \<Longrightarrow> \<exists>p' q'. s = p' @ q' \<and> map f q' = q"
  by (auto simp: map_eq_append_conv)

lemma last_segment_replace_suffix:
  "\<exists>p. s = p @ last_segment 47 (replace_ch 92 47 s)"
proof -
  define q where "q = last_segment 47 (replace_ch 92 47 s)"
  obtain p where "replace_ch 92 47 s = p @ q"
    using last_segment_suffix [of "replace_ch 92 47 s" 47] unfolding q_def by (elim exE)
  then have "\<exists>p' q'. s = p' @ q' \<and> replace_ch 92 47 q' = q"
    unfolding replace_ch_def by (rule map_suffix)
  then obtain p' q' where s: "s = p' @ q'" and q: "replace_ch 92 47 q' = q" by (elim exE conjE)
  have "47 \<notin> set q" unfolding q_def by (rule last_segment_no_sep)
  then have "92 \<notin> set q'" unfolding q [symmetric] by (auto simp: replace_ch_def image_iff)
  then have "q' = q" unfolding q [symmetric] by (simp add: replace_ch_id)
  with s have "s = p' @ q" by simp
  then show ?thesis unfolding q_def by (rule exI)
qed

lemma forbidden_low_line: "unicode_laws U \<Longrightarrow> \<not> is_forbidden_filename_char U 95"
  by (simp add: low_line_not_other is_forbidden_filename_char_def FORBIDDEN_FILENAME_CHARS_def)

lemma mask_char_ok: "unicode_laws U \<Longrightarrow> \<not> is_forbidden_filename_char U (mask_char U c)"
  by (simp add: mask_char_def forbidden_low_line)

lemma validate_filename_intro:
  assumes "nfc U s" and "strip s = s" and "s \<noteq> []" and "\<not> only_dots s"
    and "length s \<le> MAX_FILENAME_LENGTH" and "\<And>c. c \<in> set s \<Longrightarrow> \<not> is_forbidden_filename_char U c"
  shows "validate_filename U s = Inr s"
proof -
  have "filter (is_forbidden_filename_char U) s = []"
    using assms(6) by (simp add: filter_empty_conv)
  with assms show ?thesis
    by (simp add: validate_filename_def nfc_def Let_def)
qed

text \<open>
  Sanitising always lands inside the policy: whatever a manifest row carries (or
  carries nothing), \<open>sanitize_filename\<close> returns a name \<open>validate_filename\<close> accepts
  unchanged.
\<close>

theorem sanitized_filename_validates:
  assumes U: "unicode_laws U"
  shows "validate_filename U (sanitize_filename U value) = Inr (sanitize_filename U value)"
proof -
  define name0 where "name0 = strip (uc_nfc U (case value of None \<Rightarrow> [] | Some v \<Rightarrow> v))"
  define name1 where "name1 = last_segment 47 (replace_ch 92 47 name0)"
  define name2 where "name2 = map (mask_char U) name1"
  define name3 where "name3 = strip (take MAX_FILENAME_LENGTH (strip name2))"
  have "nfc U name0" unfolding name0_def by (intro nfc_strip nfc_normalize U)
  moreover obtain p where "name0 = p @ name1"
    unfolding name1_def using last_segment_replace_suffix [of name0] by (elim exE)
  ultimately have "nfc U name1" using nfc_substring [OF U, of p name1 "[]"] by simp
  then have n3: "nfc U name3"
    unfolding name3_def name2_def by (intro nfc_strip nfc_take nfc_mask U)
  have ok: "\<not> is_forbidden_filename_char U c" if "c \<in> set name3" for c
  proof -
    from that have "c \<in> set name2"
      unfolding name3_def
      using set_strip [of "take MAX_FILENAME_LENGTH (strip name2)"] set_strip [of name2]
      by (auto dest: in_set_takeD)
    then obtain x where "c = mask_char U x" unfolding name2_def by auto
    then show ?thesis by (simp add: mask_char_ok [OF U])
  qed
  have "length name3 \<le> MAX_FILENAME_LENGTH"
    unfolding name3_def using length_strip [of "take MAX_FILENAME_LENGTH (strip name2)"] by simp
  moreover have "strip name3 = name3" by (simp add: name3_def)
  ultimately have main: "name3 \<noteq> [] \<Longrightarrow> \<not> only_dots name3 \<Longrightarrow> validate_filename U name3 = Inr name3"
    using n3 ok by (intro validate_filename_intro)
  have fb: "validate_filename U FALLBACK_FILENAME = Inr FALLBACK_FILENAME"
  proof (rule validate_filename_intro)
    show "nfc U FALLBACK_FILENAME" by (rule nfc_fallback [OF U])
    show "\<not> is_forbidden_filename_char U c" if "c \<in> set FALLBACK_FILENAME" for c
      using fallback_not_other [OF U] that unfolding is_forbidden_filename_char_def
      by (auto simp: FORBIDDEN_FILENAME_CHARS_def FALLBACK_FILENAME_def u_def)
  qed (simp_all add: FALLBACK_FILENAME_def u_def strip_def is_space_def only_dots_def MAX_FILENAME_LENGTH_def)
  have "sanitize_filename U value =
      (if name3 = [] \<or> only_dots name3 then FALLBACK_FILENAME else name3)"
    by (simp add: sanitize_filename_def Let_def name0_def name1_def name2_def name3_def)
  with main fb show ?thesis by simp
qed

theorem sanitized_filename_validates_witness:
  "validate_filename ascii_unicode (sanitize_filename ascii_unicode (Some (u ''../a:b '')))
     = Inr (sanitize_filename ascii_unicode (Some (u ''../a:b '')))"
  by (rule sanitized_filename_validates [OF ascii_unicode_laws])

text \<open>Everything a validated name is known to satisfy.\<close>

lemma validate_filename_Inr:
  assumes "validate_filename U value = Inr name"
  shows "name = strip (uc_nfc U value)" and "name \<noteq> []" and "\<not> only_dots name"
    and "length name \<le> MAX_FILENAME_LENGTH"
    and "c \<in> set name \<Longrightarrow> c \<notin> set FORBIDDEN_FILENAME_CHARS \<and> \<not> uc_other U c"
proof -
  have n: "name = strip (uc_nfc U value)" and rest: "name \<noteq> []" "\<not> only_dots name"
    "\<not> length name > MAX_FILENAME_LENGTH"
    "sort (remdups (filter (is_forbidden_filename_char U) name)) = []"
    using assms by (auto simp: validate_filename_def Let_def split: if_splits)
  then have "filter (is_forbidden_filename_char U) name = []"
    by (metis set_sort set_remdups set_empty)
  then show "c \<in> set name \<Longrightarrow> c \<notin> set FORBIDDEN_FILENAME_CHARS \<and> \<not> uc_other U c"
    by (auto simp: filter_empty_conv is_forbidden_filename_char_def)
  from n rest show "name = strip (uc_nfc U value)" "name \<noteq> []" "\<not> only_dots name"
    "length name \<le> MAX_FILENAME_LENGTH" by simp_all
qed

text \<open>
  C32. A validated name is safe in every sink unchanged: the key builder and the archive
  writer keep it as one whole path component, it fits the column, and it carries no
  forbidden or category-C character.
\<close>

theorem validated_filename_sink_safe:
  assumes "validate_filename U value = Inr name"
  shows "safe_filename name = name \<and> length name \<le> 255 \<and>
    (\<forall>c \<in> set name. c \<notin> set FORBIDDEN_FILENAME_CHARS \<and> \<not> uc_other U c) \<and>
    (\<forall>obj. mo_original_filename obj = Some name \<longrightarrow>
       split_on 47 (archive_entry_name obj) = [u ''files'', uuid_str (mo_id obj), name])"
proof -
  note v = validate_filename_Inr [OF assms]
  have "strip name = name" by (simp add: v(1))
  moreover from v(5) have "47 \<notin> set name" "92 \<notin> set name"
    by (auto simp: FORBIDDEN_FILENAME_CHARS_def)
  ultimately have "path_base name = name"
    by (simp add: path_base_def replace_ch_id last_segment_id)
  moreover have "name \<noteq> [46]" "name \<noteq> [46, 46]" using v(3) by (auto simp: only_dots_def)
  ultimately have s: "safe_filename name = name" using v(2) by (simp add: safe_filename_def Let_def)
  then show ?thesis
    using v(2,4,5) by (auto simp: archive_entry_parts MAX_FILENAME_LENGTH_def)
qed

theorem validated_filename_sink_safe_witness:
  "safe_filename (u ''a b.png'') = u ''a b.png''"
proof -
  have "validate_filename ascii_unicode (u '' a b.png'') = Inr (u ''a b.png'')"
    by (simp add: validate_filename_def ascii_unicode_def u_def strip_def is_space_def Let_def
        only_dots_def MAX_FILENAME_LENGTH_def is_forbidden_filename_char_def FORBIDDEN_FILENAME_CHARS_def)
  from validated_filename_sink_safe [OF this] show ?thesis by blast
qed

end
