(* ===== verification/Presets.thy ===== *)
theory Presets
  imports Keys
begin

text \<open>
  Image presets: the recipe bounds (\<open>schemas/presets.py\<close>), the built-in catalog and the
  resolver that expands a request into worker units (\<open>core/presets.py\<close>), and the
  catalog's CRUD (\<open>controllers/presets.py\<close>). A Python \<open>dict\<close> of presets is an
  association list in insertion order; \<open>tbl_put fst\<close> is item assignment, which keeps the
  position of an existing key.
\<close>

section \<open>Recipe bounds\<close>

definition MAX_PRESET_DIMENSION :: int where "MAX_PRESET_DIMENSION = 8192"
definition MAX_PRESET_PIXEL_AREA :: int where "MAX_PRESET_PIXEL_AREA = 33554432"
definition MAX_PRESET_MAX_BYTE_SIZE :: int where "MAX_PRESET_MAX_BYTE_SIZE = 26214400"
definition MAX_FORMATS_PER_PRESET :: nat where "MAX_FORMATS_PER_PRESET = 5"
definition MAX_PRESETS_PER_REQUEST :: nat where "MAX_PRESETS_PER_REQUEST = 16"
definition MAX_OUTPUTS_PER_JOB :: nat where "MAX_OUTPUTS_PER_JOB = 32"
definition MAX_JOB_PIXEL_AREA :: int where "MAX_JOB_PIXEL_AREA = 268435456"

lemmas preset_bounds = MAX_PRESET_DIMENSION_def MAX_PRESET_PIXEL_AREA_def
  MAX_PRESET_MAX_BYTE_SIZE_def MAX_FORMATS_PER_PRESET_def MAX_PRESETS_PER_REQUEST_def
  MAX_OUTPUTS_PER_JOB_def MAX_JOB_PIXEL_AREA_def

definition opt_ge :: "int \<Rightarrow> int option \<Rightarrow> bool" where   \<comment> \<open>\<open>Field(default=None, ge=lo)\<close>\<close>
  "opt_ge lo x \<longleftrightarrow> (case x of None \<Rightarrow> True | Some n \<Rightarrow> lo \<le> n)"

text \<open>The declared field bounds of \<open>FormatSpec\<close>, \<open>ImageSizeSpec\<close> and \<open>PresetSpec\<close>.\<close>

definition format_spec_fields :: "format_spec \<Rightarrow> bool" where
  "format_spec_fields f \<longleftrightarrow> 1 \<le> fs_quality f \<and> fs_quality f \<le> 100"

definition image_size_fields :: "image_size_spec \<Rightarrow> bool" where
  "image_size_fields z \<longleftrightarrow>
     opt_ge 1 (sz_fixed_width z) \<and> opt_ge 1 (sz_fixed_height z) \<and> opt_ge 1 (sz_fixed_size z)"

definition preset_spec_fields :: "preset_spec \<Rightarrow> bool" where
  "preset_spec_fields s \<longleftrightarrow>
     image_size_fields (ps_image_size s) \<and> (\<forall>f \<in> set (ps_formats s). format_spec_fields f) \<and>
     1 \<le> length (ps_formats s) \<and> length (ps_formats s) \<le> MAX_FORMATS_PER_PRESET \<and>
     opt_ge 1 (ps_max_byte_size s)"

definition check_dimensions :: "preset_spec \<Rightarrow> bool" where
  "check_dimensions s \<longleftrightarrow>
     (\<forall>v \<in> set [sz_fixed_width (ps_image_size s), sz_fixed_height (ps_image_size s),
                 sz_fixed_size (ps_image_size s)].
        case v of None \<Rightarrow> True | Some n \<Rightarrow> \<not> n > MAX_PRESET_DIMENSION)"

definition check_pixel_area :: "preset_spec \<Rightarrow> bool" where
  "check_pixel_area s \<longleftrightarrow>
     (case (sz_fixed_width (ps_image_size s), sz_fixed_height (ps_image_size s)) of
        (Some w, Some h) \<Rightarrow> \<not> w * h > MAX_PRESET_PIXEL_AREA
      | _ \<Rightarrow> True)"

definition check_byte_size :: "preset_spec \<Rightarrow> bool" where
  "check_byte_size s \<longleftrightarrow>
     (case ps_max_byte_size s of None \<Rightarrow> True | Some n \<Rightarrow> \<not> n > MAX_PRESET_MAX_BYTE_SIZE)"

definition check_unique_formats :: "preset_spec \<Rightarrow> bool" where
  "check_unique_formats s \<longleftrightarrow>
     card (set (map fs_ext (ps_formats s))) = length (map fs_ext (ps_formats s))"

text \<open>\<open>PresetSpec.model_validate\<close>: the spec itself, or the \<open>ValidationError\<close>.\<close>

definition model_validate_spec :: "preset_spec \<Rightarrow> preset_spec result" where
  "model_validate_spec s =
     (if preset_spec_fields s \<and> check_dimensions s \<and> check_pixel_area s \<and> check_byte_size s \<and>
         check_unique_formats s
      then Inr s else Inl (Raised ''ValidationError''))"

section \<open>The catalog\<close>

fun format_value :: "image_format \<Rightarrow> string" where
  "format_value FMT_WEBP = ''WEBP''"
| "format_value FMT_JPEG = ''JPEG''"
| "format_value FMT_PNG = ''PNG''"
| "format_value FMT_GIF = ''GIF''"
| "format_value FMT_AVIF = ''AVIF''"

fun format_ext :: "image_format \<Rightarrow> string" where   \<comment> \<open>\<open>fmt.ext.lower()\<close>\<close>
  "format_ext FMT_WEBP = ''webp''"
| "format_ext FMT_JPEG = ''jpeg''"
| "format_ext FMT_PNG = ''png''"
| "format_ext FMT_GIF = ''gif''"
| "format_ext FMT_AVIF = ''avif''"

type_synonym preset_dict = "(ustr \<times> preset_spec) list"

definition webp :: "int option \<Rightarrow> int option \<Rightarrow> preset_spec" where
  "webp width height = \<lparr>
     ps_image_size = \<lparr>sz_fixed_width = width, sz_fixed_height = height, sz_fixed_size = None\<rparr>,
     ps_formats = [\<lparr>fs_ext = FMT_WEBP, fs_quality = 80\<rparr>],
     ps_allow_upscale = False, ps_max_byte_size = None\<rparr>"

definition BUILTIN_PRESETS :: preset_dict where
  "BUILTIN_PRESETS = [(u ''thumb'', webp (Some 150) None), (u ''small'', webp (Some 320) None),
     (u ''medium'', webp (Some 800) None), (u ''large'', webp (Some 1600) None)]"

definition in_preset_scope :: "uuid \<Rightarrow> uuid option \<Rightarrow> image_preset \<Rightarrow> bool" where
  "in_preset_scope owner tenant r \<longleftrightarrow>
     ip_owner_user_id r = owner \<and>
     (case tenant of None \<Rightarrow> ip_tenant_id r = None | Some t \<Rightarrow> ip_tenant_id r = Some t)"

fun specs_of_rows :: "image_preset list \<Rightarrow> preset_dict result" where
  "specs_of_rows [] = Inr []"
| "specs_of_rows (r # rs) =
     (case model_validate_spec (ip_spec r) of
        Inl e \<Rightarrow> Inl e
      | Inr s \<Rightarrow> (case specs_of_rows rs of Inl e \<Rightarrow> Inl e | Inr d \<Rightarrow> Inr ((ip_name r, s) # d)))"

definition dict_of :: "('k \<times> 'v) list \<Rightarrow> ('k \<times> 'v) list" where
  "dict_of kvs = fold (\<lambda>kv d. tbl_put fst d kv) kvs []"

definition dict_get :: "('k \<times> 'v) list \<Rightarrow> 'k \<Rightarrow> 'v option" where
  "dict_get d k = map_option snd (tbl_get fst d k)"

definition user_presets :: "database \<Rightarrow> uuid \<Rightarrow> uuid option \<Rightarrow> preset_dict result" where
  "user_presets db owner tenant =
     (case specs_of_rows (filter (in_preset_scope owner tenant) (db_presets db)) of
        Inl e \<Rightarrow> Inl e | Inr kvs \<Rightarrow> Inr (dict_of kvs))"

definition merged_presets :: "database \<Rightarrow> principal \<Rightarrow> preset_dict result" where
  "merged_presets db p =
     (case user_presets db (p_id p) (user_tenant_id p) of
        Inl e \<Rightarrow> Inl e
      | Inr d \<Rightarrow> Inr (fold (\<lambda>kv acc. tbl_put fst acc kv) d BUILTIN_PRESETS))"

section \<open>Expansion\<close>

record output_options =
  oo_name :: ustr
  oo_image_size :: image_size_spec      \<comment> \<open>absent dimensions are left out of the dict\<close>
  oo_formats :: "format_spec list"
  oo_allow_upscale :: bool
  oo_max_byte_size :: "int option"

record variant_spec =
  vs_variant_name :: ustr
  vs_output_options :: output_options
  vs_target_bucket :: string
  vs_target_key :: ustr

definition output_options_for :: "preset_spec \<Rightarrow> format_spec \<Rightarrow> ustr \<Rightarrow> output_options" where
  "output_options_for spec fmt variant_name = \<lparr>
     oo_name = variant_name, oo_image_size = ps_image_size spec, oo_formats = [fmt],
     oo_allow_upscale = ps_allow_upscale spec, oo_max_byte_size = ps_max_byte_size spec\<rparr>"

definition expand_format ::
  "unicode_db \<Rightarrow> ustr \<Rightarrow> preset_spec \<Rightarrow> media_object \<Rightarrow> format_spec \<Rightarrow> variant_spec" where
  "expand_format U name spec obj fmt =
     (let ext = u (format_ext (fs_ext fmt));
          variant_name = name @ 95 # ext
      in \<lparr>vs_variant_name = variant_name,
          vs_output_options = output_options_for spec fmt variant_name,
          vs_target_bucket = mo_storage_bucket obj,
          vs_target_key = build_variant_key U (mo_owner_user_id obj) (mo_id obj)
            (u (category_value (mo_category obj))) variant_name (variant_name @ 46 # ext)
            (mo_tenant_id obj)\<rparr>)"

definition expand :: "unicode_db \<Rightarrow> ustr \<Rightarrow> preset_spec \<Rightarrow> media_object \<Rightarrow> variant_spec list" where
  "expand U name spec obj = map (expand_format U name spec obj) (ps_formats spec)"

definition py_or :: "int option \<Rightarrow> int \<Rightarrow> int" where   \<comment> \<open>\<open>x or d\<close>: \<open>None\<close> and \<open>0\<close> fall through\<close>
  "py_or x d = (case x of None \<Rightarrow> d | Some n \<Rightarrow> if n = 0 then d else n)"

definition geometry_cost :: "image_size_spec \<Rightarrow> int" where
  "geometry_cost z =
     (let width = py_or (sz_fixed_width z) (py_or (sz_fixed_size z) MAX_PRESET_DIMENSION);
          height = py_or (sz_fixed_height z) (py_or (sz_fixed_size z) MAX_PRESET_DIMENSION)
      in width * height)"

fun expand_names ::
  "unicode_db \<Rightarrow> preset_dict \<Rightarrow> media_object \<Rightarrow> ustr list \<Rightarrow> variant_spec list \<Rightarrow> int \<Rightarrow>
   (variant_spec list \<times> int) result" where
  "expand_names U available obj [] specs cost = Inr (specs, cost)"
| "expand_names U available obj (name # names) specs cost =
     (case dict_get available name of
        None \<Rightarrow> Inl (Http 422 (DTextU (u ''Unknown preset: '' @ name)))
      | Some spec \<Rightarrow>
          (let expanded = expand U name spec obj
           in expand_names U available obj names (specs @ expanded)
                (cost + geometry_cost (ps_image_size spec) * int (length expanded))))"

definition resolve_presets ::
  "unicode_db \<Rightarrow> database \<Rightarrow> principal \<Rightarrow> ustr list \<Rightarrow> media_object \<Rightarrow> variant_spec list result" where
  "resolve_presets U db p names obj =
     (case merged_presets db p of
        Inl e \<Rightarrow> Inl e
      | Inr available \<Rightarrow>
          (case expand_names U available obj names [] 0 of
             Inl e \<Rightarrow> Inl e
           | Inr (specs, total_cost) \<Rightarrow>
               if length specs > MAX_OUTPUTS_PER_JOB
               then Inl (Http 422 (DTextU (u ''Variant job expands to '' @ str_nat (length specs) @
                 u '' outputs, exceeding the maximum '' @ str_nat MAX_OUTPUTS_PER_JOB @ u ''.'')))
               else if total_cost > MAX_JOB_PIXEL_AREA
               then Inl (Http 422 (DTextU (u ''Variant job output area cost '' @ str_int total_cost @
                 u '' exceeds the maximum '' @ str_int MAX_JOB_PIXEL_AREA @ u ''.'')))
               else Inr specs))"

section \<open>Preset CRUD\<close>

record image_preset_public =
  ipp_id :: "uuid option"
  ipp_name :: ustr
  ipp_spec :: preset_spec
  ipp_builtin :: bool
  ipp_created_at :: "datetime option"
  ipp_updated_at :: "datetime option"

definition row_public :: "image_preset \<Rightarrow> image_preset_public result" where
  "row_public r =
     (case model_validate_spec (ip_spec r) of
        Inl e \<Rightarrow> Inl e
      | Inr s \<Rightarrow> Inr \<lparr>ipp_id = Some (ip_id r), ipp_name = ip_name r, ipp_spec = s, ipp_builtin = False,
          ipp_created_at = Some (ip_created_at r), ipp_updated_at = Some (ip_updated_at r)\<rparr>)"

fun rows_public :: "image_preset list \<Rightarrow> image_preset_public list result" where
  "rows_public [] = Inr []"
| "rows_public (r # rs) =
     (case row_public r of
        Inl e \<Rightarrow> Inl e
      | Inr x \<Rightarrow> (case rows_public rs of Inl e \<Rightarrow> Inl e | Inr xs \<Rightarrow> Inr (x # xs)))"

definition load_owned_preset :: "database \<Rightarrow> principal \<Rightarrow> uuid \<Rightarrow> image_preset result" where
  "load_owned_preset db p preset_id =
     (case tbl_get ip_id (db_presets db) preset_id of
        None \<Rightarrow> Inl (Http 404 (DText ''Preset not found.''))
      | Some r \<Rightarrow>
          if \<not> p_superuser p \<and> ip_owner_user_id r \<noteq> p_id p
          then Inl (Http 403 (DText ''Not enough permissions.'')) else Inr r)"

definition list_presets :: "database \<Rightarrow> principal \<Rightarrow> image_preset_public list result" where
  "list_presets db p =
     (let rows = filter (in_preset_scope (p_id p) (user_tenant_id p)) (db_presets db);
          shadowed = set (map ip_name rows);
          builtins = map (\<lambda>(name, spec). \<lparr>ipp_id = None, ipp_name = name, ipp_spec = spec,
              ipp_builtin = True, ipp_created_at = None, ipp_updated_at = None\<rparr>)
            (filter (\<lambda>(name, spec). name \<notin> shadowed) BUILTIN_PRESETS)
      in case rows_public rows of Inl e \<Rightarrow> Inl e | Inr xs \<Rightarrow> Inr (builtins @ xs))"

text \<open>
  \<open>ImagePresetCreate\<close> has been validated by the framework before the handler runs; the
  fresh id and the clock are inputs.
\<close>

definition create_preset ::
  "database \<Rightarrow> principal \<Rightarrow> ustr \<Rightarrow> preset_spec \<Rightarrow> uuid \<Rightarrow> datetime \<Rightarrow>
   image_preset_public result \<times> database" where
  "create_preset db p name spec fresh now =
     (if find (\<lambda>r. in_preset_scope (p_id p) (user_tenant_id p) r \<and> ip_name r = name) (db_presets db) \<noteq> None
      then (Inl (Http 409 (DTextU (u ''Preset already exists: '' @ name))), db)
      else (let r = \<lparr>ip_id = fresh, ip_owner_user_id = p_id p, ip_tenant_id = user_tenant_id p,
                ip_name = name, ip_spec = spec, ip_created_at = now, ip_updated_at = now\<rparr>
            in (row_public r, db\<lparr>db_presets := db_presets db @ [r]\<rparr>)))"

definition update_preset ::
  "database \<Rightarrow> principal \<Rightarrow> uuid \<Rightarrow> preset_spec \<Rightarrow> datetime \<Rightarrow> image_preset_public result \<times> database" where
  "update_preset db p preset_id spec now =
     (case load_owned_preset db p preset_id of
        Inl e \<Rightarrow> (Inl e, db)
      | Inr r \<Rightarrow> (let r' = r\<lparr>ip_spec := spec, ip_updated_at := now\<rparr>
                   in (row_public r', db\<lparr>db_presets := tbl_put ip_id (db_presets db) r'\<rparr>)))"

definition delete_preset :: "database \<Rightarrow> principal \<Rightarrow> uuid \<Rightarrow> unit result \<times> database" where
  "delete_preset db p preset_id =
     (case load_owned_preset db p preset_id of
        Inl e \<Rightarrow> (Inl e, db)
      | Inr r \<Rightarrow> (Inr (), db\<lparr>db_presets := tbl_del ip_id (db_presets db) (ip_id r)\<rparr>))"

section \<open>Dictionaries\<close>

lemma dict_get_put [table_simps]:
  "dict_get (tbl_put fst d kv) k = (if k = fst kv then Some (snd kv) else dict_get d k)"
  by (simp add: dict_get_def table_simps)

lemma dict_get_fold:
  "dict_get (fold (\<lambda>kv d. tbl_put fst d kv) kvs d) k =
     (case find (\<lambda>kv. fst kv = k) (rev kvs) of Some kv \<Rightarrow> Some (snd kv) | None \<Rightarrow> dict_get d k)"
proof (induction kvs arbitrary: d)
  case (Cons kv kvs)
  then show ?case by (auto simp: table_simps find_snoc split: option.splits)
qed simp

lemma keys_fold_put:
  "distinct (map fst d) \<Longrightarrow> distinct (map fst (fold (\<lambda>kv d. tbl_put fst d kv) kvs d))"
  by (induction kvs arbitrary: d) (auto simp: distinct_tbl_put)

lemma find_rev_distinct:
  "distinct (map fst d) \<Longrightarrow> find (\<lambda>kv. fst kv = k) (rev d) = tbl_get fst d k"
proof (induction d)
  case (Cons kv d)
  have "tbl_get fst d (fst kv) = None" using Cons.prems by (auto simp: tbl_get_None)
  with Cons show ?case by (auto simp: find_snoc split: option.splits)
qed simp

lemma specs_of_rows_Inr:
  "specs_of_rows rows = Inr kvs \<Longrightarrow>
     kvs = map (\<lambda>r. (ip_name r, ip_spec r)) rows \<and>
     (\<forall>r \<in> set rows. model_validate_spec (ip_spec r) = Inr (ip_spec r))"
  by (induction rows arbitrary: kvs)
    (auto simp: model_validate_spec_def split: sum.splits if_splits)

lemma find_map_pair:
  "find (\<lambda>kv. fst kv = k) (map (\<lambda>r. (f r, g r)) rows) =
     map_option (\<lambda>r. (f r, g r)) (find (\<lambda>r. f r = k) rows)"
  by (induction rows) auto

lemma distinct_builtin: "distinct (map fst BUILTIN_PRESETS)"
  by (simp add: BUILTIN_PRESETS_def u_def)

text \<open>The catalog as one lookup: the scope's latest row of that name, else the built-in.\<close>

definition scope_row :: "database \<Rightarrow> principal \<Rightarrow> ustr \<Rightarrow> image_preset option" where
  "scope_row db p name =
     find (\<lambda>r. ip_name r = name) (rev (filter (in_preset_scope (p_id p) (user_tenant_id p)) (db_presets db)))"

lemma merged_lookup:
  assumes "merged_presets db p = Inr d"
  shows "dict_get d name = (case scope_row db p name of
      Some r \<Rightarrow> Some (ip_spec r) | None \<Rightarrow> dict_get BUILTIN_PRESETS name)"
proof -
  let ?rows = "filter (in_preset_scope (p_id p) (user_tenant_id p)) (db_presets db)"
  obtain kvs where k: "specs_of_rows ?rows = Inr kvs"
    and d: "d = fold (\<lambda>kv acc. tbl_put fst acc kv) (dict_of kvs) BUILTIN_PRESETS"
    using assms by (auto simp: merged_presets_def user_presets_def split: sum.splits)
  have kvs: "rev kvs = map (\<lambda>r. (ip_name r, ip_spec r)) (rev ?rows)"
    using specs_of_rows_Inr [OF k] by (simp add: rev_map)
  have "dict_get (dict_of kvs) name =
      map_option ip_spec (find (\<lambda>r. ip_name r = name) (rev ?rows))"
    unfolding dict_of_def dict_get_fold kvs find_map_pair
    by (auto simp: dict_get_def split: option.splits)
  moreover have "distinct (map fst (dict_of kvs))"
    unfolding dict_of_def by (rule keys_fold_put) simp
  ultimately show ?thesis
    unfolding d dict_get_fold scope_row_def
    by (subst find_rev_distinct) (auto simp: dict_get_def split: option.splits)
qed

section \<open>Properties of the catalog and of a resolved job\<close>

definition valid_spec :: "preset_spec \<Rightarrow> bool" where
  "valid_spec s \<longleftrightarrow> model_validate_spec s = Inr s"

lemma builtin_valid: "dict_get BUILTIN_PRESETS name = Some s \<Longrightarrow> valid_spec s"
  by (auto simp: dict_get_def BUILTIN_PRESETS_def valid_spec_def model_validate_spec_def webp_def
      preset_spec_fields_def image_size_fields_def format_spec_fields_def opt_ge_def
      check_dimensions_def check_pixel_area_def check_byte_size_def check_unique_formats_def
      preset_bounds split: if_splits)

lemma scope_row_mem:
  "scope_row db p name = Some r \<Longrightarrow> r \<in> set (db_presets db) \<and>
     in_preset_scope (p_id p) (user_tenant_id p) r \<and> ip_name r = name"
  by (auto simp: scope_row_def find_Some_iff) (metis nth_mem set_rev set_filter mem_Collect_eq length_rev)+

lemma merged_valid:
  assumes m: "merged_presets db p = Inr d" and g: "dict_get d name = Some s"
  shows "valid_spec s"
proof (cases "scope_row db p name")
  case None
  then show ?thesis using g builtin_valid by (simp add: merged_lookup [OF m])
next
  case (Some r)
  have "\<exists>kvs. specs_of_rows (filter (in_preset_scope (p_id p) (user_tenant_id p)) (db_presets db)) = Inr kvs"
    using m by (auto simp: merged_presets_def user_presets_def split: sum.splits)
  then have "model_validate_spec (ip_spec r) = Inr (ip_spec r)"
    using specs_of_rows_Inr scope_row_mem [OF Some] by fastforce
  then show ?thesis using Some g by (simp add: merged_lookup [OF m] valid_spec_def)
qed

lemma valid_spec_bounds:
  assumes "valid_spec s"
  shows "preset_spec_fields s" and "check_dimensions s" and "check_pixel_area s"
    and "check_unique_formats s"
  using assms by (auto simp: valid_spec_def model_validate_spec_def split: if_splits)

lemma py_or_range:
  "opt_ge 1 x \<Longrightarrow> (case x of None \<Rightarrow> True | Some n \<Rightarrow> \<not> n > m) \<Longrightarrow> 1 \<le> e \<Longrightarrow> e \<le> m \<Longrightarrow>
     1 \<le> py_or x e \<and> py_or x e \<le> m"
  by (auto simp: py_or_def opt_ge_def split: option.splits)

lemma valid_geometry_cost:
  assumes "valid_spec s"
  shows "1 \<le> geometry_cost (ps_image_size s)"
proof -
  let ?z = "ps_image_size s" and ?m = MAX_PRESET_DIMENSION
  have f: "opt_ge 1 (sz_fixed_width ?z)" "opt_ge 1 (sz_fixed_height ?z)" "opt_ge 1 (sz_fixed_size ?z)"
    using valid_spec_bounds(1) [OF assms] by (auto simp: preset_spec_fields_def image_size_fields_def)
  have c: "case sz_fixed_width ?z of None \<Rightarrow> True | Some n \<Rightarrow> \<not> n > ?m"
    "case sz_fixed_height ?z of None \<Rightarrow> True | Some n \<Rightarrow> \<not> n > ?m"
    "case sz_fixed_size ?z of None \<Rightarrow> True | Some n \<Rightarrow> \<not> n > ?m"
    using valid_spec_bounds(2) [OF assms] by (auto simp: check_dimensions_def)
  have "1 \<le> py_or (sz_fixed_size ?z) ?m" "py_or (sz_fixed_size ?z) ?m \<le> ?m"
    using py_or_range [OF f(3) c(3), of ?m] by (simp_all add: MAX_PRESET_DIMENSION_def)
  then have w: "1 \<le> py_or (sz_fixed_width ?z) (py_or (sz_fixed_size ?z) ?m)"
    and h: "1 \<le> py_or (sz_fixed_height ?z) (py_or (sz_fixed_size ?z) ?m)"
    using py_or_range [OF f(1) c(1)] py_or_range [OF f(2) c(2)] by blast+
  from w h show ?thesis
    unfolding geometry_cost_def Let_def by (metis mult_mono' zero_le_one mult_1)
qed

text \<open>What a job over \<open>names\<close> expands to and costs.\<close>

definition job_specs :: "unicode_db \<Rightarrow> preset_dict \<Rightarrow> media_object \<Rightarrow> ustr list \<Rightarrow> variant_spec list" where
  "job_specs U d obj names = concat (map (\<lambda>n. expand U n (the (dict_get d n)) obj) names)"

definition job_cost :: "preset_dict \<Rightarrow> ustr list \<Rightarrow> int" where
  "job_cost d names = (\<Sum>n\<leftarrow>names. geometry_cost (ps_image_size (the (dict_get d n))) *
     int (length (ps_formats (the (dict_get d n)))))"

lemma expand_names_eq:
  "expand_names U d obj names specs c =
     (case find (\<lambda>n. dict_get d n = None) names of
        Some n \<Rightarrow> Inl (Http 422 (DTextU (u ''Unknown preset: '' @ n)))
      | None \<Rightarrow> Inr (specs @ job_specs U d obj names, c + job_cost d names))"
  by (induction names arbitrary: specs c)
    (auto simp: job_specs_def job_cost_def expand_def split: option.splits)

lemma resolve_presets_Inr:
  assumes "resolve_presets U db p names obj = Inr specs"
  shows "\<exists>d. merged_presets db p = Inr d \<and> (\<nexists>n. n \<in> set names \<and> dict_get d n = None) \<and>
    specs = job_specs U d obj names \<and> length specs \<le> MAX_OUTPUTS_PER_JOB \<and>
    job_cost d names \<le> MAX_JOB_PIXEL_AREA"
proof (cases "merged_presets db p")
  case (Inr d)
  with assms have f: "find (\<lambda>n. dict_get d n = None) names = None"
    by (cases "find (\<lambda>n. dict_get d n = None) names") (simp_all add: resolve_presets_def expand_names_eq)
  then have "\<nexists>n. n \<in> set names \<and> dict_get d n = None" by (simp only: find_None_iff simp_thms)
  with assms f Inr show ?thesis
    by (intro exI [of _ d]) (simp add: resolve_presets_def expand_names_eq split: if_splits)
qed (use assms in \<open>simp add: resolve_presets_def\<close>)

text \<open>
  C28. A job is enqueued exactly when every requested name resolves in the caller's
  catalog, the expansion has at most 32 outputs and their summed area bound stays within
  the budget; the units handed to the worker are then the expansion of the names in
  order, one per format, all of them in the object's own bucket.
\<close>

theorem resolve_presets_exact:
  "resolve_presets U db p names obj = Inr specs \<longleftrightarrow>
     (\<exists>d. merged_presets db p = Inr d \<and> (\<nexists>n. n \<in> set names \<and> dict_get d n = None) \<and>
        specs = job_specs U d obj names \<and> length specs \<le> MAX_OUTPUTS_PER_JOB \<and>
        job_cost d names \<le> MAX_JOB_PIXEL_AREA)"
proof (cases "merged_presets db p")
  case (Inr d)
  show ?thesis
  proof (cases "find (\<lambda>n. dict_get d n = None) names")
    case None
    moreover from None have "\<nexists>n. n \<in> set names \<and> dict_get d n = None" by (simp add: find_None_iff)
    ultimately show ?thesis by (auto simp: resolve_presets_def expand_names_eq Inr)
  next
    case (Some n)
    then have "n \<in> set names \<and> dict_get d n = None" by (auto simp: find_Some_iff)
    with Some show ?thesis by (auto simp: resolve_presets_def expand_names_eq Inr)
  qed
qed (simp add: resolve_presets_def)

text \<open>
  The caller's catalog: a name resolves to the caller's own row of that name when the
  scope has one and to the built-in otherwise, and whatever it resolves to satisfies the
  recipe bounds, so an output costs at least one pixel and at most five formats are cut.
\<close>

theorem catalog_user_shadows_builtin:
  assumes "merged_presets db p = Inr d"
  shows "dict_get d name = (case scope_row db p name of
           Some r \<Rightarrow> Some (ip_spec r) | None \<Rightarrow> dict_get BUILTIN_PRESETS name) \<and>
    (case dict_get d name of None \<Rightarrow> True
     | Some s \<Rightarrow> valid_spec s \<and> 1 \<le> geometry_cost (ps_image_size s) \<and>
         length (ps_formats s) \<le> MAX_FORMATS_PER_PRESET)"
  using merged_lookup [OF assms, of name] merged_valid [OF assms, of name] valid_geometry_cost
    valid_spec_bounds(1)
  by (auto simp: preset_spec_fields_def split: option.splits)

definition demo_principal :: principal where
  "demo_principal = \<lparr>p_id = 1, p_superuser = False, p_tenant = None\<rparr>"

definition demo_preset :: image_preset where
  "demo_preset = \<lparr>ip_id = 9, ip_owner_user_id = 1, ip_tenant_id = None, ip_name = u ''thumb'',
     ip_spec = webp (Some 64) (Some 64), ip_created_at = 0, ip_updated_at = 0\<rparr>"

lemma demo_preset_valid: "model_validate_spec (webp (Some 64) (Some 64)) = Inr (webp (Some 64) (Some 64))"
  by (simp add: model_validate_spec_def webp_def
      preset_spec_fields_def image_size_fields_def format_spec_fields_def opt_ge_def
      check_dimensions_def check_pixel_area_def check_byte_size_def check_unique_formats_def
      preset_bounds)

theorem catalog_user_shadows_builtin_witness:
  "\<exists>d. merged_presets (empty_db\<lparr>db_presets := [demo_preset]\<rparr>) demo_principal = Inr d \<and>
     dict_get d (u ''thumb'') = Some (webp (Some 64) (Some 64))"
proof -
  let ?db = "empty_db\<lparr>db_presets := [demo_preset]\<rparr>"
  obtain d where d: "merged_presets ?db demo_principal = Inr d"
    by (simp add: merged_presets_def user_presets_def in_preset_scope_def demo_principal_def
        user_tenant_id_def demo_preset_def demo_preset_valid)
  have "scope_row ?db demo_principal (u ''thumb'') = Some demo_preset"
    by (simp add: scope_row_def in_preset_scope_def demo_principal_def user_tenant_id_def demo_preset_def)
  with catalog_user_shadows_builtin [OF d, of "u ''thumb''"] d show ?thesis
    by (simp add: demo_preset_def)
qed

text \<open>Unit names determine the preset and the format they come from.\<close>

lemma format_ext_no_low_line: "95 \<notin> set (u (format_ext f))"
  by (cases f) (simp_all add: u_def)

lemma format_ext_inj: "format_ext f = format_ext g \<Longrightarrow> f = g"
  by (cases f; cases g) simp_all

lemma u_inj: "u a = u b \<Longrightarrow> a = b"
  unfolding u_def by (rule map_injective) (auto intro: injI)

lemma variant_name_inj:
  assumes "n @ 95 # u (format_ext f) = m @ 95 # u (format_ext g)"
  shows "n = m \<and> f = g"
proof -
  have "rev (u (format_ext f)) @ 95 # rev n = rev (u (format_ext g)) @ 95 # rev m"
    using arg_cong [OF assms, of rev] by simp
  then have "rev (u (format_ext f)) = rev (u (format_ext g)) \<and> rev n = rev m"
    by (rule first_separator [rotated 2]) (simp_all add: format_ext_no_low_line)
  then show ?thesis using u_inj format_ext_inj by blast
qed

lemma variant_names_of_expand:
  "vs_variant_name ` set (expand U n s obj) = (\<lambda>f. n @ 95 # u (format_ext (fs_ext f))) ` set (ps_formats s)"
  by (auto simp: expand_def expand_format_def Let_def image_iff)

lemma distinct_expand:
  assumes "check_unique_formats s" shows "distinct (map vs_variant_name (expand U n s obj))"
proof -
  have "distinct (map fs_ext (ps_formats s))"
    using assms by (simp add: check_unique_formats_def card_distinct)
  moreover have "inj (\<lambda>e. n @ 95 # u (format_ext e))"
    by (rule injI) (use variant_name_inj in blast)
  ultimately have "distinct (map (\<lambda>e. n @ 95 # u (format_ext e)) (map fs_ext (ps_formats s)))"
    unfolding distinct_map [of _ "map fs_ext (ps_formats s)"] by (blast intro: inj_on_subset)
  then show ?thesis by (simp add: expand_def expand_format_def Let_def comp_def)
qed

lemma distinct_job_specs:
  assumes "distinct names" and "\<And>n. n \<in> set names \<Longrightarrow> check_unique_formats (the (dict_get d n))"
  shows "distinct (map vs_variant_name (job_specs U d obj names))"
  using assms
proof (induction names)
  case (Cons n names)
  have "vs_variant_name ` set (expand U n (the (dict_get d n)) obj) \<inter>
      vs_variant_name ` set (job_specs U d obj names) = {}"
    using Cons.prems(1) variant_name_inj
    by (auto simp: job_specs_def variant_names_of_expand image_UN)
  then show ?case
    using Cons by (simp add: job_specs_def distinct_expand)
qed (simp add: job_specs_def)

text \<open>
  The units of a resolved job carry pairwise distinct variant names, so the worker's
  upserts, keyed on (object, variant name), never overwrite one another: the request
  validator de-duplicates the names and each recipe's formats are unique.
\<close>

theorem resolved_variant_names_distinct:
  assumes "resolve_presets U db p (dedup names) obj = Inr specs"
  shows "distinct (map vs_variant_name specs)"
proof -
  obtain d where d: "merged_presets db p = Inr d"
    and known: "\<nexists>n. n \<in> set (dedup names) \<and> dict_get d n = None"
    and s: "specs = job_specs U d obj (dedup names)"
    using resolve_presets_Inr [OF assms] by blast
  have uf: "check_unique_formats (the (dict_get d n))" if n: "n \<in> set (dedup names)" for n
  proof -
    obtain s where "dict_get d n = Some s" using known n by auto
    with merged_valid [OF d this] valid_spec_bounds(4) show ?thesis by simp
  qed
  show ?thesis unfolding s by (rule distinct_job_specs [OF distinct_dedup uf])
qed

definition demo_object :: media_object where
  "demo_object = \<lparr>mo_id = 5, mo_tenant_id = None, mo_owner_user_id = 1, mo_category = CAT_ASSET,
     mo_visibility = VIS_PRIVATE, mo_storage_bucket = ''private-media'', mo_object_key = u ''k'',
     mo_original_filename = None, mo_mime_type = ''image/png'', mo_extension = None,
     mo_size_bytes = 10, mo_sha256 = None, mo_etag = None, mo_storage_class = ''standard'',
     mo_status = OBJ_READY, mo_scan_status = SCAN_CLEAN, mo_moderation_status = MOD_SKIPPED,
     mo_created_at = 0, mo_updated_at = 0, mo_deleted_at = None\<rparr>"

theorem resolved_variant_names_distinct_witness:
  "\<exists>specs. resolve_presets \<lparr>uc_nfc = id, uc_other = (\<lambda>_. False), uc_lower = id\<rparr> empty_db demo_principal
     (dedup [u ''thumb'', u ''small'', u ''thumb'']) demo_object = Inr specs \<and>
     distinct (map vs_variant_name specs) \<and> length specs = 2"
proof -
  let ?U = "\<lparr>uc_nfc = id, uc_other = (\<lambda>_. False), uc_lower = id\<rparr>"
  have d: "dedup [u ''thumb'', u ''small'', u ''thumb''] = [u ''thumb'', u ''small'']"
    by (simp add: dedup_def u_def)
  have "\<exists>specs. resolve_presets ?U empty_db demo_principal (dedup [u ''thumb'', u ''small'', u ''thumb''])
      demo_object = Inr specs \<and> length specs = 2"
    unfolding d
    by (simp add: resolve_presets_def merged_presets_def user_presets_def empty_db_def dict_of_def
        BUILTIN_PRESETS_def u_def dict_get_def webp_def expand_def geometry_cost_def py_or_def
        preset_bounds)
  then show ?thesis using resolved_variant_names_distinct by blast
qed

section \<open>The table of presets stays well formed\<close>

definition presets_wf :: "database \<Rightarrow> bool" where
  "presets_wf db \<longleftrightarrow> distinct (map ip_id (db_presets db)) \<and>
     distinct (map (\<lambda>r. (ip_owner_user_id r, ip_tenant_id r, ip_name r)) (db_presets db)) \<and>
     (\<forall>r \<in> set (db_presets db). valid_spec (ip_spec r))"

lemma in_preset_scope_iff:
  "in_preset_scope owner tenant r \<longleftrightarrow> ip_owner_user_id r = owner \<and> ip_tenant_id r = tenant"
  by (auto simp: in_preset_scope_def split: option.splits)

lemma load_owned_preset_Inr:
  "load_owned_preset db p pid = Inr r \<Longrightarrow> tbl_get ip_id (db_presets db) pid = Some r \<and> ip_id r = pid \<and>
     (p_superuser p \<or> ip_owner_user_id r = p_id p)"
  by (auto simp: load_owned_preset_def dest: tbl_get_key split: option.splits if_splits)

lemma create_preset_keeps:
  assumes "presets_wf db" and "valid_spec spec" and "tbl_get ip_id (db_presets db) fresh = None"
  shows "presets_wf (snd (create_preset db p name spec fresh now))"
    and "set (db_presets db) \<subseteq> set (db_presets (snd (create_preset db p name spec fresh now)))"
  using assms
  by (auto simp: create_preset_def presets_wf_def find_None_iff in_preset_scope_iff tbl_get_None Let_def)

lemma update_preset_keeps:
  assumes "presets_wf db" and "valid_spec spec"
  shows "presets_wf (snd (update_preset db p pid spec now)) \<and>
    set (db_presets db) - {r. ip_id r = pid} \<subseteq> set (db_presets (snd (update_preset db p pid spec now)))"
proof (cases "load_owned_preset db p pid")
  case (Inr r)
  note r = load_owned_preset_Inr [OF Inr]
  let ?t = "db_presets db" and ?r = "r\<lparr>ip_spec := spec, ip_updated_at := now\<rparr>"
  have wf: "distinct (map ip_id ?t)" "\<forall>r \<in> set ?t. valid_spec (ip_spec r)"
    "distinct (map (\<lambda>r. (ip_owner_user_id r, ip_tenant_id r, ip_name r)) ?t)"
    using assms(1) by (simp_all add: presets_wf_def)
  have "map (\<lambda>r. (ip_owner_user_id r, ip_tenant_id r, ip_name r)) (tbl_put ip_id ?t ?r) =
      map (\<lambda>r. (ip_owner_user_id r, ip_tenant_id r, ip_name r)) ?t"
    by (rule put_same_map [of _ _ _ r]) (use r in auto)
  moreover have "set (tbl_put ip_id ?t ?r) = insert ?r {x \<in> set ?t. ip_id x \<noteq> pid}"
    using set_tbl_put [OF wf(1), of ?r] r by simp
  ultimately show ?thesis
    using wf assms(2) r by (auto simp: update_preset_def Inr presets_wf_def distinct_tbl_put Let_def)
qed (use assms(1) in \<open>simp add: update_preset_def\<close>)

lemma delete_preset_keeps:
  assumes "presets_wf db"
  shows "presets_wf (snd (delete_preset db p pid)) \<and>
    set (db_presets db) - {r. ip_id r = pid} \<subseteq> set (db_presets (snd (delete_preset db p pid)))"
proof (cases "load_owned_preset db p pid")
  case (Inr r)
  then show ?thesis using assms load_owned_preset_Inr [OF Inr]
    by (auto simp: delete_preset_def presets_wf_def tbl_del_def distinct_map_filter)
qed (use assms in \<open>simp add: delete_preset_def\<close>)

text \<open>A preset of somebody else is not the one a plain caller loads.\<close>

lemma foreign_preset_not_loaded:
  assumes "presets_wf db" and "r \<in> set (db_presets db)" "\<not> p_superuser p" "ip_owner_user_id r \<noteq> p_id p"
    and "load_owned_preset db p pid = Inr r'"
  shows "ip_id r \<noteq> pid"
proof
  assume "ip_id r = pid"
  moreover have "distinct (map ip_id (db_presets db))" using assms(1) by (simp add: presets_wf_def)
  ultimately have "r' = r" using tbl_get_distinct [OF _ assms(2)] load_owned_preset_Inr [OF assms(5)] by fastforce
  with load_owned_preset_Inr [OF assms(5)] assms(3,4) show False by simp
qed

text \<open>
  C40. Whatever preset requests arrive, each with a validated recipe and a fresh id, the
  stored table keeps unique ids, one row per (owner, tenant, name) and only recipes within
  bounds, although the table's unique constraint does not cover untenanted rows. Whoever
  calls, a creation changes no existing row, and an update or a deletion none but the one it
  names. That one belongs to the caller unless the caller is a superuser: a caller that is
  not leaves every row of other owners as it is (superusers may update and delete them).
\<close>

theorem preset_crud_keeps_wf:
  assumes wf: "presets_wf db" and v: "valid_spec spec"
    and fresh: "tbl_get ip_id (db_presets db) fresh = None"
  shows "presets_wf (snd (create_preset db p name spec fresh now)) \<and>
    presets_wf (snd (update_preset db p pid spec now)) \<and>
    presets_wf (snd (delete_preset db p pid)) \<and>
    (\<forall>r \<in> set (db_presets db).
       r \<in> set (db_presets (snd (create_preset db p name spec fresh now))) \<and>
       (ip_id r \<noteq> pid \<or> (\<not> p_superuser p \<and> ip_owner_user_id r \<noteq> p_id p) \<longrightarrow>
          r \<in> set (db_presets (snd (update_preset db p pid spec now))) \<and>
          r \<in> set (db_presets (snd (delete_preset db p pid)))))"
proof -
  have kept: "r \<in> set (db_presets (snd (update_preset db p pid spec now))) \<and>
      r \<in> set (db_presets (snd (delete_preset db p pid)))"
    if r: "r \<in> set (db_presets db)" "\<not> p_superuser p" "ip_owner_user_id r \<noteq> p_id p" for r
  proof (cases "load_owned_preset db p pid")
    case (Inl e)
    with r show ?thesis by (simp add: update_preset_def delete_preset_def)
  next
    case (Inr r')
    then show ?thesis
      using foreign_preset_not_loaded [OF wf r] r(1) update_preset_keeps [OF wf v] delete_preset_keeps [OF wf] by blast
  qed
  show ?thesis
    using create_preset_keeps [OF wf v fresh, of p name now] update_preset_keeps [OF wf v, of p pid now]
      delete_preset_keeps [OF wf, of p pid] kept by blast
qed

theorem preset_crud_keeps_wf_witness:
  "presets_wf (snd (create_preset (empty_db\<lparr>db_presets := [demo_preset]\<rparr>) demo_principal (u ''hero'')
     (webp (Some 64) (Some 64)) 10 5))"
proof -
  have "presets_wf (empty_db\<lparr>db_presets := [demo_preset]\<rparr>)"
    by (simp add: presets_wf_def demo_preset_def valid_spec_def demo_preset_valid)
  moreover have "valid_spec (webp (Some 64) (Some 64))"
    by (simp add: valid_spec_def demo_preset_valid)
  moreover have "tbl_get ip_id (db_presets (empty_db\<lparr>db_presets := [demo_preset]\<rparr>)) 10 = None"
    by (simp add: demo_preset_def)
  ultimately show ?thesis using preset_crud_keeps_wf by blast
qed

text \<open>
  A preset name is not passed through the character filter object keys get: the
  variant-name segment of a key keeps a question mark the public route cannot carry, and
  two names that differ before a slash only by case share one target key.
\<close>

lemma variant_key_keeps_unsafe_char:
  "63 \<in> set (vs_target_key (expand_format U (u ''a?b'') spec obj fmt)) \<or> uc_lower U \<noteq> id"
proof (cases "uc_lower U = id")
  case True
  have "strip (u ''a?b'' @ 95 # u (format_ext (fs_ext fmt))) = u ''a?b'' @ 95 # u (format_ext (fs_ext fmt))"
    by (rule strip_fixed) (cases "fs_ext fmt"; simp add: u_def is_space_def)
  then have "63 \<in> set (slug_segment U (u ''a?b'' @ 95 # u (format_ext (fs_ext fmt))))"
    by (simp add: slug_segment_def True replace_ch_def u_def)
  then show ?thesis by (simp add: expand_format_def Let_def build_variant_key_def)
qed simp

end
