(* ===== verification/CategoryTree.thy ===== *)
theory CategoryTree
  imports DataModel "HOL-Library.List_Lexorder"
begin

text \<open>
  \<open>core/category_tree.py\<close>: the tree endpoint's assembly and rollup, the downward walk of
  a branch, the upward resolution of slug paths. Rows arrive as a list; ids are the
  primary key. The walks of \<open>controllers/category.py\<close> use the same two recursions: an
  upward walk along \<open>parent_id\<close> that stops at a repeated id, and a stack-driven downward
  walk with a \<open>seen\<close> set. Both are total functions; their measures count the ids not yet
  seen.
\<close>

section \<open>Ancestors\<close>

definition cat_get :: "category list \<Rightarrow> int \<Rightarrow> category option" where
  "cat_get rows i = tbl_get cat_id rows i"

definition parent_of :: "category list \<Rightarrow> int \<Rightarrow> int option" where
  "parent_of rows i = (case cat_get rows i of None \<Rightarrow> None | Some c \<Rightarrow> cat_parent_id c)"

text \<open>The \<open>n\<close>-th ancestor; \<open>None\<close> above a root.\<close>

primrec nth_parent :: "category list \<Rightarrow> nat \<Rightarrow> int \<Rightarrow> int option" where
  "nth_parent rows 0 i = Some i"
| "nth_parent rows (Suc n) i =
     (case parent_of rows i of None \<Rightarrow> None | Some p \<Rightarrow> nth_parent rows n p)"

lemma nth_parent_add:
  "nth_parent rows (m + n) i = (case nth_parent rows m i of None \<Rightarrow> None | Some j \<Rightarrow> nth_parent rows n j)"
  by (induction m arbitrary: i) (auto split: option.splits)

lemma nth_parent_Suc_end:
  "nth_parent rows (Suc n) i = (case nth_parent rows n i of None \<Rightarrow> None | Some j \<Rightarrow> parent_of rows j)"
  using nth_parent_add [of rows n 1 i] by (auto split: option.splits)

lemma nth_parent_None_mono: "nth_parent rows m i = None \<Longrightarrow> m \<le> n \<Longrightarrow> nth_parent rows n i = None"
  using nth_parent_add [of rows m "n - m" i] by simp

text \<open>An id that is its own proper ancestor has ancestors of every order.\<close>

lemma nth_parent_cycle:
  assumes "nth_parent rows (Suc k) i = Some i"
  shows "\<exists>j. nth_parent rows n i = Some j"
proof (rule ccontr)
  assume "\<nexists>j. nth_parent rows n i = Some j"
  then have n: "nth_parent rows n i = None" by simp
  have rep: "nth_parent rows (m * Suc k) i = Some i" for m
  proof (induction m)
    case (Suc m)
    have "nth_parent rows (Suc k + m * Suc k) i = nth_parent rows (m * Suc k) i"
      using assms by (simp only: nth_parent_add option.simps)
    then show ?case using Suc by (simp only: mult_Suc)
  qed simp
  have "n \<le> n * Suc k" by simp
  from nth_parent_None_mono [OF n this] rep [of n] show False by simp
qed

lemma nth_parent_unique:
  assumes end_: "nth_parent rows d x = None"
    and "nth_parent rows k x = Some r" and "nth_parent rows k' x = Some r"
  shows "k = k'"
proof (rule ccontr)
  have no: "\<not> (nth_parent rows a x = Some r \<and> nth_parent rows b x = Some r \<and> a < b)" for a b
  proof
    assume A: "nth_parent rows a x = Some r \<and> nth_parent rows b x = Some r \<and> a < b"
    then obtain e where e: "b = a + Suc e" using less_imp_Suc_add by auto
    have "nth_parent rows (a + Suc e) x = nth_parent rows (Suc e) r"
      using A by (simp only: nth_parent_add option.simps)
    with A e have "nth_parent rows (Suc e) r = Some r" by simp
    then obtain j where "nth_parent rows d r = Some j" using nth_parent_cycle by blast
    then have "nth_parent rows (a + d) x = Some j" using A nth_parent_add [of rows a d x] by simp
    with nth_parent_None_mono [OF end_, of "a + d"] show False by simp
  qed
  assume "k \<noteq> k'"
  with assms no [of k k'] no [of k' k] show False by (auto simp: neq_iff)
qed

section \<open>The upward walk\<close>

text \<open>
  \<open>climb rows start seen\<close>: the rows visited from \<open>start\<close> upward, stopping at a missing
  row or a repeated id.
\<close>

function climb :: "category list \<Rightarrow> int option \<Rightarrow> int list \<Rightarrow> category list" where
  "climb rows None seen = []"
| "climb rows (Some i) seen =
     (case cat_get rows i of
        None \<Rightarrow> []
      | Some r \<Rightarrow> if i \<in> set seen then [] else r # climb rows (cat_parent_id r) (i # seen))"
  by pat_completeness auto

lemma cat_get_id: "cat_get rows i = Some r \<Longrightarrow> cat_id r = i \<and> r \<in> set rows"
  by (auto simp: cat_get_def dest: tbl_get_key tbl_get_mem)

termination climb
proof (relation "measure (\<lambda>(rows, s, seen). card (cat_id ` set rows - set seen))")
  fix rows :: "category list" and i :: int and seen :: "int list" and r :: category
  assume "cat_get rows i = Some r" and "i \<notin> set seen"
  then have "i \<in> cat_id ` set rows - set seen" using cat_get_id by blast
  then have "card (cat_id ` set rows - set (i # seen)) < card (cat_id ` set rows - set seen)"
    by (intro psubset_card_mono) auto
  then show "((rows, cat_parent_id r, i # seen), rows, Some i, seen)
      \<in> measure (\<lambda>(rows, s, seen). card (cat_id ` set rows - set seen))" by simp
qed simp

text \<open>
  On a chain that ends, no id repeats: a \<open>seen\<close> set of ids below the walk never stops it.
\<close>

definition unseen_above :: "category list \<Rightarrow> int \<Rightarrow> int list \<Rightarrow> bool" where
  "unseen_above rows i seen \<longleftrightarrow> (\<forall>k j. nth_parent rows k i = Some j \<longrightarrow> j \<notin> set seen)"

lemma unseen_above_Nil [simp]: "unseen_above rows i []"
  by (simp add: unseen_above_def)

lemma unseen_aboveD: "unseen_above rows i seen \<Longrightarrow> i \<notin> set seen"
  unfolding unseen_above_def by (metis nth_parent.simps(1))

lemma unseen_above_step:
  assumes e: "nth_parent rows d i = None" and f: "unseen_above rows i seen" and p: "parent_of rows i = Some p"
  shows "unseen_above rows p (i # seen)"
  unfolding unseen_above_def
proof (intro allI impI)
  fix k j assume k: "nth_parent rows k p = Some j"
  then have s: "nth_parent rows (Suc k) i = Some j" using p by simp
  have "j \<noteq> i" using nth_parent_cycle [of rows k i d] s e by auto
  moreover have "j \<notin> set seen" using f s unfolding unseen_above_def by blast
  ultimately show "j \<notin> set (i # seen)" by simp
qed

lemma climb_end:
  "nth_parent rows d i = None \<Longrightarrow> unseen_above rows i seen \<Longrightarrow>
   nth_parent rows (length (climb rows (Some i) seen)) i = Some j \<Longrightarrow> cat_get rows j = None"
proof (induction d arbitrary: i seen)
  case (Suc d)
  show ?case
  proof (cases "cat_get rows i")
    case None
    then show ?thesis using Suc.prems(3) by simp
  next
    case (Some r)
    have ns: "i \<notin> set seen" by (rule unseen_aboveD [OF Suc.prems(2)])
    show ?thesis
    proof (cases "cat_parent_id r")
      case None
      then show ?thesis using Suc.prems(3) Some ns by (simp add: parent_of_def)
    next
      case par: (Some p)
      have pp: "parent_of rows i = Some p" using Some par by (simp add: parent_of_def)
      have "nth_parent rows (length (climb rows (Some p) (i # seen))) p = Some j"
        using Suc.prems(3) Some ns par pp by simp
      moreover have "nth_parent rows d p = None" using Suc.prems(1) pp by simp
      ultimately show ?thesis
        using Suc.IH unseen_above_step [OF Suc.prems(1,2) pp] by blast
    qed
  qed
qed simp

text \<open>Along such a chain the walk collects the rows in order, up to the last one present.\<close>

lemma climb_unfold:
  assumes "unseen_above rows i seen" and "cat_get rows i = Some r"
  shows "climb rows (Some i) seen = r # climb rows (cat_parent_id r) (i # seen)"
  using assms(2) unseen_aboveD [OF assms(1)] by simp

section \<open>The downward walk\<close>

definition children_ids :: "category list \<Rightarrow> int \<Rightarrow> int list" where
  "children_ids rows p = map cat_id (filter (\<lambda>c. cat_parent_id c = Some p) rows)"

text \<open>
  The stack holds (id, height); its head is the end of the Python list \<open>pending\<close>, so
  \<open>pending.extend(children)\<close> pushes the children reversed. The result lists the ids in
  the order they are first popped, each with its height.
\<close>

function descend :: "category list \<Rightarrow> (int \<times> nat) list \<Rightarrow> int list \<Rightarrow> (int \<times> nat) list" where
  "descend rows [] seen = []"
| "descend rows ((x, h) # pending) seen =
     (if x \<in> set seen then descend rows pending seen
      else (x, h) # descend rows (rev (map (\<lambda>c. (c, h + 1)) (children_ids rows x)) @ pending) (x # seen))"
  by pat_completeness auto

termination descend
proof (relation "measures [\<lambda>(rows, pending, seen). card (cat_parent_id ` set rows - Some ` set seen),
    \<lambda>(rows, pending, seen). length pending]", goal_cases)
  case (3 rows x h pending seen)
  let ?P = "cat_parent_id ` set rows"
  have le: "card (?P - Some ` set (x # seen)) \<le> card (?P - Some ` set seen)"
    by (intro card_mono) auto
  show ?case
  proof (cases "Some x \<in> ?P")
    case True
    then have "?P - Some ` set (x # seen) \<subset> ?P - Some ` set seen" using 3 by auto
    then have "card (?P - Some ` set (x # seen)) < card (?P - Some ` set seen)"
      by (intro psubset_card_mono) simp_all
    then show ?thesis by simp
  next
    case False
    then have "children_ids rows x = []"
      by (auto simp: children_ids_def filter_empty_conv image_iff)
    with le show ?thesis by auto
  qed
qed simp_all

definition collect_branch_ids :: "category list \<Rightarrow> int \<Rightarrow> int list" where
  "collect_branch_ids rows root_id = map fst (descend rows [(root_id, 1)] [])"

lemma descend_fresh: "(x, h) \<in> set (descend rows pending seen) \<Longrightarrow> x \<notin> set seen"
  by (induction rows pending seen rule: descend.induct) (auto split: if_splits)

lemma descend_distinct: "distinct (map fst (descend rows pending seen))"
proof (induction rows pending seen rule: descend.induct)
  case (2 rows x h pending seen)
  then show ?case using descend_fresh by (auto split: if_splits) fastforce
qed simp

lemma parent_of_child:
  "distinct (map cat_id rows) \<Longrightarrow> y \<in> set (children_ids rows x) \<longleftrightarrow> parent_of rows y = Some x"
  unfolding children_ids_def parent_of_def cat_get_def
  using tbl_get_distinct [of cat_id rows] tbl_get_mem [of cat_id rows] tbl_get_key [of cat_id rows]
  by (fastforce split: option.splits)

lemma descend_sound:
  assumes "distinct (map cat_id rows)"
  shows "(x, h) \<in> set (descend rows pending seen) \<Longrightarrow>
    \<exists>y h0 k. (y, h0) \<in> set pending \<and> h = h0 + k \<and> nth_parent rows k x = Some y"
  using assms
proof (induction rows pending seen rule: descend.induct)
  case (2 rows y hy pending seen)
  note dist = 2(4)
  show ?case
  proof (cases "y \<in> set seen")
    case True
    then show ?thesis using 2 by auto
  next
    case False
    from False 2 consider "x = y" "h = hy" | z h0 k where
        "(z, h0) \<in> set (rev (map (\<lambda>c. (c, hy + 1)) (children_ids rows y)) @ pending)"
        "h = h0 + k" "nth_parent rows k x = Some z"
      by auto
    then show ?thesis
    proof cases
      case 1
      then show ?thesis by (intro exI [of _ y] exI [of _ hy] exI [of _ "0::nat"]) simp
    next
      case 2
      then consider "(z, h0) \<in> set pending" | "z \<in> set (children_ids rows y)" "h0 = hy + 1" by auto
      then show ?thesis
      proof cases
        case 2
        then have "nth_parent rows (k + 1) x = Some y"
          using \<open>nth_parent rows k x = Some z\<close> parent_of_child [OF dist, of z y]
          by (simp add: nth_parent_Suc_end del: nth_parent.simps(2))
        moreover have "h = hy + (k + 1)" using 2 \<open>h = h0 + k\<close> by simp
        ultimately show ?thesis by (metis list.set_intros(1))
      qed (use \<open>h = h0 + k\<close> \<open>nth_parent rows k x = Some z\<close> in auto)
    qed
  qed
qed simp

lemma descend_closed:
  "fst ` set pending \<subseteq> fst ` set (descend rows pending seen) \<union> set seen \<and>
   (\<forall>v \<in> fst ` set (descend rows pending seen).
      set (children_ids rows v) \<subseteq> fst ` set (descend rows pending seen) \<union> set seen)"
proof (induction rows pending seen rule: descend.induct)
  case (2 rows x h pending seen)
  show ?case
  proof (cases "x \<in> set seen")
    case True
    then show ?thesis using 2(1) by auto
  next
    case False
    let ?V = "fst ` set (descend rows (rev (map (\<lambda>c. (c, h + 1)) (children_ids rows x)) @ pending) (x # seen))"
    have V: "set (children_ids rows x) \<union> fst ` set pending \<subseteq> ?V \<union> set (x # seen)"
      using 2(2) [OF False] by (auto simp: image_Un image_image)
    have C: "\<forall>v \<in> ?V. set (children_ids rows v) \<subseteq> ?V \<union> set (x # seen)" using 2(2) [OF False] by blast
    have d: "fst ` set (descend rows ((x, h) # pending) seen) = insert x ?V" using False by simp
    from V C show ?thesis unfolding d by auto
  qed
qed simp

declare descend.simps [simp del]

lemma descend_complete:
  assumes d: "distinct (map cat_id rows)" and "nth_parent rows k x = Some r"
  shows "x \<in> fst ` set (descend rows [(r, 1)] [])"
  using assms(2)
proof (induction k arbitrary: x)
  case 0
  then show ?case using descend_closed [of "[(r, 1)]" rows "[]"] by simp
next
  case (Suc k)
  then obtain p where p: "parent_of rows x = Some p" and k: "nth_parent rows k p = Some r"
    by (auto split: option.splits)
  from Suc.IH [OF k] p show ?case
    using descend_closed [of "[(r, 1)]" rows "[]"] parent_of_child [OF d, of x p]
    by auto
qed

text \<open>The ids a branch holds: exactly the root and everything below it, each once.\<close>

lemma branch_ids_iff:
  assumes "distinct (map cat_id rows)"
  shows "x \<in> set (collect_branch_ids rows r) \<longleftrightarrow> (\<exists>k. nth_parent rows k x = Some r)"
proof
  assume "x \<in> set (collect_branch_ids rows r)"
  then obtain h where "(x, h) \<in> set (descend rows [(r, 1)] [])" by (auto simp: collect_branch_ids_def)
  from descend_sound [OF assms this] show "\<exists>k. nth_parent rows k x = Some r" by auto
next
  assume "\<exists>k. nth_parent rows k x = Some r"
  then show "x \<in> set (collect_branch_ids rows r)"
    using descend_complete [OF assms] by (auto simp: collect_branch_ids_def)
qed

lemma distinct_branch_ids: "distinct (collect_branch_ids rows r)"
  by (simp add: collect_branch_ids_def descend_distinct)

section \<open>Assembly of the nested tree\<close>

text \<open>
  The code links node objects through a dictionary and appends each node to its parent's
  \<open>children\<close> in row order, then recurses from the roots. \<open>build_node\<close> reads the
  finished links off the row list; its fuel bounds the depth of that recursion, and a
  chain below a root has no more links than there are rows (\<open>root_chain_short\<close>).
\<close>

datatype category_node =
  CategoryNode (cn_category: category) (cn_object_count: int) (cn_total_object_count: int)
    (cn_children: "category_node list")

primrec build_node :: "nat \<Rightarrow> category list \<Rightarrow> (int \<Rightarrow> int option) \<Rightarrow> category \<Rightarrow> category_node" where
  "build_node 0 rows counts r =
     CategoryNode r (case counts (cat_id r) of Some n \<Rightarrow> n | None \<Rightarrow> 0) 0 []"
| "build_node (Suc fuel) rows counts r =
     CategoryNode r (case counts (cat_id r) of Some n \<Rightarrow> n | None \<Rightarrow> 0) 0
       (map (build_node fuel rows counts) (filter (\<lambda>c. cat_parent_id c = Some (cat_id r)) rows))"

fun roll_up_counts :: "category_node \<Rightarrow> category_node" where
  "roll_up_counts (CategoryNode c n t children) =
     (let children' = map roll_up_counts children
      in CategoryNode c n (n + sum_list (map cn_total_object_count children')) children')"

fun count_category_nodes :: "category_node list \<Rightarrow> int" where
  "count_category_nodes [] = 0"
| "count_category_nodes (CategoryNode c n t children # nodes) =
     1 + count_category_nodes children + count_category_nodes nodes"

definition is_tree_root :: "category list \<Rightarrow> category \<Rightarrow> bool" where
  "is_tree_root rows r \<longleftrightarrow>
     (case cat_parent_id r of None \<Rightarrow> True | Some p \<Rightarrow> cat_get rows p = None)"

definition build_category_tree ::
  "unicode_db \<Rightarrow> category list \<Rightarrow> (int \<Rightarrow> int option) \<Rightarrow> category_node list" where
  "build_category_tree U categories counts =
     (let rows = sort_key (\<lambda>c. uc_lower U (cat_name c)) categories
      in map (\<lambda>r. roll_up_counts (build_node (length rows) rows counts r)) (filter (is_tree_root rows) rows))"

text \<open>The rows of a branch, by id; the counts the branch is charged.\<close>

definition branch_rows :: "category list \<Rightarrow> int \<Rightarrow> category set" where
  "branch_rows rows i = {c \<in> set rows. \<exists>k. nth_parent rows k (cat_id c) = Some i}"

definition direct_count :: "(int \<Rightarrow> int option) \<Rightarrow> category \<Rightarrow> int" where
  "direct_count counts c = (case counts (cat_id c) of Some n \<Rightarrow> n | None \<Rightarrow> 0)"

definition below_root :: "category list \<Rightarrow> nat \<Rightarrow> category \<Rightarrow> bool" where
  "below_root rows d c \<longleftrightarrow> (\<exists>r \<in> set rows. is_tree_root rows r \<and> nth_parent rows d (cat_id c) = Some (cat_id r))"

lemma cat_get_distinct: "distinct (map cat_id rows) \<Longrightarrow> c \<in> set rows \<Longrightarrow> cat_get rows (cat_id c) = Some c"
  by (simp add: cat_get_def tbl_get_distinct)

lemma below_root_ends:
  assumes d: "distinct (map cat_id rows)" and b: "below_root rows k c"
  shows "nth_parent rows (k + 2) (cat_id c) = None"
proof -
  obtain r where r: "r \<in> set rows" "is_tree_root rows r" "nth_parent rows k (cat_id c) = Some (cat_id r)"
    using b by (auto simp: below_root_def)
  have "nth_parent rows 2 (cat_id r) = None"
    using r(2) cat_get_distinct [OF d r(1)]
    by (auto simp: is_tree_root_def parent_of_def numeral_2_eq_2 split: option.splits)
  then show ?thesis using r(3) nth_parent_add [of rows k 2 "cat_id c"] by simp
qed

lemma root_chain_short:
  assumes d: "distinct (map cat_id rows)" and b: "below_root rows k c" and c: "c \<in> set rows"
  shows "k < length rows"
proof -
  let ?f = "\<lambda>j. the (nth_parent rows j (cat_id c))"
  have some: "nth_parent rows j (cat_id c) = Some (?f j)" if "j \<le> k" for j
  proof (rule ccontr)
    assume "nth_parent rows j (cat_id c) \<noteq> Some (?f j)"
    then have "nth_parent rows j (cat_id c) = None" by (cases "nth_parent rows j (cat_id c)") auto
    from nth_parent_None_mono [OF this that] b show False by (auto simp: below_root_def)
  qed
  have "inj_on ?f {..k}"
    by (rule inj_onI) (metis atMost_iff some nth_parent_unique [OF below_root_ends [OF d b]])
  moreover have "?f ` {..k} \<subseteq> cat_id ` set rows"
  proof
    fix y assume "y \<in> ?f ` {..k}"
    then obtain j where j: "j \<le> k" "y = ?f j" by auto
    show "y \<in> cat_id ` set rows"
    proof (cases "j = k")
      case True
      then show ?thesis using b j by (auto simp: below_root_def)
    next
      case False
      then have "nth_parent rows (Suc j) (cat_id c) \<noteq> None"
        using some [of "Suc j"] j by (metis Suc_leI le_neq_implies_less option.distinct(1))
      then have "parent_of rows y \<noteq> None"
        using some [of j] j by (simp add: nth_parent_Suc_end del: nth_parent.simps split: option.splits)
      then obtain e where "cat_get rows y = Some e" by (auto simp: parent_of_def split: option.splits)
      then show ?thesis using cat_get_id by blast
    qed
  qed
  ultimately have "card {..k} \<le> card (cat_id ` set rows)"
    by (meson card_inj_on_le finite_imageI finite_set)
  also have "\<dots> \<le> length rows" by (metis card_length length_map set_map)
  finally show ?thesis by simp
qed

lemma branch_rows_unfold:
  assumes d: "distinct (map cat_id rows)" and r: "r \<in> set rows"
  shows "branch_rows rows (cat_id r) = insert r
    (\<Union>c \<in> set (filter (\<lambda>c. cat_parent_id c = Some (cat_id r)) rows). branch_rows rows (cat_id c))"
proof (intro set_eqI iffI)
  fix x assume "x \<in> branch_rows rows (cat_id r)"
  then obtain k where x: "x \<in> set rows" and k: "nth_parent rows k (cat_id x) = Some (cat_id r)"
    by (auto simp: branch_rows_def)
  show "x \<in> insert r (\<Union>c \<in> set (filter (\<lambda>c. cat_parent_id c = Some (cat_id r)) rows). branch_rows rows (cat_id c))"
  proof (cases k)
    case 0
    then show ?thesis using k x r cat_get_distinct [OF d] by (metis insertI1 nth_parent.simps(1) option.inject)
  next
    case (Suc j)
    then obtain y where y: "nth_parent rows j (cat_id x) = Some y" "parent_of rows y = Some (cat_id r)"
      using k by (auto simp: nth_parent_Suc_end simp del: nth_parent.simps split: option.splits)
    then obtain c where "cat_get rows y = Some c" "cat_parent_id c = Some (cat_id r)"
      by (auto simp: parent_of_def split: option.splits)
    with y x cat_get_id show ?thesis by (fastforce simp: branch_rows_def)
  qed
next
  fix x assume "x \<in> insert r (\<Union>c \<in> set (filter (\<lambda>c. cat_parent_id c = Some (cat_id r)) rows). branch_rows rows (cat_id c))"
  then consider "x = r" | c k where "c \<in> set rows" "cat_parent_id c = Some (cat_id r)" "x \<in> set rows"
      "nth_parent rows k (cat_id x) = Some (cat_id c)" by (auto simp: branch_rows_def)
  then show "x \<in> branch_rows rows (cat_id r)"
  proof cases
    case 1
    then show ?thesis using r by (auto simp: branch_rows_def intro: exI [of _ "0::nat"])
  next
    case 2
    then have "nth_parent rows (Suc k) (cat_id x) = Some (cat_id r)"
      using cat_get_distinct [OF d \<open>c \<in> set rows\<close>]
      by (simp add: nth_parent_Suc_end parent_of_def del: nth_parent.simps)
    with 2 show ?thesis unfolding branch_rows_def by blast
  qed
qed

lemma branch_rows_disjoint:
  assumes d: "distinct (map cat_id rows)" and e: "nth_parent rows m (cat_id r) = None"
    and a: "parent_of rows i = Some (cat_id r)" "parent_of rows j = Some (cat_id r)" and ne: "i \<noteq> j"
  shows "branch_rows rows i \<inter> branch_rows rows j = {}"
proof (rule ccontr)
  assume "branch_rows rows i \<inter> branch_rows rows j \<noteq> {}"
  then obtain x :: category and k l where x: "nth_parent rows k (cat_id x) = Some i" "nth_parent rows l (cat_id x) = Some j"
    by (auto simp: branch_rows_def)
  then have s: "nth_parent rows (Suc k) (cat_id x) = Some (cat_id r)"
    "nth_parent rows (Suc l) (cat_id x) = Some (cat_id r)"
    using a by (simp_all add: nth_parent_Suc_end del: nth_parent.simps)
  have "nth_parent rows (Suc k + m) (cat_id x) = None"
    using s(1) e by (simp only: nth_parent_add option.simps)
  from nth_parent_unique [OF this s] x ne show False by simp
qed

lemma sum_list_children:
  fixes f :: "category \<Rightarrow> int"
  assumes "distinct (map cat_id cs)"
    and "\<And>c. c \<in> set cs \<Longrightarrow> finite (B c)"
    and "\<And>c c'. c \<in> set cs \<Longrightarrow> c' \<in> set cs \<Longrightarrow> cat_id c \<noteq> cat_id c' \<Longrightarrow> B c \<inter> B c' = {}"
  shows "(\<Sum>c\<leftarrow>cs. sum f (B c)) = sum f (\<Union>c \<in> set cs. B c)"
  using assms
proof (induction cs)
  case (Cons c cs)
  have "B c \<inter> (\<Union>c \<in> set cs. B c) = {}" using Cons.prems by force
  then have "sum f (B c \<union> (\<Union>c \<in> set cs. B c)) = sum f (B c) + sum f (\<Union>c \<in> set cs. B c)"
    using Cons.prems(2) by (intro sum.union_disjoint) auto
  with Cons show ?case by simp
qed simp

lemma distinct_filter_ids: "distinct (map cat_id rows) \<Longrightarrow> distinct (map cat_id (filter P rows))"
  by (simp add: distinct_map_filter)

lemma below_root_child:
  assumes d: "distinct (map cat_id rows)" and r: "below_root rows k r" and c: "c \<in> set rows"
    and p: "cat_parent_id c = Some (cat_id r)"
  shows "below_root rows (Suc k) c"
  using r p cat_get_distinct [OF d c] by (auto simp: below_root_def parent_of_def)

text \<open>
  One induction serves every figure a node carries: any \<open>g\<close> that adds a constant of the
  row to the sum over the children sums that constant over the whole branch.
\<close>

lemma branch_sum:
  fixes f :: "category \<Rightarrow> int"
  assumes d: "distinct (map cat_id rows)"
    and g: "\<And>n r. g (build_node n rows counts r) =
      f r + (\<Sum>x\<leftarrow>cn_children (build_node n rows counts r). g x)"
  shows "below_root rows k r \<Longrightarrow> r \<in> set rows \<Longrightarrow> length rows \<le> n + k \<Longrightarrow>
    g (build_node n rows counts r) = sum f (branch_rows rows (cat_id r))"
proof (induction n arbitrary: k r)
  case 0
  with root_chain_short [OF d 0(1,2)] show ?case by simp
next
  case (Suc n)
  let ?cs = "filter (\<lambda>c. cat_parent_id c = Some (cat_id r)) rows"
  have end_: "nth_parent rows (k + 2) (cat_id r) = None" by (rule below_root_ends [OF d Suc.prems(1)])
  have par: "parent_of rows (cat_id c) = Some (cat_id r)" if "c \<in> set ?cs" for c
    using that cat_get_distinct [OF d, of c] by (auto simp: parent_of_def)
  have fin: "finite (branch_rows rows i)" for i by (simp add: branch_rows_def)
  have each: "g (build_node n rows counts c) = sum f (branch_rows rows (cat_id c))" if c: "c \<in> set ?cs" for c
    by (rule Suc.IH [of "Suc k"]) (use c Suc.prems below_root_child [OF d Suc.prems(1)] in auto)
  have not_in: "r \<notin> (\<Union>c \<in> set ?cs. branch_rows rows (cat_id c))"
  proof
    assume "r \<in> (\<Union>c \<in> set ?cs. branch_rows rows (cat_id c))"
    then obtain c j where c: "c \<in> set ?cs" and j: "nth_parent rows j (cat_id r) = Some (cat_id c)"
      by (auto simp: branch_rows_def)
    have "nth_parent rows (Suc j) (cat_id r) = Some (cat_id r)"
      using j par [OF c] by (simp add: nth_parent_Suc_end del: nth_parent.simps)
    from nth_parent_cycle [OF this, of "k + 2"] end_ show False by simp
  qed
  have "g (build_node (Suc n) rows counts r) = f r + (\<Sum>c\<leftarrow>?cs. g (build_node n rows counts c))"
    unfolding g [of "Suc n" r] by (simp add: comp_def)
  also have "(\<Sum>c\<leftarrow>?cs. g (build_node n rows counts c)) = (\<Sum>c\<leftarrow>?cs. sum f (branch_rows rows (cat_id c)))"
    using each by (metis (mono_tags, lifting) map_cong)
  also have "\<dots> = sum f (\<Union>c \<in> set ?cs. branch_rows rows (cat_id c))"
  proof (rule sum_list_children [OF distinct_filter_ids [OF d]])
    show "branch_rows rows (cat_id c) \<inter> branch_rows rows (cat_id c') = {}"
      if "c \<in> set ?cs" "c' \<in> set ?cs" "cat_id c \<noteq> cat_id c'" for c c'
      by (rule branch_rows_disjoint [OF d end_ par [OF that(1)] par [OF that(2)] that(3)])
  qed (rule fin)
  also have "f r + sum f (\<Union>c \<in> set ?cs. branch_rows rows (cat_id c)) =
      sum f (insert r (\<Union>c \<in> set ?cs. branch_rows rows (cat_id c)))"
    by (rule sum.insert [symmetric]) (use not_in fin in auto)
  also have "insert r (\<Union>c \<in> set ?cs. branch_rows rows (cat_id c)) = branch_rows rows (cat_id r)"
    by (rule branch_rows_unfold [OF d Suc.prems(2), symmetric])
  finally show ?case .
qed

lemma rolled_total:
  "cn_total_object_count (roll_up_counts (build_node n rows counts r)) = direct_count counts r +
     (\<Sum>x\<leftarrow>cn_children (build_node n rows counts r). cn_total_object_count (roll_up_counts x))"
  by (cases n) (auto simp: direct_count_def Let_def comp_def split: option.splits)

lemma count_nodes_sum: "count_category_nodes ns = (\<Sum>x\<leftarrow>ns. count_category_nodes [x])"
proof (induction ns)
  case (Cons n ns)
  then show ?case by (cases n) simp
qed simp

lemma count_rolled: "count_category_nodes [roll_up_counts x] = count_category_nodes [x]"
proof (induction x)
  case (CategoryNode c n t ch)
  have "(\<Sum>x\<leftarrow>ch. count_category_nodes [roll_up_counts x]) = (\<Sum>x\<leftarrow>ch. count_category_nodes [x])"
    by (rule arg_cong [of _ _ sum_list], rule map_cong [OF refl]) (rule CategoryNode)
  then show ?case
    by (simp add: Let_def count_nodes_sum [of "map roll_up_counts ch"] count_nodes_sum [of ch] comp_def)
qed

lemma built_count:
  "count_category_nodes [build_node n rows counts r] = 1 +
     (\<Sum>x\<leftarrow>cn_children (build_node n rows counts r). count_category_nodes [x])"
  by (cases n) (simp_all add: comp_def count_nodes_sum [of "map _ _"])

lemma cat_get_same_rows:
  assumes "distinct (map cat_id rows)" "distinct (map cat_id rows')" "set rows' = set rows"
  shows "cat_get rows' i = cat_get rows i"
proof (cases "cat_get rows i")
  case None
  then show ?thesis using assms(3) unfolding cat_get_def by (metis tbl_get_None)
next
  case (Some c)
  then show ?thesis using cat_get_id [OF Some] assms(3) cat_get_distinct [OF assms(2), of c] by simp
qed

lemma nth_parent_same_rows:
  assumes "\<And>i. cat_get rows' i = cat_get rows i"
  shows "nth_parent rows' n i = nth_parent rows n i"
  by (induction n arbitrary: i) (simp_all add: parent_of_def assms split: option.splits)

text \<open>All nodes of a tree, at every depth.\<close>

primrec tree_nodes :: "category_node \<Rightarrow> category_node list" where
  "tree_nodes (CategoryNode c n t children) = CategoryNode c n t children # concat (map tree_nodes children)"

lemma rolled_category [simp]: "cn_category (roll_up_counts x) = cn_category x" "cn_object_count (roll_up_counts x) = cn_object_count x"
  by (cases x; simp add: Let_def)+

lemma rolled_children: "cn_children (roll_up_counts x) = map roll_up_counts (cn_children x)"
  by (cases x) (simp add: Let_def)

lemma tree_nodes_unfold: "tree_nodes x = x # concat (map tree_nodes (cn_children x))"
  by (cases x) simp

lemma built_category [simp]: "cn_category (build_node n rows counts r) = r" "cn_object_count (build_node n rows counts r) = direct_count counts r"
  by (cases n; simp add: direct_count_def split: option.split)+

lemma count_nodes_length: "count_category_nodes ts = int (length (concat (map tree_nodes ts)))"
  by (induction ts rule: count_category_nodes.induct) simp_all

lemma count_list_concat: "int (count_list (concat xss) x) = (\<Sum>xs\<leftarrow>xss. int (count_list xs x))"
  by (induction xss) simp_all

text \<open>Every node of an assembled tree is the rolled-up node of a row, built with enough fuel.\<close>

lemma rolled_nodes:
  assumes d: "distinct (map cat_id rows)"
  shows "below_root rows k r \<Longrightarrow> r \<in> set rows \<Longrightarrow> length rows \<le> n + k \<Longrightarrow>
    node \<in> set (tree_nodes (roll_up_counts (build_node n rows counts r))) \<Longrightarrow>
    \<exists>m j c. node = roll_up_counts (build_node (Suc m) rows counts c) \<and> c \<in> set rows \<and> below_root rows j c \<and>
      length rows \<le> Suc m + j"
proof (induction n arbitrary: k r)
  case 0
  with root_chain_short [OF d 0(1,2)] show ?case by simp
next
  case (Suc n)
  show ?case
  proof (cases "node = roll_up_counts (build_node (Suc n) rows counts r)")
    case False
    with Suc.prems(4) obtain c where c: "c \<in> set rows" "cat_parent_id c = Some (cat_id r)"
      and node: "node \<in> set (tree_nodes (roll_up_counts (build_node n rows counts c)))"
      by (subst (asm) tree_nodes_unfold) (auto simp: rolled_children)
    show ?thesis
      by (rule Suc.IH [of "Suc k", OF below_root_child [OF d Suc.prems(1) c] c(1) _ node]) (use Suc.prems in simp)
  qed (use Suc.prems in blast)
qed

lemma rolled_count:
  fixes counts :: "int \<Rightarrow> int option"
  shows "int (count_list (map cn_category (tree_nodes (roll_up_counts (build_node n rows counts r)))) x) =
    of_bool (r = x) + (\<Sum>y\<leftarrow>cn_children (build_node n rows counts r).
      int (count_list (map cn_category (tree_nodes (roll_up_counts y))) x))"
  by (subst tree_nodes_unfold) (simp add: rolled_children map_concat count_list_concat comp_def)

text \<open>A root is below no other row, so the branches of the roots are disjoint.\<close>

lemma root_on_top:
  assumes "is_tree_root rows r" "distinct (map cat_id rows)" "r \<in> set rows" "r' \<in> set rows"
    and "nth_parent rows m (cat_id r) = Some (cat_id r')"
  shows "m = 0"
proof (rule ccontr)
  assume "m \<noteq> 0"
  then obtain n where "m = Suc n" using not0_implies_Suc by blast
  with assms(1,5) cat_get_distinct [OF assms(2,3)] obtain p where p: "cat_get rows p = None" "nth_parent rows n p = Some (cat_id r')"
    by (auto simp: parent_of_def is_tree_root_def split: option.splits)
  then have "n = 0 \<and> p = cat_id r'" by (cases n) (auto simp: parent_of_def)
  with p(1) cat_get_distinct [OF assms(2,4)] show False by simp
qed

lemma root_branches_disjoint:
  assumes d: "distinct (map cat_id rows)" and r: "r \<in> set rows" "is_tree_root rows r" and r': "r' \<in> set rows" "is_tree_root rows r'"
    and ne: "cat_id r \<noteq> cat_id r'"
  shows "branch_rows rows (cat_id r) \<inter> branch_rows rows (cat_id r') = {}"
proof (rule ccontr)
  have no: False if "k \<le> l" "nth_parent rows k (cat_id x) = Some (cat_id a)" "nth_parent rows l (cat_id x) = Some (cat_id b)"
    "a \<in> set rows" "is_tree_root rows a" "b \<in> set rows" "cat_id a \<noteq> cat_id b" for k l a b and x :: category
  proof -
    from that(1-3) have "nth_parent rows (l - k) (cat_id a) = Some (cat_id b)"
      using nth_parent_add [of rows k "l - k" "cat_id x"] by simp
    from root_on_top [OF that(5) d that(4,6) this] this that(7) show False by simp
  qed
  assume "branch_rows rows (cat_id r) \<inter> branch_rows rows (cat_id r') \<noteq> {}"
  then obtain x :: category and k l where x: "nth_parent rows k (cat_id x) = Some (cat_id r)" "nth_parent rows l (cat_id x) = Some (cat_id r')"
    by (auto simp: branch_rows_def)
  show False
  proof (cases "k \<le> l")
    case True
    then show ?thesis using no x r r' ne by blast
  next
    case False
    then have "l \<le> k" by simp
    then show ?thesis using no x r r' ne by metis
  qed
qed

lemma root_branches: "(\<Union>r \<in> set (filter (is_tree_root rows) rows). branch_rows rows (cat_id r)) = {c \<in> set rows. \<exists>k. below_root rows k c}"
  by (auto simp: branch_rows_def below_root_def)

text \<open>Each row with a root above it, or that is one, has one node.\<close>

lemma forest_rows_once:
  assumes d: "distinct (map cat_id rows)" and x: "x \<in> set rows"
  shows "int (count_list (map cn_category (concat (map (\<lambda>r. tree_nodes (roll_up_counts (build_node (length rows) rows counts r)))
    (filter (is_tree_root rows) rows)))) x) = of_bool (\<exists>k. below_root rows k x)" (is "int (count_list (map _ (concat (map ?nodes ?roots))) x) = _")
proof -
  have fin: "finite (branch_rows rows i)" for i by (simp add: branch_rows_def)
  have one: "int (count_list (map cn_category (?nodes r)) x) = (\<Sum>c \<in> branch_rows rows (cat_id r). of_bool (c = x))"
    if "r \<in> set ?roots" for r
    by (rule branch_sum [OF d rolled_count, of 0 r "length rows"]) (use that in \<open>auto simp: below_root_def\<close>)
  have "int (count_list (map cn_category (concat (map ?nodes ?roots))) x) = (\<Sum>r\<leftarrow>?roots. int (count_list (map cn_category (?nodes r)) x))"
    by (simp add: map_concat count_list_concat comp_def)
  also have "\<dots> = (\<Sum>r\<leftarrow>?roots. \<Sum>c \<in> branch_rows rows (cat_id r). of_bool (c = x))"
    using one by (metis (mono_tags, lifting) map_cong)
  also have "\<dots> = (\<Sum>c \<in> (\<Union>r \<in> set ?roots. branch_rows rows (cat_id r)). of_bool (c = x))"
  proof (rule sum_list_children [OF distinct_filter_ids [OF d] fin])
    show "branch_rows rows (cat_id r) \<inter> branch_rows rows (cat_id r') = {}"
      if "r \<in> set ?roots" "r' \<in> set ?roots" "cat_id r \<noteq> cat_id r'" for r r'
      using root_branches_disjoint [OF d _ _ _ _ that(3)] that(1,2) by simp
  qed
  also have "\<dots> = of_bool (\<exists>k. below_root rows k x)"
    unfolding root_branches using x by (simp add: of_bool_def)
  finally show ?thesis .
qed

text \<open>
  C31. The tree endpoint's assembly. The roots are the rows whose parent is not in the set,
  in name order, and the children of every node are its row's children, in name order. At
  every node, at every depth, the count is the row's own filing count, the rolled-up total is
  the sum of the filing counts over exactly the rows of its branch, and the number of nodes
  is the size of that branch. Each row that is or lies below a root has exactly one node; a
  row has none only when its chain of parents never ends, that is on or below a corrupt
  cycle. The total sums filings: where the field is documented as a number of distinct
  objects the two differ (\<open>total_counts_filings_not_objects\<close>).
\<close>

theorem category_tree_totals:
  assumes d: "distinct (map cat_id rows)"
  shows "let in_order = sort_key (\<lambda>c. uc_lower U (cat_name c)) rows; tree = build_category_tree U rows counts;
       nodes = concat (map tree_nodes tree) in
    map cn_category tree = filter (is_tree_root rows) in_order \<and>
    (\<forall>node \<in> set nodes.
       map cn_category (cn_children node) = filter (\<lambda>c. cat_parent_id c = Some (cat_id (cn_category node))) in_order \<and>
       cn_object_count node = direct_count counts (cn_category node) \<and>
       cn_total_object_count node = (\<Sum>c \<in> branch_rows rows (cat_id (cn_category node)). direct_count counts c) \<and>
       count_category_nodes [node] = int (card (branch_rows rows (cat_id (cn_category node))))) \<and>
    (\<forall>c \<in> set rows. count_list (map cn_category nodes) c = (if \<exists>k. below_root rows k c then 1 else 0)) \<and>
    count_category_nodes tree = int (length nodes)"
proof -
  let ?s = "sort_key (\<lambda>c. uc_lower U (cat_name c)) rows"
  let ?build = "\<lambda>r. roll_up_counts (build_node (length ?s) ?s counts r)"
  let ?tree = "build_category_tree U rows counts" let ?nodes = "concat (map tree_nodes ?tree)"
  have ds: "distinct (map cat_id ?s)"
    using d by (metis distinct_map distinct_sort set_sort)
  have same: "cat_get ?s i = cat_get rows i" for i
    by (rule cat_get_same_rows [OF d ds]) simp
  have root: "is_tree_root ?s = is_tree_root rows"
    by (rule ext) (simp add: is_tree_root_def same split: option.splits)
  have br: "branch_rows ?s i = branch_rows rows i" for i
    by (simp add: branch_rows_def nth_parent_same_rows [OF same])
  have below: "below_root ?s k c = below_root rows k c" for k c
    by (simp add: below_root_def root nth_parent_same_rows [OF same])
  have tree: "?tree = map ?build (filter (is_tree_root ?s) ?s)"
    by (simp add: build_category_tree_def Let_def)
  have figures: "map cn_category (cn_children node) = filter (\<lambda>c. cat_parent_id c = Some (cat_id (cn_category node))) ?s \<and>
       cn_object_count node = direct_count counts (cn_category node) \<and>
       cn_total_object_count node = (\<Sum>c \<in> branch_rows rows (cat_id (cn_category node)). direct_count counts c) \<and>
       count_category_nodes [node] = int (card (branch_rows rows (cat_id (cn_category node))))"
    if node: "node \<in> set ?nodes" for node
  proof -
    from node obtain r where "r \<in> set ?s" "is_tree_root ?s r" "node \<in> set (tree_nodes (?build r))" by (auto simp: tree)
    with rolled_nodes [OF ds, of 0 r "length ?s" node counts] obtain m j c where
      c: "node = roll_up_counts (build_node (Suc m) ?s counts c)" "c \<in> set ?s" "below_root ?s j c" "length ?s \<le> Suc m + j"
      by (auto simp: below_root_def)
    have "cn_total_object_count node = sum (direct_count counts) (branch_rows ?s (cat_id c))"
      unfolding c(1) by (rule branch_sum [OF ds rolled_total c(3,2,4)])
    moreover have "count_category_nodes [node] = sum (\<lambda>_. 1) (branch_rows ?s (cat_id c))"
      unfolding c(1) count_rolled by (rule branch_sum [OF ds built_count c(3,2,4)])
    moreover have "map cn_category (cn_children node) = filter (\<lambda>x. cat_parent_id x = Some (cat_id c)) ?s"
      unfolding c(1) by (simp add: rolled_children comp_def)
    moreover have "cn_category node = c" "cn_object_count node = direct_count counts c"
      unfolding c(1) by (simp_all only: rolled_category built_category)
    ultimately show ?thesis by (simp add: br)
  qed
  have once: "count_list (map cn_category ?nodes) c = (if \<exists>k. below_root rows k c then 1 else 0)" if "c \<in> set rows" for c
  proof -
    have "int (count_list (map cn_category ?nodes) c) = of_bool (\<exists>k. below_root rows k c)"
      using forest_rows_once [OF ds, of c counts] that by (simp add: tree comp_def below)
    then show ?thesis by (auto simp: of_bool_def split: if_splits)
  qed
  have "map cn_category ?tree = filter (is_tree_root rows) ?s" by (simp add: tree comp_def root)
  with figures once show ?thesis unfolding Let_def by (simp add: count_nodes_length)
qed

definition demo_cat :: "int \<Rightarrow> string \<Rightarrow> int option \<Rightarrow> category" where
  "demo_cat i n p = \<lparr>cat_id = i, cat_name = u n, cat_slug = u n, cat_parent_id = p,
     cat_owner_id = 1, cat_tenant_id = None\<rparr>"

lemma demo_cat_simps [simp]:
  "cat_id (demo_cat i n p) = i" "cat_parent_id (demo_cat i n p) = p" "cat_slug (demo_cat i n p) = u n"
  "cat_name (demo_cat i n p) = u n" "cat_owner_id (demo_cat i n p) = 1" "cat_tenant_id (demo_cat i n p) = None"
  by (simp_all add: demo_cat_def)

text \<open>Three levels: the middle node reports its own branch, the root everything.\<close>

theorem category_tree_totals_witness:
  "let U = \<lparr>uc_nfc = id, uc_other = (\<lambda>_. False), uc_lower = id\<rparr>;
       rows = [demo_cat 3 ''c'' (Some 2), demo_cat 2 ''b'' (Some 1), demo_cat 1 ''a'' None];
       nodes = concat (map tree_nodes (build_category_tree U rows [1 \<mapsto> 1, 2 \<mapsto> 2, 3 \<mapsto> 4])) in
     map (\<lambda>x. (cat_id (cn_category x), cn_total_object_count x)) nodes = [(1, 7), (2, 6), (3, 4)] \<and>
     (\<forall>x \<in> set nodes. count_category_nodes [x] = int (card (branch_rows rows (cat_id (cn_category x)))))"
proof -
  let ?U = "\<lparr>uc_nfc = id, uc_other = (\<lambda>_. False), uc_lower = id\<rparr>"
  let ?rows = "[demo_cat 3 ''c'' (Some 2), demo_cat 2 ''b'' (Some 1), demo_cat 1 ''a'' None]"
  let ?nodes = "concat (map tree_nodes (build_category_tree ?U ?rows [1 \<mapsto> 1, 2 \<mapsto> 2, 3 \<mapsto> 4]))"
  have "distinct (map cat_id ?rows)" by simp
  from category_tree_totals [OF this, of ?U "[1 \<mapsto> 1, 2 \<mapsto> 2, 3 \<mapsto> 4]"]
  have "\<forall>x \<in> set ?nodes. count_category_nodes [x] = int (card (branch_rows ?rows (cat_id (cn_category x))))"
    unfolding Let_def by blast
  moreover have "map (\<lambda>x. (cat_id (cn_category x), cn_total_object_count x)) ?nodes = [(1, 7), (2, 6), (3, 4)]"
    by (simp add: build_category_tree_def u_def is_tree_root_def cat_get_def Let_def eval_nat_numeral)
  ultimately show ?thesis unfolding Let_def by blast
qed

text \<open>
  The figure sums filings, not distinct objects: one object filed on a parent and on its
  child is counted twice in the parent's total.
\<close>

lemma total_counts_filings_not_objects:
  "map cn_total_object_count
     (build_category_tree \<lparr>uc_nfc = id, uc_other = (\<lambda>_. False), uc_lower = id\<rparr>
        [demo_cat 1 ''a'' None, demo_cat 2 ''b'' (Some 1)] [1 \<mapsto> 1, 2 \<mapsto> 1]) = [2]"
  by (simp add: build_category_tree_def u_def is_tree_root_def cat_get_def Let_def numeral_2_eq_2)

section \<open>Slug paths\<close>

definition path_segments :: "category list \<Rightarrow> category \<Rightarrow> ustr list" where
  "path_segments rows r = rev (map cat_slug (r # climb rows (cat_parent_id r) [cat_id r]))"

definition resolve_category_paths :: "category list \<Rightarrow> (int \<times> ustr) list" where
  "resolve_category_paths rows = map (\<lambda>r. (cat_id r, join_with 47 (path_segments rows r))) rows"

record category_ref =
  cr_id :: int
  cr_name :: ustr
  cr_path :: ustr

definition category_refs :: "category list \<Rightarrow> category list \<Rightarrow> category_ref list" where
  "category_refs categories scope_rows =
     (let paths = resolve_category_paths scope_rows
      in map (\<lambda>c. \<lparr>cr_id = cat_id c, cr_name = cat_name c,
           cr_path = (case map_of paths (cat_id c) of Some p \<Rightarrow> p | None \<Rightarrow> cat_slug c)\<rparr>) categories)"

lemma map_of_keyed:
  "distinct (map key rows) \<Longrightarrow> r \<in> set rows \<Longrightarrow> map_of (map (\<lambda>r. (key r, f r)) rows) (key r) = Some (f r)"
  by (induction rows) (auto simp: rev_image_eqI)

lemma map_of_paths:
  "distinct (map cat_id rows) \<Longrightarrow> r \<in> set rows \<Longrightarrow>
     map_of (resolve_category_paths rows) (cat_id r) = Some (join_with 47 (path_segments rows r))"
  unfolding resolve_category_paths_def by (rule map_of_keyed)

end
