(* ===== verification/Categories.thy ===== *)
theory Categories
  imports CategoryTree
begin

text \<open>
  \<open>controllers/category.py\<close>: the tenant/owner scope, the guards of the hierarchy (scope of
  a parent, cycles, depth, sibling slugs), the filing resolvers and the CRUD surface. The
  table's rows are \<open>db_categories\<close>, an INSERT takes the next id, and every commit
  succeeds. \<open>slugify\<close> is a third-party function: requests carry the slug it produced.
  The invariant of the component is \<open>categories_wf\<close>; \<open>scope_gate\<close> is the interface
  between a scoped query and the row-level permission check.
\<close>

section \<open>Scope\<close>

text \<open>The statement \<open>_scoped_query\<close> builds, run over the table.\<close>

definition scoped_categories :: "principal \<Rightarrow> category list \<Rightarrow> category list" where
  "scoped_categories p rows =
     (if p_superuser p then rows
      else case user_tenant_id p of
        Some t \<Rightarrow> filter (\<lambda>c. cat_tenant_id c = Some t) rows
      | None \<Rightarrow> filter (\<lambda>c. cat_owner_id c = p_id p \<and> cat_tenant_id c = None) rows)"

definition in_scope :: "principal \<Rightarrow> category \<Rightarrow> bool" where
  "in_scope p row =
     (if p_superuser p then True
      else case user_tenant_id p of
        Some t \<Rightarrow> cat_tenant_id row = Some t
      | None \<Rightarrow> cat_tenant_id row = None \<and> cat_owner_id row = p_id p)"

definition scope_key :: "uuid option \<Rightarrow> uuid \<Rightarrow> uuid option \<times> uuid option" where
  "scope_key tenant owner = (case tenant of Some t \<Rightarrow> (Some t, None) | None \<Rightarrow> (None, Some owner))"

text \<open>
  A listing and a row check that agree. Narrowing a listing afterwards can only subtract,
  and a row that is loaded by id and allowed is one the listing shows.
\<close>

locale scope_gate =
  fixes listing :: "'p \<Rightarrow> 'r list \<Rightarrow> 'r list"
    and allows :: "'p \<Rightarrow> 'r \<Rightarrow> bool"
  assumes listing_iff: "r \<in> set (listing p rows) \<longleftrightarrow> r \<in> set rows \<and> allows p r"
begin

lemma narrowing_subtracts: "r \<in> set (filter Q (listing p rows)) \<Longrightarrow> allows p r \<and> r \<in> set rows"
  by (simp add: listing_iff)

lemma hidden_row: "r \<in> set rows \<Longrightarrow> r \<notin> set (listing p rows) \<Longrightarrow> \<not> allows p r"
  by (simp add: listing_iff)

lemma found_key_allowed:
  assumes "distinct (map key rows)" and "r \<in> set rows"
  shows "key r \<in> key ` set (listing p rows) \<longleftrightarrow> allows p r"
proof
  assume "key r \<in> key ` set (listing p rows)"
  then obtain r' where "r' \<in> set (listing p rows)" and k: "key r = key r'" by blast
  then have r': "r' \<in> set rows" "allows p r'" by (simp_all add: listing_iff)
  have "r = r'" using inj_onD [OF distinct_map [THEN iffD1, OF assms(1), THEN conjunct2] k assms(2) r'(1)] .
  with r' show "allows p r" by simp
qed (use assms(2) in \<open>simp add: listing_iff\<close>)

end

interpretation cat_scope: scope_gate scoped_categories in_scope
  by unfold_locales (auto simp: scoped_categories_def in_scope_def split: option.splits)

definition load_category :: "database \<Rightarrow> principal \<Rightarrow> int \<Rightarrow> category result" where
  "load_category db p category_id =
     (case cat_get (db_categories db) category_id of
        None \<Rightarrow> Inl (Http 404 (DText ''Category not found.''))
      | Some row \<Rightarrow>
          if \<not> in_scope p row then Inl (Http 403 (DText ''Not enough permissions.'')) else Inr row)"

definition load_parent ::
  "database \<Rightarrow> principal \<Rightarrow> int \<Rightarrow> uuid option \<Rightarrow> uuid \<Rightarrow> category result" where
  "load_parent db p parent_id tenant owner =
     (case cat_get (db_categories db) parent_id of
        None \<Rightarrow> Inl (Http 404 (DText ''Parent category not found.''))
      | Some parent \<Rightarrow>
          if \<not> in_scope p parent then Inl (Http 403 (DText ''Not enough permissions.''))
          else if scope_key (cat_tenant_id parent) (cat_owner_id parent) \<noteq> scope_key tenant owner
          then Inl (Http 409 (DText ''Parent category belongs to another tenant.''))
          else Inr parent)"

section \<open>Hierarchy guards\<close>

text \<open>The ancestor walk of \<open>_reject_cycle\<close>; \<open>True\<close> is the refusal.\<close>

function meets :: "category list \<Rightarrow> int \<Rightarrow> int option \<Rightarrow> int list \<Rightarrow> bool" where
  "meets rows category_id None seen = False"
| "meets rows category_id (Some a) seen =
     (if a = category_id then True
      else if a \<in> set seen then False
      else (case cat_get rows a of
              None \<Rightarrow> False
            | Some ancestor \<Rightarrow> meets rows category_id (cat_parent_id ancestor) (a # seen)))"
  by pat_completeness auto

termination meets
proof (relation "measure (\<lambda>(rows, c, s, seen). card (cat_id ` set rows - set seen))")
  fix rows :: "category list" and c i :: int and seen :: "int list" and r :: category
  assume "cat_get rows i = Some r" and "i \<notin> set seen"
  then have "i \<in> cat_id ` set rows - set seen" using cat_get_id by blast
  then have "card (cat_id ` set rows - set (i # seen)) < card (cat_id ` set rows - set seen)"
    by (intro psubset_card_mono) auto
  then show "((rows, c, cat_parent_id r, i # seen), rows, c, Some i, seen)
      \<in> measure (\<lambda>(rows, c, s, seen). card (cat_id ` set rows - set seen))" by simp
qed simp

definition reject_cycle :: "database \<Rightarrow> int \<Rightarrow> int \<Rightarrow> unit result" where
  "reject_cycle db category_id parent_id =
     (if meets (db_categories db) category_id (Some parent_id) []
      then Inl (Http 409 (DText ''A category cannot be nested under itself or its descendants.''))
      else Inr ())"

definition in_write_scope :: "uuid option \<Rightarrow> uuid \<Rightarrow> category \<Rightarrow> bool" where
  "in_write_scope tenant owner c =
     (case tenant of
        Some t \<Rightarrow> cat_tenant_id c = Some t
      | None \<Rightarrow> cat_tenant_id c = None \<and> cat_owner_id c = owner)"

definition categories_in_write_scope :: "database \<Rightarrow> uuid option \<Rightarrow> uuid \<Rightarrow> category list" where
  "categories_in_write_scope db tenant owner = filter (in_write_scope tenant owner) (db_categories db)"

definition branch_height :: "category list \<Rightarrow> int \<Rightarrow> nat" where
  "branch_height rows category_id = fold max (map snd (descend rows [(category_id, 1)] [])) 1"

definition reject_depth_overflow ::
  "settings \<Rightarrow> database \<Rightarrow> uuid option \<Rightarrow> uuid \<Rightarrow> int option \<Rightarrow> int option \<Rightarrow> unit result" where
  "reject_depth_overflow cfg db tenant owner parent_id category_id =
     (let rows = categories_in_write_scope db tenant owner;
          parent_depth = length (climb rows parent_id []);
          height = (case category_id of None \<Rightarrow> 1 | Some c \<Rightarrow> branch_height rows c)
      in if int (parent_depth + height) > MEDIA_IMPORT_MAX_CATEGORY_DEPTH cfg
         then Inl (Http 409 (DTextU (u ''Category tree cannot exceed '' @
                str_int (MEDIA_IMPORT_MAX_CATEGORY_DEPTH cfg) @ u '' levels.'')))
         else Inr ())"

definition sibling_with_slug ::
  "database \<Rightarrow> ustr \<Rightarrow> int option \<Rightarrow> uuid option \<Rightarrow> uuid \<Rightarrow> int option \<Rightarrow> category option" where
  "sibling_with_slug db slug parent_id tenant owner exclude_id =
     find (\<lambda>c. cat_slug c = slug \<and> in_write_scope tenant owner c \<and> cat_parent_id c = parent_id \<and>
            (case exclude_id of None \<Rightarrow> True | Some i \<Rightarrow> cat_id c \<noteq> i)) (db_categories db)"

definition reject_duplicate_slug ::
  "database \<Rightarrow> ustr \<Rightarrow> int option \<Rightarrow> uuid option \<Rightarrow> uuid \<Rightarrow> int option \<Rightarrow> unit result" where
  "reject_duplicate_slug db slug parent_id tenant owner exclude_id =
     (if sibling_with_slug db slug parent_id tenant owner exclude_id \<noteq> None
      then Inl (Http 409 (DText ''A sibling category already uses this name.''))
      else Inr ())"

section \<open>Growing the tree\<close>

definition insert_category ::
  "database \<Rightarrow> ustr \<Rightarrow> ustr \<Rightarrow> int option \<Rightarrow> uuid \<Rightarrow> uuid option \<Rightarrow> category \<times> database" where
  "insert_category db name slug parent_id owner tenant =
     (let row = \<lparr>cat_id = db_next_category db, cat_name = name, cat_slug = slug,
                 cat_parent_id = parent_id, cat_owner_id = owner, cat_tenant_id = tenant\<rparr>
      in (row, db\<lparr>db_categories := db_categories db @ [row],
                  db_next_category := db_next_category db + 1\<rparr>))"

fun ensure_from ::
  "database \<Rightarrow> principal \<Rightarrow> (ustr \<times> ustr) list \<Rightarrow> category option \<Rightarrow> nat \<Rightarrow>
   category option \<times> nat \<times> database" where
  "ensure_from db p [] parent created = (parent, created, db)"
| "ensure_from db p ((name, slug) # segments) parent created =
     (let parent_id = map_option cat_id parent
      in case sibling_with_slug db slug parent_id (user_tenant_id p) (p_id p) None of
           Some row \<Rightarrow> ensure_from db p segments (Some row) created
         | None \<Rightarrow>
             (let (row, db') = insert_category db name slug parent_id (p_id p) (user_tenant_id p)
              in ensure_from db' p segments (Some row) (created + 1)))"

definition ensure_category_path ::
  "database \<Rightarrow> principal \<Rightarrow> (ustr \<times> ustr) list \<Rightarrow> (category \<times> nat) result \<times> database" where
  "ensure_category_path db p segments =
     (case ensure_from db p segments None 0 of
        (Some row, created, db') \<Rightarrow> (Inr (row, created), db')
      | (None, created, db') \<Rightarrow> (Inl (Raised ''ValueError''), db'))"

section \<open>Filing resolvers\<close>

definition unique_ids :: "int list \<Rightarrow> int list" where
  "unique_ids category_ids = dedup category_ids"

fun load_missing :: "database \<Rightarrow> principal \<Rightarrow> category list \<Rightarrow> int list \<Rightarrow> category list result" where
  "load_missing db p found [] = Inr []"
| "load_missing db p found (i # is) =
     (case (case cat_get found i of Some c \<Rightarrow> Inr c | None \<Rightarrow> load_category db p i) of
        Inl e \<Rightarrow> Inl e
      | Inr c \<Rightarrow> (case load_missing db p found is of Inl e \<Rightarrow> Inl e | Inr cs \<Rightarrow> Inr (c # cs)))"

definition resolve_category_ids :: "database \<Rightarrow> principal \<Rightarrow> int list \<Rightarrow> category list result" where
  "resolve_category_ids db p category_ids =
     (let wanted = unique_ids category_ids
      in if wanted = [] then Inr []
         else load_missing db p
           (filter (\<lambda>c. cat_id c \<in> set wanted) (scoped_categories p (db_categories db))) wanted)"

definition categories_in_scope :: "database \<Rightarrow> principal \<Rightarrow> int list \<Rightarrow> category list" where
  "categories_in_scope db p category_ids =
     (let wanted = unique_ids category_ids
      in if wanted = [] then []
         else let by_id = filter (\<lambda>c. cat_id c \<in> set wanted) (scoped_categories p (db_categories db))
              in List.map_filter (cat_get by_id) wanted)"

definition branch_category_ids :: "database \<Rightarrow> principal option \<Rightarrow> int \<Rightarrow> bool \<Rightarrow> int list result" where
  "branch_category_ids db current_user category_id include_descendants =
     (case current_user of
        None \<Rightarrow> Inr []
      | Some p \<Rightarrow>
          (case load_category db p category_id of
             Inl e \<Rightarrow> Inl e
           | Inr row \<Rightarrow>
               if \<not> include_descendants then Inr [cat_id row]
               else Inr (collect_branch_ids (scoped_categories p (db_categories db)) (cat_id row))))"

definition assigned_category_refs :: "database \<Rightarrow> principal \<Rightarrow> category list \<Rightarrow> category_ref list" where
  "assigned_category_refs db p categories =
     (if categories = [] then []
      else category_refs categories (scoped_categories p (db_categories db)))"

text \<open>
  The page's filings: the link rows of the page in (object, category) order, those out of
  the caller's scope dropped, grouped by object.
\<close>

definition category_refs_by_object ::
  "database \<Rightarrow> principal option \<Rightarrow> uuid list \<Rightarrow> uuid \<Rightarrow> category_ref list" where
  "category_refs_by_object db current_user object_ids obj =
     (case current_user of
        None \<Rightarrow> []
      | Some p \<Rightarrow>
          (let links = sort_key fst (sort_key snd (filter (\<lambda>l. fst l \<in> set object_ids) (db_links db)));
               scope_rows = scoped_categories p (db_categories db);
               known = filter (\<lambda>l. cat_get scope_rows (snd l) \<noteq> None) links;
               refs = category_refs (map (\<lambda>l. the (cat_get scope_rows (snd l))) known) scope_rows
           in map snd (filter (\<lambda>(l, ref). fst l = obj) (zip known refs))))"

section \<open>CRUD\<close>

text \<open>
  A validated request body: \<open>slug\<close> is always set (\<open>generate_slug\<close> derives it from the
  mandatory name); \<open>parent\<close> is \<open>None\<close> when the field is absent, \<open>Some None\<close> when it
  is null.
\<close>

record category_request =
  cq_name :: ustr
  cq_slug :: ustr
  cq_parent :: "int option option"

definition generate_slug :: "(ustr \<Rightarrow> ustr) \<Rightarrow> ustr \<Rightarrow> int option option \<Rightarrow> category_request result" where
  "generate_slug slugify name parent =
     (let slug = slugify name
      in if 1 \<le> length name \<and> length name \<le> 50 \<and> 1 \<le> length slug \<and> length slug \<le> 50
         then Inr \<lparr>cq_name = name, cq_slug = slug, cq_parent = parent\<rparr>
         else Inl (Http 422 (DText ''Validation error'')))"

definition list_categories :: "database \<Rightarrow> principal \<Rightarrow> nat \<Rightarrow> nat \<Rightarrow> category list \<times> nat" where
  "list_categories db p skip limit =
     (let scoped = scoped_categories p (db_categories db)
      in (take limit (drop skip scoped), length scoped))"

definition get_category_tree :: "unicode_db \<Rightarrow> database \<Rightarrow> principal \<Rightarrow> category_node list \<times> int" where
  "get_category_tree U db p =
     (let categories = scoped_categories p (db_categories db)
      in if categories = [] then ([], 0)
         else (let category_ids = map cat_id categories;
                   direct_counts = (\<lambda>i. if i \<in> set category_ids \<and> i \<in> snd ` set (db_links db)
                     then Some (int (length (filter (\<lambda>l. snd l = i) (db_links db)))) else None);
                   roots = build_category_tree U categories direct_counts
               in (roots, count_category_nodes roots)))"

definition get_category :: "database \<Rightarrow> principal \<Rightarrow> int \<Rightarrow> category result" where
  "get_category db p category_id = load_category db p category_id"

definition create_category ::
  "settings \<Rightarrow> database \<Rightarrow> principal \<Rightarrow> category_request \<Rightarrow> category result \<times> database" where
  "create_category cfg db p req =
     (let owner = p_id p; tenant = user_tenant_id p;
          parent_id = (case cq_parent req of Some x \<Rightarrow> x | None \<Rightarrow> None);
          parent_check = (case parent_id of
             None \<Rightarrow> Inr ()
           | Some i \<Rightarrow> (case load_parent db p i tenant owner of Inl e \<Rightarrow> Inl e | Inr _ \<Rightarrow> Inr ()))
      in case parent_check of
           Inl e \<Rightarrow> (Inl e, db)
         | Inr _ \<Rightarrow>
             (case reject_depth_overflow cfg db tenant owner parent_id None of
                Inl e \<Rightarrow> (Inl e, db)
              | Inr _ \<Rightarrow>
                  (case reject_duplicate_slug db (cq_slug req) parent_id tenant owner None of
                     Inl e \<Rightarrow> (Inl e, db)
                   | Inr _ \<Rightarrow>
                       (let (row, db') = insert_category db (cq_name req) (cq_slug req) parent_id owner tenant
                        in (Inr row, db')))))"

text \<open>The guards of \<open>update_category\<close> on the loaded row, in the code's order.\<close>

definition update_guards ::
  "settings \<Rightarrow> database \<Rightarrow> principal \<Rightarrow> category \<Rightarrow> int option \<Rightarrow> ustr \<Rightarrow> unit result" where
  "update_guards cfg db p row parent_id slug =
     (let tenant = cat_tenant_id row; owner = cat_owner_id row;
          move = (case parent_id of
              None \<Rightarrow> Inr ()
            | Some i \<Rightarrow>
                if parent_id \<noteq> cat_parent_id row
                then (case load_parent db p i tenant owner of
                        Inl e \<Rightarrow> Inl e | Inr _ \<Rightarrow> reject_cycle db (cat_id row) i)
                else Inr ())
      in case move of
           Inl e \<Rightarrow> Inl e
         | Inr _ \<Rightarrow>
             (case (if parent_id \<noteq> cat_parent_id row
                    then reject_depth_overflow cfg db tenant owner parent_id (Some (cat_id row))
                    else Inr ()) of
                Inl e \<Rightarrow> Inl e
              | Inr _ \<Rightarrow>
                  if (parent_id, slug) \<noteq> (cat_parent_id row, cat_slug row)
                  then reject_duplicate_slug db slug parent_id tenant owner (Some (cat_id row))
                  else Inr ()))"

definition update_category ::
  "settings \<Rightarrow> database \<Rightarrow> principal \<Rightarrow> int \<Rightarrow> category_request \<Rightarrow> category result \<times> database" where
  "update_category cfg db p category_id req =
     (case load_category db p category_id of
        Inl e \<Rightarrow> (Inl e, db)
      | Inr row \<Rightarrow>
          (let parent_id = (case cq_parent req of Some x \<Rightarrow> x | None \<Rightarrow> cat_parent_id row)
           in case update_guards cfg db p row parent_id (cq_slug req) of
                Inl e \<Rightarrow> (Inl e, db)
              | Inr _ \<Rightarrow>
                  (let row' = row\<lparr>cat_name := cq_name req, cat_slug := cq_slug req, cat_parent_id := parent_id\<rparr>
                   in (Inr row', db\<lparr>db_categories := tbl_put cat_id (db_categories db) row'\<rparr>))))"

definition delete_category :: "database \<Rightarrow> principal \<Rightarrow> int \<Rightarrow> unit result \<times> database" where
  "delete_category db p category_id =
     (case load_category db p category_id of
        Inl e \<Rightarrow> (Inl e, db)
      | Inr row \<Rightarrow>
          if find (\<lambda>c. cat_parent_id c = Some category_id) (db_categories db) \<noteq> None
          then (Inl (Http 409 (DText ''Category has child categories; reparent or delete them first.'')), db)
          else (Inr (), db\<lparr>db_categories := tbl_del cat_id (db_categories db) category_id,
                           db_links := filter (\<lambda>l. snd l \<noteq> category_id) (db_links db)\<rparr>))"

section \<open>The hierarchy invariant\<close>

definition row_key :: "category \<Rightarrow> uuid option \<times> uuid option" where
  "row_key c = scope_key (cat_tenant_id c) (cat_owner_id c)"

definition slug_key :: "category \<Rightarrow> (uuid option \<times> uuid option) \<times> int option \<times> ustr" where
  "slug_key c = (row_key c, cat_parent_id c, cat_slug c)"

definition parents_ok :: "category list \<Rightarrow> bool" where
  "parents_ok t \<longleftrightarrow> (\<forall>c \<in> set t. case cat_parent_id c of None \<Rightarrow> True
     | Some p \<Rightarrow> (\<exists>q \<in> set t. cat_id q = p \<and> row_key q = row_key c))"

definition depth_ok :: "nat \<Rightarrow> category list \<Rightarrow> bool" where
  "depth_ok n t \<longleftrightarrow> (\<forall>c \<in> set t. nth_parent t n (cat_id c) = None)"

definition max_depth :: "settings \<Rightarrow> nat" where
  "max_depth cfg = nat (MEDIA_IMPORT_MAX_CATEGORY_DEPTH cfg)"

text \<open>
  Unique ids, below the counter; every parent exists in the same tree; no row is deeper
  than the cap, so no cycle; sibling slugs are unique per tree.
\<close>

definition categories_wf :: "settings \<Rightarrow> database \<Rightarrow> bool" where
  "categories_wf cfg db \<longleftrightarrow>
     distinct (map cat_id (db_categories db)) \<and>
     (\<forall>c \<in> set (db_categories db). cat_id c < db_next_category db) \<and>
     parents_ok (db_categories db) \<and> depth_ok (max_depth cfg) (db_categories db) \<and>
     distinct (map slug_key (db_categories db))"

lemma in_write_scope_key: "in_write_scope tenant owner c \<longleftrightarrow> row_key c = scope_key tenant owner"
  by (auto simp: in_write_scope_def row_key_def scope_key_def split: option.splits)

lemma parents_okD:
  assumes "parents_ok t" and "cat_get t i = Some c" and "cat_parent_id c = Some p"
  obtains q where "q \<in> set t" "cat_id q = p" "row_key q = row_key c"
  using assms cat_get_id [OF assms(2)] by (auto simp: parents_ok_def split: option.splits)

lemma parent_of_exists:
  assumes d: "distinct (map cat_id t)" and p: "parents_ok t" and "parent_of t i = Some j"
  shows "\<exists>c q. cat_get t i = Some c \<and> cat_get t j = Some q \<and> row_key q = row_key c"
proof -
  obtain c where c: "cat_get t i = Some c" "cat_parent_id c = Some j"
    using assms(3) by (auto simp: parent_of_def split: option.splits)
  then obtain q where "q \<in> set t" "cat_id q = j" "row_key q = row_key c" by (elim parents_okD [OF p])
  with c cat_get_distinct [OF d, of q] show ?thesis by blast
qed

lemma ancestor_row:
  assumes d: "distinct (map cat_id t)" and p: "parents_ok t" and c: "cat_get t i = Some c"
  shows "nth_parent t k i = Some j \<Longrightarrow> \<exists>q. cat_get t j = Some q \<and> row_key q = row_key c"
  using c
proof (induction k arbitrary: i c)
  case (Suc k)
  then obtain m where m: "parent_of t i = Some m" "nth_parent t k m = Some j" by (auto split: option.splits)
  from parent_of_exists [OF d p m(1)] Suc.prems(2) obtain q
    where "cat_get t m = Some q" "row_key q = row_key c" by auto
  with Suc.IH [OF m(2)] show ?case by auto
qed simp

text \<open>The rows of one tree see the same ancestors as the whole table.\<close>

lemma scope_cat_get:
  assumes "distinct (map cat_id t)"
  shows "cat_get (filter Q t) i = (case cat_get t i of Some c \<Rightarrow> if Q c then Some c else None | None \<Rightarrow> None)"
proof (cases "cat_get t i")
  case None
  then have "i \<notin> cat_id ` set t" by (simp add: cat_get_def tbl_get_None)
  then have "tbl_get cat_id (filter Q t) i = None" by (auto simp: tbl_get_None)
  then show ?thesis using None by (simp add: cat_get_def)
next
  case (Some c)
  note c = cat_get_id [OF Some]
  show ?thesis
  proof (cases "Q c")
    case True
    then have "cat_get (filter Q t) (cat_id c) = Some c"
      using c by (intro cat_get_distinct distinct_filter_ids assms) simp
    then show ?thesis using Some True c by simp
  next
    case False
    have "cat_get (filter Q t) i = None"
    proof (rule ccontr)
      assume "cat_get (filter Q t) i \<noteq> None"
      then obtain e where e: "cat_get (filter Q t) i = Some e" by auto
      then have "e \<in> set t" "Q e" "cat_id e = i" using cat_get_id [OF e] by auto
      with cat_get_distinct [OF assms, of e] Some False show False by simp
    qed
    then show ?thesis using Some False by simp
  qed
qed

lemma scope_nth_parent:
  assumes d: "distinct (map cat_id t)" and p: "parents_ok t" and c: "cat_get t i = Some c"
    and s: "row_key c = scope_key tenant owner"
  shows "nth_parent (filter (in_write_scope tenant owner) t) k i = nth_parent t k i"
  using c s
proof (induction k arbitrary: i c)
  case (Suc k)
  have same: "parent_of (filter (in_write_scope tenant owner) t) i = parent_of t i"
    using Suc.prems by (simp add: parent_of_def scope_cat_get [OF d] in_write_scope_key)
  show ?case
  proof (cases "parent_of t i")
    case (Some m)
    from parent_of_exists [OF d p this] Suc.prems obtain q
      where "cat_get t m = Some q" "row_key q = scope_key tenant owner" by auto
    with Suc.IH [of m q] show ?thesis by (simp add: same Some)
  qed (simp add: same)
qed simp

lemma climb_depth:
  assumes d: "distinct (map cat_id t)" and p: "parents_ok t" and e: "nth_parent t n i = None"
    and c: "cat_get t i = Some c"
  shows "nth_parent t (length (climb t (Some i) [])) i = None"
proof (rule ccontr)
  assume "nth_parent t (length (climb t (Some i) [])) i \<noteq> None"
  then obtain j where j: "nth_parent t (length (climb t (Some i) [])) i = Some j" by auto
  then have "cat_get t j = None" by (rule climb_end [OF e, rotated]) simp
  with ancestor_row [OF d p c j] show False by simp
qed

lemma parents_ok_scope: "parents_ok t \<Longrightarrow> parents_ok (filter (in_write_scope tenant owner) t)"
  by (auto simp: parents_ok_def in_write_scope_key split: option.splits) fastforce

text \<open>The parent depth the guard computes bounds the chain above the parent.\<close>

lemma guard_parent_depth:
  assumes d: "distinct (map cat_id t)" and p: "parents_ok t" and dep: "depth_ok n t"
    and q: "cat_get t i = Some q" and s: "row_key q = scope_key tenant owner"
  shows "nth_parent t (length (climb (filter (in_write_scope tenant owner) t) (Some i) [])) i = None"
proof -
  let ?S = "filter (in_write_scope tenant owner) t"
  note same = scope_nth_parent [OF d p q s]
  have "cat_get ?S i = Some q" using q s by (simp add: scope_cat_get [OF d] in_write_scope_key)
  moreover have "nth_parent ?S n i = None"
    using dep cat_get_id [OF q] by (auto simp: same depth_ok_def)
  ultimately have "nth_parent ?S (length (climb ?S (Some i) [])) i = None"
    using climb_depth [OF distinct_filter_ids [OF d] parents_ok_scope [OF p]] by blast
  then show ?thesis by (simp add: same)
qed

lemma fold_max_base: "(b::nat) \<le> fold max xs b"
proof (induction xs arbitrary: b)
  case (Cons x xs)
  have "b \<le> max x b" by simp
  also have "\<dots> \<le> fold max xs (max x b)" by (rule Cons.IH)
  finally show ?case by simp
qed simp

lemma fold_max_ge: "(x::nat) \<in> set xs \<Longrightarrow> x \<le> fold max xs b"
proof (induction xs arbitrary: b)
  case (Cons y xs)
  then show ?case using fold_max_base [of "max y b" xs] by auto
qed simp

text \<open>The branch height the guard computes bounds the distance of every descendant.\<close>

lemma guard_branch_height:
  assumes d: "distinct (map cat_id t)" and p: "parents_ok t" and dep: "depth_ok n t"
    and i: "cat_get t i = Some c" and s: "row_key c = scope_key tenant owner"
    and x: "cat_get t x = Some e" and k: "nth_parent t k x = Some i"
  shows "k + 1 \<le> branch_height (filter (in_write_scope tenant owner) t) i"
proof -
  let ?S = "filter (in_write_scope tenant owner) t"
  from ancestor_row [OF d p x k] i s have "row_key e = scope_key tenant owner" by auto
  note same = scope_nth_parent [OF d p x this]
  have ds: "distinct (map cat_id ?S)" by (rule distinct_filter_ids [OF d])
  have "nth_parent ?S k x = Some i" by (simp add: same k)
  then obtain h where h: "(x, h) \<in> set (descend ?S [(i, 1)] [])"
    using descend_complete [OF ds] by fastforce
  from descend_sound [OF ds h] obtain k' where k': "h = 1 + k'" "nth_parent t k' x = Some i"
    by (auto simp: same)
  have "nth_parent t n x = None" using dep cat_get_id [OF x] by (auto simp: depth_ok_def)
  from nth_parent_unique [OF this k k'(2)] k' h have "k + 1 \<in> set (map snd (descend ?S [(i, 1)] []))"
    by force
  then show ?thesis unfolding branch_height_def by (rule fold_max_ge)
qed

text \<open>
  Re-hanging one id below a chain that avoids it: whoever sat \<open>k\<close> levels below it now
  ends after \<open>k + 1\<close> plus the new chain, everybody else is unmoved.
\<close>

lemma reparent_ends:
  assumes po: "\<And>x. parent_of t' x = (if x = i then par else parent_of t x)"
    and avoid: "\<And>p k. par = Some p \<Longrightarrow> nth_parent t k p \<noteq> Some i"
    and endp: "\<And>p. par = Some p \<Longrightarrow> nth_parent t m p = None"
    and room: "\<And>k. nth_parent t k x = Some i \<Longrightarrow> k + 1 + m \<le> n"
    and old: "nth_parent t n x = None \<or> (\<exists>k. nth_parent t k x = Some i)"
    and uniq: "\<And>k k'. nth_parent t k x = Some i \<Longrightarrow> nth_parent t k' x = Some i \<Longrightarrow> k = k'"
  shows "nth_parent t' n x = None"
proof -
  have free: "\<forall>k. nth_parent t k y \<noteq> Some i \<Longrightarrow> nth_parent t' k y = nth_parent t k y" for y k
  proof (induction k arbitrary: y)
    case (Suc k)
    have "y \<noteq> i" using Suc.prems [THEN spec, of 0] by simp
    then have p: "parent_of t' y = parent_of t y" by (simp add: po)
    show ?case
    proof (cases "parent_of t y")
      case (Some z)
      have "\<forall>k. nth_parent t k z \<noteq> Some i"
        using Suc.prems Some by (metis nth_parent.simps(2) option.simps(5))
      then show ?thesis using Suc.IH by (simp add: p Some)
    qed (simp add: p)
  qed simp
  show ?thesis
  proof (cases "\<exists>k. nth_parent t k x = Some i")
    case False
    then show ?thesis using old free [of x n] by auto
  next
    case True
    then obtain k where k: "nth_parent t k x = Some i" by auto
    have below: "nth_parent t k y = Some i \<Longrightarrow> (\<forall>j < k. nth_parent t j y \<noteq> Some i) \<Longrightarrow>
        nth_parent t' k y = Some i" for y k
    proof (induction k arbitrary: y)
      case (Suc k)
      then have "y \<noteq> i" by (metis nth_parent.simps(1) zero_less_Suc)
      moreover obtain z where z: "parent_of t y = Some z" "nth_parent t k z = Some i"
        using Suc.prems(1) by (auto split: option.splits)
      moreover have "\<forall>j < k. nth_parent t j z \<noteq> Some i"
      proof (intro allI impI)
        fix j assume "j < k"
        then have "nth_parent t (Suc j) y \<noteq> Some i" using Suc.prems(2) by blast
        then show "nth_parent t j z \<noteq> Some i" using z(1) by simp
      qed
      ultimately show ?case using Suc.IH by (simp add: po)
    qed simp
    have "\<forall>j < k. nth_parent t j x \<noteq> Some i" using uniq [OF k] by auto
    then have k': "nth_parent t' k x = Some i" using below k by blast
    have "nth_parent t' (Suc m) i = None"
      using free avoid endp by (cases par) (auto simp: po)
    then have "nth_parent t' (k + Suc m) x = None" using k' by (simp only: nth_parent_add option.simps)
    then show ?thesis by (rule nth_parent_None_mono) (use room [OF k] in simp)
  qed
qed

text \<open>The cycle guard sees every ancestor of the requested parent.\<close>

lemma meets_ancestor:
  "nth_parent t d a = None \<Longrightarrow> unseen_above t a seen \<Longrightarrow> nth_parent t k a = Some i \<Longrightarrow>
   meets t i (Some a) seen"
proof (induction k arbitrary: a seen d)
  case (Suc k)
  then obtain p where p: "parent_of t a = Some p" "nth_parent t k p = Some i" by (auto split: option.splits)
  then obtain c where c: "cat_get t a = Some c" "cat_parent_id c = Some p"
    by (auto simp: parent_of_def split: option.splits)
  have "nth_parent t d p = None"
    using Suc.prems(1) p(1) nth_parent_None_mono [of t d a "Suc d"] by simp
  from Suc.IH [OF this unseen_above_step [OF Suc.prems(1,2) p(1)] p(2)]
  show ?case
    unfolding meets.simps(2) [of t i a seen]
    using c unseen_aboveD [OF Suc.prems(2)] by (simp del: meets.simps)
qed simp

lemma load_parent_Inr:
  "load_parent db p i tenant owner = Inr q \<Longrightarrow>
     cat_get (db_categories db) i = Some q \<and> row_key q = scope_key tenant owner"
  by (auto simp: load_parent_def row_key_def split: option.splits if_splits)

lemma duplicate_slug_free:
  "reject_duplicate_slug db slug par tenant owner ex = Inr () \<Longrightarrow> c \<in> set (db_categories db) \<Longrightarrow>
     ex \<noteq> Some (cat_id c) \<Longrightarrow> slug_key c \<noteq> (scope_key tenant owner, par, slug)"
  by (auto simp: reject_duplicate_slug_def sibling_with_slug_def find_None_iff in_write_scope_key
      slug_key_def split: if_splits option.splits)

lemma cat_get_snoc:
  "cat_get (t @ [r]) x = (case cat_get t x of Some c \<Rightarrow> Some c | None \<Rightarrow> if cat_id r = x then Some r else None)"
  by (simp add: cat_get_def tbl_get_append split: option.splits)

text \<open>Inserting a row under the guards.\<close>

lemma insert_wf:
  assumes wf: "categories_wf cfg db"
    and row: "insert_category db name slug par owner tenant = (r, db')"
    and par: "case par of None \<Rightarrow> m = 0 | Some i \<Rightarrow> (\<exists>q. cat_get (db_categories db) i = Some q \<and>
        row_key q = scope_key tenant owner \<and> nth_parent (db_categories db) m i = None)"
    and room: "m + 1 \<le> max_depth cfg"
    and free: "\<And>c. c \<in> set (db_categories db) \<Longrightarrow> slug_key c \<noteq> (scope_key tenant owner, par, slug)"
  shows "categories_wf cfg db'"
proof -
  let ?t = "db_categories db" and ?n = "db_next_category db"
  have d: "distinct (map cat_id ?t)" and lt: "\<forall>c \<in> set ?t. cat_id c < ?n" and po: "parents_ok ?t"
    and dep: "depth_ok (max_depth cfg) ?t" and sl: "distinct (map slug_key ?t)"
    using wf by (simp_all add: categories_wf_def)
  have r: "cat_id r = ?n" "cat_parent_id r = par" "slug_key r = (scope_key tenant owner, par, slug)"
    and db': "db_categories db' = ?t @ [r]" "db_next_category db' = ?n + 1"
    using row by (auto simp: insert_category_def slug_key_def row_key_def Let_def)
  then have rk: "row_key r = scope_key tenant owner" by (simp add: slug_key_def)
  have new: "cat_get ?t ?n = None" using lt by (auto simp: cat_get_def tbl_get_None)
  have pof: "parent_of (?t @ [r]) x = (if x = ?n then par else parent_of ?t x)" for x
    using new r by (auto simp: parent_of_def cat_get_snoc split: option.splits)
  have not_anc: "cat_get ?t x = Some c \<Longrightarrow> nth_parent ?t k x \<noteq> Some ?n" for x c k
    using ancestor_row [OF d po] new by fastforce
  have "depth_ok (max_depth cfg) (?t @ [r])"
    unfolding depth_ok_def
  proof
    fix c assume c: "c \<in> set (?t @ [r])"
    have here: "nth_parent ?t k ?n = Some ?n \<Longrightarrow> k = 0" for k
      using new by (cases k) (auto simp: parent_of_def)
    show "nth_parent (?t @ [r]) (max_depth cfg) (cat_id c) = None"
    proof (rule reparent_ends [where m = m and i = ?n, OF pof])
      show "nth_parent ?t k p \<noteq> Some ?n" if "par = Some p" for p k
        using par that not_anc by auto
      show "nth_parent ?t m p = None" if "par = Some p" for p
        using par that by auto
      have old: "cat_get ?t (cat_id c) = Some c \<or> cat_id c = ?n"
        using c cat_get_distinct [OF d] r by auto
      show "k + 1 + m \<le> max_depth cfg" if "nth_parent ?t k (cat_id c) = Some ?n" for k
        using that old not_anc here room by fastforce
      show "nth_parent ?t (max_depth cfg) (cat_id c) = None \<or> (\<exists>k. nth_parent ?t k (cat_id c) = Some ?n)"
        using c dep r by (auto simp: depth_ok_def intro: exI [of _ "0::nat"])
      show "k = k'" if "nth_parent ?t k (cat_id c) = Some ?n" "nth_parent ?t k' (cat_id c) = Some ?n" for k k'
        using that old not_anc here by metis
    qed
  qed
  moreover have "parents_ok (?t @ [r])"
    using po par r rk by (fastforce simp: parents_ok_def dest: cat_get_id split: option.splits)
  moreover have "slug_key r \<notin> slug_key ` set ?t" by (metis free r(3) imageE)
  then have "distinct (map slug_key (?t @ [r]))" using sl by simp
  moreover have "distinct (map cat_id (?t @ [r]))" using d lt r by auto
  ultimately show ?thesis using lt r by (auto simp: categories_wf_def db')
qed

text \<open>The cap counts levels, so a guard that passes leaves room below the parent.\<close>

lemma depth_guard_room:
  assumes "reject_depth_overflow cfg db tenant owner par cid = Inr ()"
  shows "length (climb (categories_in_write_scope db tenant owner) par []) +
    (case cid of None \<Rightarrow> 1 | Some c \<Rightarrow> branch_height (categories_in_write_scope db tenant owner) c)
    \<le> max_depth cfg"
  using assms by (auto simp: reject_depth_overflow_def max_depth_def Let_def split: if_splits)

lemma create_wf:
  assumes wf: "categories_wf cfg db"
  shows "categories_wf cfg (snd (create_category cfg db p req))"
proof (cases "fst (create_category cfg db p req)")
  case (Inl e)
  have "snd (create_category cfg db p req) = db"
    using Inl by (auto simp: create_category_def Let_def split: sum.splits option.splits prod.splits)
  with wf show ?thesis by simp
next
  case (Inr row)
  define par where "par = (case cq_parent req of Some x \<Rightarrow> x | None \<Rightarrow> None)"
  let ?T = "user_tenant_id p" and ?O = "p_id p" and ?t = "db_categories db"
  have ok: "case par of None \<Rightarrow> True | Some i \<Rightarrow> (\<exists>q. load_parent db p i ?T ?O = Inr q)"
    and dep: "reject_depth_overflow cfg db ?T ?O par None = Inr ()"
    and dup: "reject_duplicate_slug db (cq_slug req) par ?T ?O None = Inr ()"
    and snd: "snd (create_category cfg db p req) =
      snd (insert_category db (cq_name req) (cq_slug req) par ?O ?T)"
    using Inr unfolding create_category_def Let_def par_def [symmetric]
    by (auto split: sum.splits option.splits prod.splits)
  let ?m = "length (climb (categories_in_write_scope db ?T ?O) par [])"
  have "categories_wf cfg (snd (insert_category db (cq_name req) (cq_slug req) par ?O ?T))"
  proof (rule insert_wf [OF wf surjective_pairing, where m = ?m])
    show "?m + 1 \<le> max_depth cfg" using depth_guard_room [OF dep] by simp
    show "slug_key c \<noteq> (scope_key ?T ?O, par, cq_slug req)" if "c \<in> set ?t" for c
      using duplicate_slug_free [OF dup that] by simp
    show "case par of None \<Rightarrow> ?m = 0 | Some i \<Rightarrow> (\<exists>q. cat_get ?t i = Some q \<and>
        row_key q = scope_key ?T ?O \<and> nth_parent ?t ?m i = None)"
    proof (cases par)
      case (Some i)
      then obtain q where "load_parent db p i ?T ?O = Inr q" using ok by auto
      from load_parent_Inr [OF this] guard_parent_depth [of ?t "max_depth cfg" i q ?T ?O] wf Some
      show ?thesis by (simp add: categories_wf_def categories_in_write_scope_def)
    qed simp
  qed
  with snd show ?thesis by simp
qed

lemma load_category_Inr:
  "load_category db p i = Inr c \<Longrightarrow> cat_get (db_categories db) i = Some c \<and> cat_id c = i \<and> in_scope p c"
  by (auto simp: load_category_def dest: cat_get_id split: option.splits if_splits)

lemma cat_get_put: "cat_get (tbl_put cat_id t r) x = (if x = cat_id r then Some r else cat_get t x)"
  by (simp add: cat_get_def table_simps)

lemma update_guards_Inr:
  assumes "update_guards cfg db p row par slug = Inr ()"
  shows "par \<noteq> cat_parent_id row \<Longrightarrow>
      reject_depth_overflow cfg db (cat_tenant_id row) (cat_owner_id row) par (Some (cat_id row)) = Inr ()"
    and "par \<noteq> cat_parent_id row \<Longrightarrow> par = Some j \<Longrightarrow> \<exists>q.
      load_parent db p j (cat_tenant_id row) (cat_owner_id row) = Inr q \<and> reject_cycle db (cat_id row) j = Inr ()"
    and "(par, slug) \<noteq> (cat_parent_id row, cat_slug row) \<Longrightarrow>
      reject_duplicate_slug db slug par (cat_tenant_id row) (cat_owner_id row) (Some (cat_id row)) = Inr ()"
  using assms unfolding update_guards_def Let_def
  by (auto split: sum.splits option.splits if_splits)

text \<open>The row an update writes, and the three clauses of the invariant it has to keep.\<close>

abbreviation recast :: "category \<Rightarrow> ustr \<Rightarrow> ustr \<Rightarrow> int option \<Rightarrow> category" where
  "recast row name slug par \<equiv> row\<lparr>cat_name := name, cat_slug := slug, cat_parent_id := par\<rparr>"

lemma set_recast:
  assumes "distinct (map cat_id t)"
  shows "set (tbl_put cat_id t (recast row name slug par)) = insert (recast row name slug par) {x \<in> set t. cat_id x \<noteq> cat_id row}"
  using set_tbl_put [OF assms, of "recast row name slug par"] by simp

lemma ids_recast:
  "cat_get t (cat_id row) = Some row \<Longrightarrow> map cat_id (tbl_put cat_id t (recast row name slug par)) = map cat_id t"
  using put_same_map [of cat_id t "recast row name slug par" row cat_id] by (simp add: cat_get_def)

lemma parent_of_recast:
  "parent_of (tbl_put cat_id t (recast row name slug par)) y = (if y = cat_id row then par else parent_of t y)"
  by (simp add: parent_of_def cat_get_put)

lemma row_key_recast: "row_key (recast row name slug par) = row_key row"
  by (simp add: row_key_def)

lemma recast_depth_ok:
  assumes wf: "categories_wf cfg db" and row: "cat_get (db_categories db) (cat_id row) = Some row"
    and g: "update_guards cfg db p row par slug = Inr ()"
  shows "depth_ok (max_depth cfg) (tbl_put cat_id (db_categories db) (recast row name slug par))"
proof -
  let ?t = "db_categories db" and ?D = "max_depth cfg" and ?i = "cat_id row" and ?T = "cat_tenant_id row" and ?O = "cat_owner_id row"
  let ?t' = "tbl_put cat_id ?t (recast row name slug par)" and ?S = "filter (in_write_scope ?T ?O) ?t"
  have d: "distinct (map cat_id ?t)" and po: "parents_ok ?t" and dep: "depth_ok ?D ?t" using wf by (simp_all add: categories_wf_def)
  show ?thesis
  proof (cases "par = cat_parent_id row")
    case True
    then have "parent_of ?t' y = parent_of ?t y" for y unfolding parent_of_recast using row by (simp add: parent_of_def)
    then have "nth_parent ?t' k y = nth_parent ?t k y" for k y
      by (induction k arbitrary: y) (simp_all split: option.splits)
    then show ?thesis using dep row unfolding depth_ok_def set_recast [OF d] by (auto dest: cat_get_id)
  next
    case moved: False
    let ?m = "length (climb ?S par [])"
    have room: "?m + branch_height ?S ?i \<le> ?D"
      using depth_guard_room [OF update_guards_Inr(1) [OF g moved]] by (simp add: categories_in_write_scope_def)
    have endp: "nth_parent ?t ?m q = None \<and> (\<forall>k. nth_parent ?t k q \<noteq> Some ?i)" if q: "par = Some q" for q
    proof -
      obtain parent where "load_parent db p q ?T ?O = Inr parent" and cyc: "reject_cycle db ?i q = Inr ()"
        using update_guards_Inr(2) [OF g moved q] by auto
      from load_parent_Inr [OF this(1)] have m: "nth_parent ?t ?m q = None"
        using guard_parent_depth [OF d po dep] q by simp
      have "\<not> meets ?t ?i (Some q) []" using cyc by (simp add: reject_cycle_def split: if_splits)
      with meets_ancestor [OF m unseen_above_Nil] m show ?thesis by blast
    qed
    have "nth_parent ?t' ?D (cat_id c) = None" if "c \<in> set ?t'" for c
    proof -
      have "cat_id c \<in> cat_id ` set ?t" using ids_recast [OF row] that by (metis image_eqI list.set_map)
      then obtain e where e: "cat_get ?t (cat_id c) = Some e" using cat_get_distinct [OF d] by fastforce
      have eD: "nth_parent ?t ?D (cat_id c) = None" using dep cat_get_id [OF e] by (auto simp: depth_ok_def)
      show ?thesis
      proof (rule reparent_ends [where m = ?m and i = ?i, OF parent_of_recast])
        show "k + 1 + ?m \<le> ?D" if "nth_parent ?t k (cat_id c) = Some ?i" for k
          using guard_branch_height [OF d po dep row row_key_def e that] room by simp
        show "k = k'" if "nth_parent ?t k (cat_id c) = Some ?i" "nth_parent ?t k' (cat_id c) = Some ?i" for k k'
          by (rule nth_parent_unique [OF eD that])
      qed (use endp eD in auto)
    qed
    then show ?thesis by (simp add: depth_ok_def)
  qed
qed

lemma recast_parents_ok:
  assumes wf: "categories_wf cfg db" and row: "cat_get (db_categories db) (cat_id row) = Some row"
    and g: "update_guards cfg db p row par slug = Inr ()"
  shows "parents_ok (tbl_put cat_id (db_categories db) (recast row name slug par))"
proof -
  let ?t = "db_categories db" and ?t' = "tbl_put cat_id (db_categories db) (recast row name slug par)"
  have d: "distinct (map cat_id ?t)" and po: "parents_ok ?t" using wf by (simp_all add: categories_wf_def)
  have old: "\<exists>q \<in> set ?t'. cat_id q = j \<and> row_key q = key" if "q \<in> set ?t" "cat_id q = j" "row_key q = key" for q j key
  proof (cases "cat_id q = cat_id row")
    case True
    have "q = row" using cat_get_distinct [OF d that(1)] row unfolding True by (simp only: option.inject)
    then have "cat_id (recast row name slug par) = j" "row_key (recast row name slug par) = key"
      using that(2,3) by (simp_all add: row_key_recast)
    moreover have "recast row name slug par \<in> set ?t'" unfolding set_recast [OF d] by (rule insertI1)
    ultimately show ?thesis by blast
  qed (use that in \<open>auto simp: set_recast [OF d]\<close>)
  have "\<exists>q \<in> set ?t'. cat_id q = j \<and> row_key q = row_key c" if c: "c \<in> set ?t'" and parent: "cat_parent_id c = Some j" for c j
  proof -
    consider "c = recast row name slug par" "par \<noteq> cat_parent_id row" | "c = recast row name slug par" "par = cat_parent_id row"
      | "c \<in> set ?t" using c unfolding set_recast [OF d] by blast
    then show ?thesis
    proof cases
      case 1
      then have "par = Some j" using parent by simp
      with update_guards_Inr(2) [OF g 1(2)] load_parent_Inr obtain q where "cat_get ?t j = Some q" "row_key q = row_key c"
        using 1 by (fastforce simp: row_key_def)
      then show ?thesis using old cat_get_id by blast
    next
      case 2
      then have "cat_parent_id row = Some j" using parent by simp
      from parents_okD [OF po row this] obtain q where "q \<in> set ?t" "cat_id q = j" "row_key q = row_key row" by blast
      from old [OF this] show ?thesis by (simp add: 2(1) row_key_recast)
    next
      case 3
      from parents_okD [OF po cat_get_distinct [OF d 3] parent] old show ?thesis by metis
    qed
  qed
  then show ?thesis by (auto simp: parents_ok_def split: option.split)
qed

lemma recast_slugs_distinct:
  assumes wf: "categories_wf cfg db" and row: "cat_get (db_categories db) (cat_id row) = Some row"
    and g: "update_guards cfg db p row par slug = Inr ()"
  shows "distinct (map slug_key (tbl_put cat_id (db_categories db) (recast row name slug par)))"
proof -
  let ?t = "db_categories db" and ?row' = "recast row name slug par"
  have d: "distinct (map cat_id ?t)" and sl: "distinct (map slug_key ?t)" using wf by (simp_all add: categories_wf_def)
  have key: "slug_key ?row' = (scope_key (cat_tenant_id row) (cat_owner_id row), par, slug)" by (simp add: slug_key_def row_key_def)
  show ?thesis
  proof (cases "(par, slug) = (cat_parent_id row, cat_slug row)")
    case True
    then have "slug_key ?row' = slug_key row" by (simp add: slug_key_def row_key_def)
    then show ?thesis using put_same_map [of cat_id ?t ?row' row slug_key] row sl by (simp add: cat_get_def)
  next
    case False
    have "slug_key c \<noteq> slug_key ?row'" if "c \<in> set ?t" "cat_id c \<noteq> cat_id row" for c
      using duplicate_slug_free [OF update_guards_Inr(3) [OF g False]] that key by auto
    with sl show ?thesis by (intro distinct_put [OF d]) auto
  qed
qed

lemma update_wf:
  assumes wf: "categories_wf cfg db"
  shows "categories_wf cfg (snd (update_category cfg db p i req))"
proof (cases "fst (update_category cfg db p i req)")
  case (Inl e)
  have "snd (update_category cfg db p i req) = db"
    using Inl by (auto simp: update_category_def Let_def split: sum.splits option.splits)
  with wf show ?thesis by simp
next
  case (Inr x)
  then obtain row par where load: "load_category db p i = Inr row" and g: "update_guards cfg db p row par (cq_slug req) = Inr ()"
    and db': "snd (update_category cfg db p i req) =
      db\<lparr>db_categories := tbl_put cat_id (db_categories db) (recast row (cq_name req) (cq_slug req) par)\<rparr>"
    by (auto simp: update_category_def Let_def split: sum.splits)
  have row: "cat_get (db_categories db) (cat_id row) = Some row" using load_category_Inr [OF load] by simp
  have wf': "distinct (map cat_id (db_categories db))" "\<forall>c \<in> set (db_categories db). cat_id c < db_next_category db"
    using wf by (simp_all add: categories_wf_def)
  have "\<forall>c \<in> set (tbl_put cat_id (db_categories db) (recast row (cq_name req) (cq_slug req) par)). cat_id c < db_next_category db"
    using wf'(2) row by (auto simp: set_recast [OF wf'(1)] dest: cat_get_id)
  then show ?thesis unfolding categories_wf_def db'
    using wf'(1) recast_depth_ok [OF wf row g] recast_parents_ok [OF wf row g] recast_slugs_distinct [OF wf row g]
    by (simp add: ids_recast [OF row])
qed

lemma delete_wf:
  assumes wf: "categories_wf cfg db"
  shows "categories_wf cfg (snd (delete_category db p i))"
proof (cases "load_category db p i")
  case (Inl e)
  then show ?thesis using wf by (simp add: delete_category_def)
next
  case (Inr row)
  let ?t = "db_categories db" and ?t' = "tbl_del cat_id (db_categories db) i"
  have d: "distinct (map cat_id ?t)" and po: "parents_ok ?t" using wf by (simp_all add: categories_wf_def)
  show ?thesis
  proof (cases "find (\<lambda>c. cat_parent_id c = Some i) ?t")
    case None
    then have leaf: "\<forall>c \<in> set ?t. cat_parent_id c \<noteq> Some i" by (auto simp: find_None_iff)
    have nth: "nth_parent ?t' k x = None" if "nth_parent ?t k x = None" "x \<noteq> i" for k x
      using that
    proof (induction k arbitrary: x)
      case (Suc k)
      have p: "parent_of ?t' x = parent_of ?t x"
        using Suc.prems(2) by (simp add: parent_of_def cat_get_def table_simps)
      moreover have "parent_of ?t x \<noteq> Some i"
        using leaf by (auto simp: parent_of_def dest: cat_get_id split: option.splits)
      ultimately show ?case using Suc by (auto split: option.splits)
    qed simp
    have "parents_ok ?t'"
      using po leaf by (fastforce simp: parents_ok_def tbl_del_def split: option.splits)
    then show ?thesis
      using wf nth
      by (auto simp: delete_category_def Inr None categories_wf_def depth_ok_def distinct_tbl_del)
        (auto simp: tbl_del_def distinct_map_filter)
  qed (use wf in \<open>simp add: delete_category_def Inr\<close>)
qed

text \<open>
  The import's path builder: each level is one deeper than its parent, so a path no longer
  than the cap stays within it.
\<close>

lemma sibling_Some:
  "sibling_with_slug db slug par tenant owner ex = Some c \<Longrightarrow>
     c \<in> set (db_categories db) \<and> cat_slug c = slug \<and> row_key c = scope_key tenant owner \<and> cat_parent_id c = par"
  unfolding sibling_with_slug_def by (auto simp: find_Some_iff in_write_scope_key)

lemma sibling_None:
  "sibling_with_slug db slug par tenant owner None = None \<Longrightarrow> c \<in> set (db_categories db) \<Longrightarrow>
     slug_key c \<noteq> (scope_key tenant owner, par, slug)"
  by (auto simp: sibling_with_slug_def find_None_iff in_write_scope_key slug_key_def)

definition at_depth :: "database \<Rightarrow> principal \<Rightarrow> nat \<Rightarrow> category option \<Rightarrow> bool" where
  "at_depth db p m parent \<longleftrightarrow> (case parent of None \<Rightarrow> m = 0
     | Some q \<Rightarrow> cat_get (db_categories db) (cat_id q) = Some q \<and>
         row_key q = scope_key (user_tenant_id p) (p_id p) \<and> nth_parent (db_categories db) m (cat_id q) = None)"

lemma insert_category_facts:
  assumes "insert_category db name slug par owner tenant = (r, db')"
  shows "db_categories db' = db_categories db @ [r]" and "cat_id r = db_next_category db"
    and "cat_parent_id r = par" and "cat_slug r = slug" and "row_key r = scope_key tenant owner"
  using assms by (auto simp: insert_category_def row_key_def Let_def)

lemma nth_parent_snoc:
  assumes "parents_ok t" and d: "distinct (map cat_id t)" and new: "cat_get t (cat_id r) = None"
    and x: "cat_get t x = Some c"
  shows "nth_parent (t @ [r]) k x = nth_parent t k x"
  using x
proof (induction k arbitrary: x c)
  case (Suc k)
  have p: "parent_of (t @ [r]) x = parent_of t x" using Suc.prems by (simp add: parent_of_def cat_get_snoc)
  show ?case
  proof (cases "parent_of t x")
    case (Some y)
    from parent_of_exists [OF d assms(1) this] Suc.IH [of y] show ?thesis by (auto simp: p Some)
  qed (simp add: p)
qed simp

lemma next_id_free: "categories_wf cfg db \<Longrightarrow> cat_get (db_categories db) (db_next_category db) = None"
  by (auto simp: categories_wf_def cat_get_def tbl_get_None)

lemma ensure_step:
  assumes wf: "categories_wf cfg db" and m: "at_depth db p m parent" and room: "m < max_depth cfg"
  shows "sibling_with_slug db slug (map_option cat_id parent) (user_tenant_id p) (p_id p) None = Some row \<Longrightarrow>
      at_depth db p (Suc m) (Some row)"
    and "sibling_with_slug db slug (map_option cat_id parent) (user_tenant_id p) (p_id p) None = None \<Longrightarrow>
      insert_category db name slug (map_option cat_id parent) (p_id p) (user_tenant_id p) = (row, db') \<Longrightarrow>
      categories_wf cfg db' \<and> at_depth db' p (Suc m) (Some row)"
proof -
  let ?t = "db_categories db" and ?par = "map_option cat_id parent"
  have d: "distinct (map cat_id ?t)" and po: "parents_ok ?t" using wf by (simp_all add: categories_wf_def)
  show "at_depth db p (Suc m) (Some row)"
    if s: "sibling_with_slug db slug ?par (user_tenant_id p) (p_id p) None = Some row"
  proof -
    note c = sibling_Some [OF s]
    then have "cat_get ?t (cat_id row) = Some row" using cat_get_distinct [OF d] by blast
    with c m show ?thesis
      by (cases parent) (auto simp: at_depth_def parent_of_def)
  qed
  show "categories_wf cfg db' \<and> at_depth db' p (Suc m) (Some row)"
    if s: "sibling_with_slug db slug ?par (user_tenant_id p) (p_id p) None = None"
      and i: "insert_category db name slug ?par (p_id p) (user_tenant_id p) = (row, db')"
  proof
    have mm: "case ?par of None \<Rightarrow> m = 0 | Some j \<Rightarrow> (\<exists>q. cat_get ?t j = Some q \<and>
        row_key q = scope_key (user_tenant_id p) (p_id p) \<and> nth_parent ?t m j = None)"
      using m by (cases parent) (auto simp: at_depth_def)
    show "categories_wf cfg db'"
      by (rule insert_wf [OF wf i mm]) (use room sibling_None [OF s] in auto)
    note f = insert_category_facts [OF i]
    have new: "cat_get ?t (cat_id row) = None" using next_id_free [OF wf] f by simp
    have "nth_parent (?t @ [row]) m q = None" if "?par = Some q" for q
      using mm that nth_parent_snoc [OF po d new] by auto
    moreover have "parent_of (?t @ [row]) (cat_id row) = ?par"
      using new f by (simp add: parent_of_def cat_get_snoc)
    ultimately show "at_depth db' p (Suc m) (Some row)"
      using f new by (auto simp: at_depth_def cat_get_snoc split: option.splits)
  qed
qed

lemma ensure_from_wf:
  "categories_wf cfg db \<Longrightarrow> at_depth db p m parent \<Longrightarrow> m + length segments \<le> max_depth cfg \<Longrightarrow>
   ensure_from db p segments parent n = (res, n', db') \<Longrightarrow>
   categories_wf cfg db' \<and> at_depth db' p (m + length segments) res"
proof (induction db p segments parent n arbitrary: m res n' db' rule: ensure_from.induct)
  case (2 db p name slug segments parent n)
  let ?par = "map_option cat_id parent"
  have room: "m < max_depth cfg" using 2(5) by simp
  show ?case
  proof (cases "sibling_with_slug db slug ?par (user_tenant_id p) (p_id p) None")
    case None
    obtain row db1 where i: "insert_category db name slug ?par (p_id p) (user_tenant_id p) = (row, db1)" by fastforce
    from ensure_step(2) [OF 2(3,4) room None i] 2(1) [OF refl None i [symmetric] refl, of "Suc m" res n' db'] 2(5,6)
    show ?thesis by (simp add: None i)
  next
    case (Some row)
    from ensure_step(1) [OF 2(3,4) room Some] 2(2) [OF refl Some 2(3), of "Suc m" res n' db'] 2(5,6)
    show ?thesis by (simp add: Some)
  qed
qed simp

text \<open>
  C3. The hierarchy invariant survives every operation of the category surface, refusals
  included: ids stay unique, a parent always exists and lies in the child's own tree, no
  branch gets deeper than the cap, hence no row is ever its own ancestor, and sibling
  slugs stay unique where the database constraint cannot see them. An import path no
  longer than the cap keeps it as well.
\<close>

theorem category_ops_keep_hierarchy:
  assumes wf: "categories_wf cfg db"
  shows "categories_wf cfg (snd (create_category cfg db p req)) \<and>
    categories_wf cfg (snd (update_category cfg db p i req)) \<and>
    categories_wf cfg (snd (delete_category db p i)) \<and>
    (length segments \<le> max_depth cfg \<longrightarrow> categories_wf cfg (snd (ensure_category_path db p segments))) \<and>
    (\<forall>c \<in> set (db_categories db). \<forall>k. nth_parent (db_categories db) (Suc k) (cat_id c) \<noteq> Some (cat_id c))"
proof (intro conjI impI ballI allI)
  assume len: "length segments \<le> max_depth cfg"
  obtain res n' db' where e: "ensure_from db p segments None 0 = (res, n', db')" by (metis prod_cases3)
  have "categories_wf cfg db'"
    using ensure_from_wf [OF wf _ _ e, of 0] len by (simp add: at_depth_def)
  then show "categories_wf cfg (snd (ensure_category_path db p segments))"
    by (simp add: ensure_category_path_def e split: option.splits)
next
  fix c k assume c: "c \<in> set (db_categories db)"
  have "nth_parent (db_categories db) (max_depth cfg) (cat_id c) = None"
    using wf c by (simp add: categories_wf_def depth_ok_def)
  then show "nth_parent (db_categories db) (Suc k) (cat_id c) \<noteq> Some (cat_id c)"
    using nth_parent_cycle [of "db_categories db" k "cat_id c" "max_depth cfg"] by auto
qed (rule create_wf [OF wf] update_wf [OF wf] delete_wf [OF wf])+

definition demo_tree :: database where
  "demo_tree = empty_db\<lparr>db_categories := [demo_cat 1 ''docs'' None, demo_cat 2 ''2026'' (Some 1)],
     db_next_category := 3\<rparr>"

lemma demo_tree_wf: "categories_wf (default_settings None None) demo_tree"
proof -
  let ?t = "db_categories demo_tree"
  have "nth_parent ?t 2 1 = None" "nth_parent ?t 2 2 = None"
    by (simp_all add: demo_tree_def numeral_2_eq_2 parent_of_def cat_get_def)
  then have "nth_parent ?t 10 1 = None" "nth_parent ?t 10 2 = None"
    by (auto intro: nth_parent_None_mono)
  then have "depth_ok (max_depth (default_settings None None)) ?t"
    by (simp add: depth_ok_def max_depth_def default_settings_def demo_tree_def)
  then show ?thesis
    by (simp add: categories_wf_def) (simp add: demo_tree_def parents_ok_def slug_key_def row_key_def)
qed

theorem category_ops_keep_hierarchy_witness:
  "categories_wf (default_settings None None) (snd (update_category (default_settings None None) demo_tree
     \<lparr>p_id = 1, p_superuser = False, p_tenant = None\<rparr> 2 \<lparr>cq_name = u ''new'', cq_slug = u ''new'', cq_parent = Some None\<rparr>))"
  using category_ops_keep_hierarchy [OF demo_tree_wf] by blast

section \<open>What the resolvers answer\<close>

lemma scoped_get:
  assumes "distinct (map cat_id t)"
  shows "cat_get (filter (\<lambda>c. cat_id c \<in> W) (scoped_categories p t)) i =
    (case cat_get t i of Some c \<Rightarrow> if in_scope p c \<and> i \<in> W then Some c else None | None \<Rightarrow> None)"
proof -
  have "filter (\<lambda>c. cat_id c \<in> W) (scoped_categories p t) = filter (\<lambda>c. in_scope p c \<and> cat_id c \<in> W) t"
    by (auto simp: scoped_categories_def in_scope_def intro!: filter_cong split: option.splits)
  then show ?thesis
    by (simp add: scope_cat_get [OF assms] split: option.splits) (auto dest: cat_get_id)
qed

lemma load_missing_exact:
  assumes d: "distinct (map cat_id (db_categories db))" and "set is \<subseteq> W"
  shows "load_missing db p (filter (\<lambda>c. cat_id c \<in> W) (scoped_categories p (db_categories db))) is = Inr cs \<longleftrightarrow>
    (\<forall>i \<in> set is. \<exists>c. cat_get (db_categories db) i = Some c \<and> in_scope p c) \<and>
    cs = map (\<lambda>i. the (cat_get (db_categories db) i)) is"
  using assms(2)
proof (induction "is" arbitrary: cs)
  case (Cons i "is")
  let ?f = "filter (\<lambda>c. cat_id c \<in> W) (scoped_categories p (db_categories db))"
  have W: "i \<in> W" "set is \<subseteq> W" using Cons.prems by simp_all
  note IH = Cons.IH [OF W(2)]
  show ?case
  proof (cases "load_missing db p ?f is")
    case (Inl e)
    then have "\<not> (\<forall>i \<in> set is. \<exists>c. cat_get (db_categories db) i = Some c \<and> in_scope p c)"
      using IH [of "map (\<lambda>i. the (cat_get (db_categories db) i)) is"] by auto
    then show ?thesis using Inl by (auto split: sum.splits)
  next
    case (Inr r)
    then show ?thesis
      using IH [of r] W
      by (auto simp: scoped_get [OF d] load_category_def split: option.splits if_splits)
  qed
qed auto

text \<open>
  The filing boundary: caller-supplied ids resolve exactly when every one of them
  names a category in the caller's scope, and then to those rows, each once, in the order
  given. Nothing outside the scope can be filed on.
\<close>

theorem resolve_category_ids_exact:
  assumes d: "distinct (map cat_id (db_categories db))"
  shows "resolve_category_ids db p ids = Inr cs \<longleftrightarrow>
    (\<forall>i \<in> set ids. \<exists>c. cat_get (db_categories db) i = Some c \<and> in_scope p c) \<and>
    cs = map (\<lambda>i. the (cat_get (db_categories db) i)) (dedup ids)"
  using load_missing_exact [OF d, of "dedup ids" "set (dedup ids)" p cs]
  by (auto simp: resolve_category_ids_def unique_ids_def Let_def)

theorem resolve_category_ids_exact_witness:
  "resolve_category_ids demo_tree \<lparr>p_id = 1, p_superuser = False, p_tenant = None\<rparr> [2, 1, 2] =
     Inr [demo_cat 2 ''2026'' (Some 1), demo_cat 1 ''docs'' None]"
proof -
  have "distinct (map cat_id (db_categories demo_tree))" by (simp add: demo_tree_def)
  from resolve_category_ids_exact [OF this] show ?thesis
    by (simp add: demo_tree_def cat_get_def in_scope_def user_tenant_id_def dedup_def)
qed

lemma scope_is_write_scope:
  "\<not> p_superuser p \<Longrightarrow> scoped_categories p t = filter (in_write_scope (user_tenant_id p) (p_id p)) t"
  by (auto simp: scoped_categories_def in_write_scope_def intro!: filter_cong split: option.splits)

lemma in_scope_key: "row_key c = row_key c' \<Longrightarrow> in_scope p c \<longleftrightarrow> in_scope p c'"
  by (auto simp: in_scope_def row_key_def scope_key_def split: option.splits)

lemma scoped_filter: "scoped_categories p t = filter (in_scope p) t"
  by (auto simp: scoped_categories_def in_scope_def intro!: filter_cong split: option.splits)

text \<open>Above a readable row, the readable rows are all there is.\<close>

lemma scoped_nth_parent:
  assumes "distinct (map cat_id t)" "parents_ok t" "cat_get t i = Some c" "in_scope p c"
  shows "nth_parent (scoped_categories p t) k i = nth_parent t k i"
proof (cases "p_superuser p")
  case False
  with assms(4) have "row_key c = scope_key (user_tenant_id p) (p_id p)"
    by (auto simp: in_scope_def row_key_def scope_key_def split: option.splits)
  with scope_nth_parent [OF assms(1-3)] False show ?thesis by (simp add: scope_is_write_scope)
qed (simp add: scoped_categories_def)

lemma scoped_descendant_row:
  assumes "distinct (map cat_id t)" "cat_get t root = Some row" "in_scope p row"
    and k: "nth_parent (scoped_categories p t) k x = Some root"
  shows "\<exists>c. cat_get t x = Some c \<and> in_scope p c"
proof (cases "cat_get (scoped_categories p t) x")
  case (Some c)
  then show ?thesis unfolding scoped_filter by (auto simp: scope_cat_get [OF assms(1)] split: option.splits if_splits)
next
  case None
  then have "x = root" using k by (cases k) (auto simp: parent_of_def)
  with assms(2,3) show ?thesis by auto
qed

text \<open>
  C30. A branch filter covers the whole branch and nothing else: for a caller who may see
  the root, the ids are exactly the rows at or below it, each once, all of them readable
  by the caller; an anonymous caller gets none.
\<close>

theorem branch_filter_exact:
  assumes wf: "categories_wf cfg db" and b: "branch_category_ids db (Some p) root True = Inr ids"
  shows "distinct ids \<and> branch_category_ids db None root True = Inr [] \<and>
    set ids = {i. \<exists>k. nth_parent (db_categories db) k i = Some root \<and> cat_get (db_categories db) i \<noteq> None} \<and>
    (\<forall>i \<in> set ids. \<exists>c. cat_get (db_categories db) i = Some c \<and> in_scope p c)"
proof -
  let ?t = "db_categories db"
  let ?S = "scoped_categories p ?t"
  have d: "distinct (map cat_id ?t)" and po: "parents_ok ?t" using wf by (simp_all add: categories_wf_def)
  obtain row where row: "cat_get ?t root = Some row" "cat_id row = root" "in_scope p row"
    and ids: "ids = collect_branch_ids ?S root"
    using b load_category_Inr [of db p root] by (auto simp: branch_category_ids_def split: sum.splits)
  have dS: "distinct (map cat_id ?S)" unfolding scoped_filter by (rule distinct_filter_ids [OF d])
  note same = scoped_nth_parent [OF d po] and row_of = scoped_descendant_row [OF d row(1,3)]
  have hit: "x \<in> set ids \<longleftrightarrow> (\<exists>k. nth_parent ?S k x = Some root)" for x
    unfolding ids by (rule branch_ids_iff [OF dS])
  have "x \<in> set ids \<longleftrightarrow> (\<exists>k. nth_parent ?t k x = Some root \<and> cat_get ?t x \<noteq> None)" for x
  proof
    assume "x \<in> set ids"
    then obtain k where k: "nth_parent ?S k x = Some root" by (auto simp: hit)
    from row_of [OF k] obtain c where c: "cat_get ?t x = Some c" "in_scope p c" by blast
    from same [OF this] k have "nth_parent ?t k x = Some root" by simp
    with c show "\<exists>k. nth_parent ?t k x = Some root \<and> cat_get ?t x \<noteq> None" by blast
  next
    assume "\<exists>k. nth_parent ?t k x = Some root \<and> cat_get ?t x \<noteq> None"
    then obtain k c where k: "nth_parent ?t k x = Some root" and c: "cat_get ?t x = Some c" by auto
    from ancestor_row [OF d po c k] row(1) have "row_key row = row_key c" by auto
    with row(3) in_scope_key have "in_scope p c" by blast
    from same [OF c this] k have "nth_parent ?S k x = Some root" by simp
    then show "x \<in> set ids" unfolding hit by blast
  qed
  then have "set ids = {i. \<exists>k. nth_parent ?t k i = Some root \<and> cat_get ?t i \<noteq> None}" by blast
  moreover have "distinct ids" unfolding ids by (rule distinct_branch_ids)
  moreover have "\<forall>i \<in> set ids. \<exists>c. cat_get ?t i = Some c \<and> in_scope p c" using row_of hit by blast
  moreover have "branch_category_ids db None root True = Inr []" by (simp add: branch_category_ids_def)
  ultimately show ?thesis by blast
qed

theorem branch_filter_exact_witness:
  "\<exists>ids. branch_category_ids demo_tree (Some \<lparr>p_id = 1, p_superuser = False, p_tenant = None\<rparr>) 1 True = Inr ids \<and>
     distinct ids"
proof -
  have "\<exists>ids. branch_category_ids demo_tree (Some \<lparr>p_id = 1, p_superuser = False, p_tenant = None\<rparr>) 1 True = Inr ids"
    by (simp add: branch_category_ids_def load_category_def demo_tree_def cat_get_def in_scope_def user_tenant_id_def)
  then show ?thesis using branch_filter_exact [OF demo_tree_wf] by blast
qed

section \<open>Import paths\<close>

text \<open>
  The walk only ever inserts categories of the caller: what every such insertion keeps, the
  walk keeps.
\<close>

lemma ensure_from_keeps:
  assumes insert: "\<And>db name slug parent row db'. insert_category db name slug parent (p_id p) (user_tenant_id p) = (row, db') \<Longrightarrow>
      I db \<Longrightarrow> I db'"
  shows "ensure_from db p segments parent n = (res, n', db') \<Longrightarrow> I db \<Longrightarrow> I db'"
proof (induction segments arbitrary: db parent n)
  case (Cons seg segments)
  obtain name slug where seg: "seg = (name, slug)" by fastforce
  let ?par = "map_option cat_id parent"
  show ?case
  proof (cases "sibling_with_slug db slug ?par (user_tenant_id p) (p_id p) None")
    case None
    obtain row db1 where i: "insert_category db name slug ?par (p_id p) (user_tenant_id p) = (row, db1)" by fastforce
    have "ensure_from db1 p segments (Some row) (n + 1) = (res, n', db')" using Cons.prems(1) by (simp add: seg None i)
    then show ?thesis using Cons.IH insert [OF i] Cons.prems(2) by blast
  next
    case (Some row)
    have "ensure_from db p segments (Some row) n = (res, n', db')" using Cons.prems(1) by (simp add: seg Some)
    then show ?thesis using Cons.IH Cons.prems(2) by blast
  qed
qed simp

lemma ensure_category_path_keeps:
  assumes "\<And>db name slug parent row db'. insert_category db name slug parent (p_id p) (user_tenant_id p) = (row, db') \<Longrightarrow>
      I db \<Longrightarrow> I db'"
    and "ensure_category_path db p segments = (res, db')" and "I db"
  shows "I db'"
  using assms(2,3) ensure_from_keeps [of p I, OF assms(1)]
  by (auto simp: ensure_category_path_def split: prod.splits option.splits)

lemma find_app: "find P xs = Some x \<Longrightarrow> find P (xs @ ys) = Some x"
  by (induction xs) (auto split: if_splits)

lemma ensure_from_extends:
  "ensure_from db p segments parent n = (res, n', db') \<Longrightarrow> \<exists>ys. db_categories db' = db_categories db @ ys"
proof (induction db p segments parent n arbitrary: res n' db' rule: ensure_from.induct)
  case (2 db p name slug segments parent n)
  let ?par = "map_option cat_id parent"
  show ?case
  proof (cases "sibling_with_slug db slug ?par (user_tenant_id p) (p_id p) None")
    case None
    obtain row db1 where i: "insert_category db name slug ?par (p_id p) (user_tenant_id p) = (row, db1)" by fastforce
    from 2(1) [OF refl None i [symmetric] refl, of res n' db'] 2(3) insert_category_facts(1) [OF i]
    show ?thesis by (auto simp: None i)
  next
    case (Some row)
    from 2(2) [OF refl Some, of res n' db'] 2(3) show ?thesis by (simp add: Some)
  qed
qed simp

text \<open>Once a path has been built, building it again finds every level.\<close>

lemma ensure_from_again:
  "ensure_from db p segments parent n = (res, n', db') \<Longrightarrow> db_categories db2 = db_categories db' @ ys \<Longrightarrow>
   ensure_from db2 p segments parent k = (res, k, db2)"
proof (induction db p segments parent n arbitrary: res n' db' rule: ensure_from.induct)
  case (2 db p name slug segments parent n)
  let ?par = "map_option cat_id parent"
  let ?sib = "\<lambda>db. sibling_with_slug db slug ?par (user_tenant_id p) (p_id p) None"
  have found: "?sib db2 = Some row" if "?sib db1 = Some row" "db_categories db' = db_categories db1 @ zs" for row db1 zs
    using that(1) find_app [of _ "db_categories db1" row "zs @ ys"]
    by (simp add: sibling_with_slug_def 2(4) that(2))
  show ?case
  proof (cases "?sib db")
    case None
    obtain row db1 where i: "insert_category db name slug ?par (p_id p) (user_tenant_id p) = (row, db1)" by fastforce
    have e: "ensure_from db1 p segments (Some row) (n + 1) = (res, n', db')" using 2(3) by (simp add: None i)
    have new: "?sib db1 = Some row"
      using None insert_category_facts [OF i]
      by (simp add: sibling_with_slug_def find_snoc in_write_scope_key)
    obtain zs where "db_categories db' = db_categories db1 @ zs" using ensure_from_extends [OF e] by blast
    from found [OF new this] 2(1) [OF refl None i [symmetric] refl e 2(4)] show ?thesis by simp
  next
    case (Some row)
    have e: "ensure_from db p segments (Some row) n = (res, n', db')" using 2(3) by (simp add: Some)
    obtain zs where "db_categories db' = db_categories db @ zs" using ensure_from_extends [OF e] by blast
    from found [OF Some this] 2(2) [OF refl Some e 2(4)] show ?thesis by simp
  qed
qed simp

text \<open>The slug path of a row is its parent's path and its own slug.\<close>

lemma climb_seen:
  "nth_parent t n i = None \<Longrightarrow> unseen_above t i seen \<Longrightarrow> unseen_above t i seen' \<Longrightarrow>
     climb t (Some i) seen = climb t (Some i) seen'"
proof (induction n arbitrary: i seen seen')
  case (Suc n)
  show ?case
  proof (cases "cat_get t i")
    case (Some r)
    show ?thesis
    proof (cases "cat_parent_id r")
      case None
      then show ?thesis using Some unseen_aboveD Suc.prems by auto
    next
      case par: (Some q)
      then have p: "parent_of t i = Some q" using Some by (simp add: parent_of_def)
      have "climb t (Some q) (i # seen) = climb t (Some q) (i # seen')"
        by (rule Suc.IH) (use Suc.prems p unseen_above_step [OF Suc.prems(1) _ p] in auto)
      then show ?thesis
        by (simp only: climb_unfold [OF Suc.prems(2) Some] climb_unfold [OF Suc.prems(3) Some] par)
    qed
  qed simp
qed simp

lemma path_segments_child:
  assumes e: "nth_parent t n (cat_id r) = None" and r: "cat_get t (cat_id r) = Some r"
    and p: "cat_parent_id r = Some (cat_id q)" and q: "cat_get t (cat_id q) = Some q"
  shows "path_segments t r = path_segments t q @ [cat_slug r]"
proof -
  let ?i = "cat_id r" and ?j = "cat_id q"
  have par: "parent_of t ?i = Some ?j" using r p by (simp add: parent_of_def)
  have ej: "nth_parent t n ?j = None"
    using e par nth_parent_None_mono [of t n ?i "Suc n"] by simp
  have u1: "unseen_above t ?j [?i]" by (rule unseen_above_step [OF e _ par]) simp
  have "climb t (Some ?j) [?i] = climb t (Some ?j) []"
    by (rule climb_seen [OF ej u1]) simp
  also have "\<dots> = q # climb t (cat_parent_id q) [?j]"
    by (rule climb_unfold [OF _ q]) simp
  finally show ?thesis by (simp add: path_segments_def p)
qed

lemma ensure_from_count: "ensure_from db p segments parent n = (res, n', db') \<Longrightarrow> n \<le> n'"
proof (induction db p segments parent n arbitrary: res n' db' rule: ensure_from.induct)
  case (2 db p name slug segments parent n)
  let ?sib = "sibling_with_slug db slug (map_option cat_id parent) (user_tenant_id p) (p_id p) None"
  obtain row db1 where i: "insert_category db name slug (map_option cat_id parent) (p_id p) (user_tenant_id p) = (row, db1)"
    by fastforce
  show ?case
  proof (cases ?sib)
    case None
    from 2(1) [OF refl None i [symmetric] refl, of res n' db'] 2(3) show ?thesis by (simp add: None i)
  next
    case (Some row)
    from 2(2) [OF refl Some, of res n' db'] 2(3) show ?thesis by (simp add: Some)
  qed
qed simp

text \<open>A run that creates nothing has walked the path the slugs name.\<close>

lemma ensure_from_path:
  "categories_wf cfg db \<Longrightarrow> at_depth db p m parent \<Longrightarrow> m + length segments \<le> max_depth cfg \<Longrightarrow>
   ensure_from db p segments parent k = (res, k, db') \<Longrightarrow> db' = db \<Longrightarrow> segments \<noteq> [] \<Longrightarrow>
   \<exists>row. res = Some row \<and> path_segments (db_categories db) row =
     (case parent of None \<Rightarrow> [] | Some q \<Rightarrow> path_segments (db_categories db) q) @ map snd segments"
proof (induction db p segments parent k arbitrary: m res db' rule: ensure_from.induct)
  case (2 db p name slug segments parent n)
  let ?t = "db_categories db" and ?par = "map_option cat_id parent"
  have room: "m < max_depth cfg" using 2(5) by simp
  show ?case
  proof (cases "sibling_with_slug db slug ?par (user_tenant_id p) (p_id p) None")
    case None
    obtain row db1 where i: "insert_category db name slug ?par (p_id p) (user_tenant_id p) = (row, db1)" by fastforce
    have "ensure_from db1 p segments (Some row) (n + 1) = (res, n, db')" using 2(6) by (simp add: None i)
    from ensure_from_count [OF this] show ?thesis by simp
  next
    case (Some row)
    have e: "ensure_from db p segments (Some row) n = (res, n, db')" using 2(6) by (simp add: Some)
    note sib = sibling_Some [OF Some]
    have deep: "at_depth db p (Suc m) (Some row)" by (rule ensure_step(1) [OF 2(3,4) room Some])
    then have r: "cat_get ?t (cat_id row) = Some row" and er: "nth_parent ?t (Suc m) (cat_id row) = None"
      by (simp_all add: at_depth_def)
    have here: "path_segments ?t row = (case parent of None \<Rightarrow> [] | Some q \<Rightarrow> path_segments ?t q) @ [slug]"
    proof (cases parent)
      case None
      then show ?thesis using sib by (simp add: path_segments_def)
    next
      case (Some q)
      then show ?thesis
        using path_segments_child [OF er r, of q] sib 2(4) by (simp add: at_depth_def)
    qed
    show ?thesis
    proof (cases "segments = []")
      case True
      then show ?thesis using e here by auto
    next
      case False
      from 2(2) [OF refl Some 2(3) deep _ e 2(7) False] 2(5) here show ?thesis by auto
    qed
  qed
qed simp

text \<open>
  C29. Building an import path is idempotent and lands where the path says: running it a
  second time creates nothing and answers the same category, and the slug path that
  category resolves to is the path that was asked for.
\<close>

theorem ensure_category_path_idempotent:
  assumes wf: "categories_wf cfg db" and len: "segments \<noteq> []" "length segments \<le> max_depth cfg"
    and e: "ensure_category_path db p segments = (Inr (row, created), db')"
  shows "ensure_category_path db' p segments = (Inr (row, 0), db') \<and>
    map_of (resolve_category_paths (db_categories db')) (cat_id row) = Some (join_with 47 (map snd segments))"
proof -
  have run: "ensure_from db p segments None 0 = (Some row, created, db')"
    using e by (auto simp: ensure_category_path_def split: option.splits prod.splits)
  from ensure_from_wf [OF wf _ _ run, of 0] len have wf': "categories_wf cfg db'"
    and at: "at_depth db' p (length segments) (Some row)" by (simp_all add: at_depth_def)
  have again: "ensure_from db' p segments None 0 = (Some row, 0, db')"
    by (rule ensure_from_again [OF run, of _ "[]"]) simp
  from ensure_from_path [OF wf' _ _ again refl len(1), of 0] len
  have path: "path_segments (db_categories db') row = map snd segments" by (auto simp: at_depth_def)
  have "row \<in> set (db_categories db')" "distinct (map cat_id (db_categories db'))"
    using at wf' cat_get_id by (auto simp: at_depth_def categories_wf_def)
  from map_of_paths [OF this(2,1)] path again show ?thesis by (simp add: ensure_category_path_def)
qed

theorem ensure_category_path_idempotent_witness:
  "\<exists>row created db'. ensure_category_path demo_tree \<lparr>p_id = 1, p_superuser = False, p_tenant = None\<rparr>
      [(u ''Docs'', u ''docs''), (u ''2027'', u ''2027'')] = (Inr (row, created), db') \<and> created = 1 \<and>
    ensure_category_path db' \<lparr>p_id = 1, p_superuser = False, p_tenant = None\<rparr>
      [(u ''Docs'', u ''docs''), (u ''2027'', u ''2027'')] = (Inr (row, 0), db')"
proof -
  let ?p = "\<lparr>p_id = 1, p_superuser = False, p_tenant = None\<rparr>"
  let ?s = "[(u ''Docs'', u ''docs''), (u ''2027'', u ''2027'')]"
  have "\<exists>row db'. ensure_category_path demo_tree ?p ?s = (Inr (row, 1), db')"
    by (simp add: ensure_category_path_def demo_tree_def sibling_with_slug_def in_write_scope_def user_tenant_id_def
        insert_category_def u_def Let_def)
  then obtain row db' where e: "ensure_category_path demo_tree ?p ?s = (Inr (row, 1), db')" by blast
  have "length ?s \<le> max_depth (default_settings None None)"
    by (simp add: max_depth_def default_settings_def)
  from ensure_category_path_idempotent [OF demo_tree_wf _ this e] e show ?thesis by blast
qed

end
