(* ===== verification/Outbox.thy ===== *)
theory Outbox
  imports Storage
begin

text \<open>
  The transactional outbox: \<open>record_event\<close> (\<open>core/outbox.py\<close>) and the delivery run
  (\<open>controllers/outbox.py\<close>). The HTTP client is a parameter with its own state \<open>'c\<close>: a
  POST answers a status code, or \<open>None\<close> for an \<open>httpx.HTTPError\<close>. HMAC-SHA256 and the
  JSON rendering of the SDK's payload class are parameters too. The URL guard is the
  predicate built in \<open>Ssrf\<close>.
\<close>

section \<open>Recording\<close>

definition EVENT_OBJECT_READY :: string where "EVENT_OBJECT_READY = ''object.ready''"
definition EVENT_OBJECT_DELETED :: string where "EVENT_OBJECT_DELETED = ''object.deleted''"
definition EVENT_SCAN_FAILED :: string where "EVENT_SCAN_FAILED = ''scan.failed''"
definition EVENT_VARIANT_READY :: string where "EVENT_VARIANT_READY = ''variant.ready''"

definition record_event ::
  "database \<Rightarrow> string \<Rightarrow> uuid \<Rightarrow> (string \<times> ustr) list \<Rightarrow> uuid \<Rightarrow> datetime \<Rightarrow> database" where
  "record_event db event_type object_id payload fresh now =
     db\<lparr>db_outbox := db_outbox db @
       [\<lparr>oe_id = fresh, oe_event_type = event_type, oe_object_id = object_id, oe_payload = payload,
         oe_status = OUT_PENDING, oe_attempts = 0, oe_next_attempt_at = now, oe_created_at = now,
         oe_delivered_at = None\<rparr>]\<rparr>"

section \<open>Delivery\<close>

definition SIGNATURE_HEADER :: string where "SIGNATURE_HEADER = ''X-Signature''"

definition sign_payload :: "(ustr \<Rightarrow> blob \<Rightarrow> ustr) \<Rightarrow> ustr \<Rightarrow> blob \<Rightarrow> ustr" where
  "sign_payload hmac_hex secret body = u ''sha256='' @ hmac_hex secret body"

definition claim_due :: "database \<Rightarrow> datetime \<Rightarrow> nat \<Rightarrow> outbox_event list" where
  "claim_due db now limit =
     take limit (sort_key oe_created_at
       (filter (\<lambda>e. oe_status e = OUT_PENDING \<and> oe_next_attempt_at e \<le> now) (db_outbox db)))"

definition active_subscriptions :: "database \<Rightarrow> subscription list" where
  "active_subscriptions db = filter sub_active (db_subscriptions db)"

definition wants :: "subscription \<Rightarrow> string \<Rightarrow> bool" where
  "wants sub event_type \<longleftrightarrow> sub_event_types sub = [] \<or> event_type \<in> set (sub_event_types sub)"

record request =
  rq_url :: ustr
  rq_content :: blob
  rq_headers :: "(string \<times> ustr) list"

type_synonym 'c http = "'c \<Rightarrow> request \<Rightarrow> nat option \<times> 'c"

record 'c delivery_env =
  de_post :: "'c http"
  de_serialize :: "outbox_event \<Rightarrow> blob"
  de_hmac :: "ustr \<Rightarrow> blob \<Rightarrow> ustr"
  de_guard :: "ustr \<Rightarrow> bool result"   \<comment> \<open>\<open>Inl\<close>: an exception escapes the guard\<close>

definition request_for :: "'c delivery_env \<Rightarrow> subscription \<Rightarrow> blob \<Rightarrow> request" where
  "request_for env sub body = \<lparr>rq_url = sub_url sub, rq_content = body,
     rq_headers = [(''Content-Type'', u ''application/json''),
                   (SIGNATURE_HEADER, sign_payload (de_hmac env) (sub_secret sub) body)]\<rparr>"

definition post_one :: "'c delivery_env \<Rightarrow> 'c \<Rightarrow> subscription \<Rightarrow> blob \<Rightarrow> bool result \<times> 'c" where
  "post_one env c sub body =
     (case de_guard env (sub_url sub) of
        Inl x \<Rightarrow> (Inl x, c)
      | Inr ok \<Rightarrow>
          if \<not> ok then (Inr False, c)
          else (case de_post env c (request_for env sub body) of
                  (None, c') \<Rightarrow> (Inr False, c')
                | (Some status, c') \<Rightarrow> (Inr (200 \<le> status \<and> status < 300), c')))"

text \<open>The list comprehension posts to every target before \<open>all\<close> looks at the answers.\<close>

fun post_all :: "'c delivery_env \<Rightarrow> 'c \<Rightarrow> subscription list \<Rightarrow> blob \<Rightarrow> bool list result \<times> 'c" where
  "post_all env c [] body = (Inr [], c)"
| "post_all env c (sub # subs) body =
     (case post_one env c sub body of
        (Inl x, c1) \<Rightarrow> (Inl x, c1)
      | (Inr ok, c1) \<Rightarrow>
          (case post_all env c1 subs body of
             (Inl x, c2) \<Rightarrow> (Inl x, c2)
           | (Inr oks, c2) \<Rightarrow> (Inr (ok # oks), c2)))"

definition deliver_event ::
  "'c delivery_env \<Rightarrow> 'c \<Rightarrow> outbox_event \<Rightarrow> subscription list \<Rightarrow> bool result \<times> 'c" where
  "deliver_event env c event subs =
     (let targets = filter (\<lambda>s. wants s (oe_event_type event)) subs
      in if targets = [] then (Inr True, c)
         else (case post_all env c targets (de_serialize env event) of
                 (Inl x, c') \<Rightarrow> (Inl x, c')
               | (Inr oks, c') \<Rightarrow> (Inr (list_all id oks), c')))"

record delivery_report =
  dr_delivered :: nat
  dr_retried :: nat
  dr_failed :: nat

text \<open>What one outcome makes of a claimed row.\<close>

definition settle :: "datetime \<Rightarrow> int \<Rightarrow> int \<Rightarrow> bool \<Rightarrow> outbox_event \<Rightarrow> outbox_event" where
  "settle now max_attempts backoff_base accepted e =
     (if accepted then e\<lparr>oe_status := OUT_DELIVERED, oe_delivered_at := Some now\<rparr>
      else (let n = oe_attempts e + 1
            in if n \<ge> max_attempts then e\<lparr>oe_attempts := n, oe_status := OUT_FAILED\<rparr>
               else e\<lparr>oe_attempts := n,
                      oe_next_attempt_at := now + seconds (backoff_base * 2 ^ nat (n - 1))\<rparr>))"

definition count_outcome :: "int \<Rightarrow> bool \<Rightarrow> outbox_event \<Rightarrow> delivery_report \<Rightarrow> delivery_report" where
  "count_outcome max_attempts accepted e r =
     (if accepted then r\<lparr>dr_delivered := dr_delivered r + 1\<rparr>
      else if oe_attempts e + 1 \<ge> max_attempts then r\<lparr>dr_failed := dr_failed r + 1\<rparr>
      else r\<lparr>dr_retried := dr_retried r + 1\<rparr>)"

fun deliver_all ::
  "'c delivery_env \<Rightarrow> datetime \<Rightarrow> int \<Rightarrow> int \<Rightarrow> subscription list \<Rightarrow> outbox_event list \<Rightarrow>
   'c \<Rightarrow> database \<Rightarrow> delivery_report \<Rightarrow> (database \<times> delivery_report) result \<times> 'c" where
  "deliver_all env now max_attempts base subs [] c db r = (Inr (db, r), c)"
| "deliver_all env now max_attempts base subs (e # es) c db r =
     (case deliver_event env c e subs of
        (Inl x, c') \<Rightarrow> (Inl x, c')
      | (Inr accepted, c') \<Rightarrow>
          deliver_all env now max_attempts base subs es c'
            (db\<lparr>db_outbox := tbl_put oe_id (db_outbox db) (settle now max_attempts base accepted e)\<rparr>)
            (count_outcome max_attempts accepted e r))"

text \<open>The commit is the last step: an exception before it leaves the table as it was.\<close>

definition deliver_pending ::
  "'c delivery_env \<Rightarrow> 'c \<Rightarrow> database \<Rightarrow> datetime \<Rightarrow> nat \<Rightarrow> int \<Rightarrow> int \<Rightarrow> delivery_report result \<times> database \<times> 'c" where
  "deliver_pending env c db now limit max_attempts backoff_base =
     (case deliver_all env now max_attempts backoff_base (active_subscriptions db) (claim_due db now limit)
         c db \<lparr>dr_delivered = 0, dr_retried = 0, dr_failed = 0\<rparr> of
        (Inl x, c') \<Rightarrow> (Inl x, db, c')
      | (Inr (db', report), c') \<Rightarrow> (Inr report, db', c'))"

section \<open>The life of a row\<close>

text \<open>
  A pending row has attempts left and no delivery time; a delivered one carries its time;
  a failed one has used its attempts up.
\<close>

definition event_ok :: "int \<Rightarrow> outbox_event \<Rightarrow> bool" where
  "event_ok max_attempts e \<longleftrightarrow> 0 \<le> oe_attempts e \<and>
     (case oe_status e of
        OUT_PENDING \<Rightarrow> oe_attempts e < max_attempts \<and> oe_delivered_at e = None
      | OUT_DELIVERED \<Rightarrow> oe_attempts e < max_attempts \<and> oe_delivered_at e \<noteq> None
      | OUT_FAILED \<Rightarrow> oe_attempts e = max_attempts \<and> oe_delivered_at e = None)"

definition outbox_wf :: "int \<Rightarrow> database \<Rightarrow> bool" where
  "outbox_wf max_attempts db \<longleftrightarrow> distinct (map oe_id (db_outbox db)) \<and>
     (\<forall>e \<in> set (db_outbox db). event_ok max_attempts e)"

lemma settle_id [simp]: "oe_id (settle now m b ok e) = oe_id e"
  by (simp add: settle_def Let_def)

lemma settle_ok:
  "event_ok m e \<Longrightarrow> oe_status e = OUT_PENDING \<Longrightarrow> event_ok m (settle now m b ok e)"
  by (auto simp: settle_def event_ok_def Let_def)

lemma deliver_all_step:
  assumes "deliver_all env now m b subs (e # es) c db r = (Inr (db', r'), c')"
  obtains ok c1 where "deliver_all env now m b subs es c1
      (db\<lparr>db_outbox := tbl_put oe_id (db_outbox db) (settle now m b ok e)\<rparr>) (count_outcome m ok e r) = (Inr (db', r'), c')"
  using assms by (auto split: prod.splits sum.splits)

lemma deliver_all_frame:
  "deliver_all env now m b subs es c db r = (Inr (db', r'), c') \<Longrightarrow>
     (\<forall>x. x \<notin> oe_id ` set es \<longrightarrow> tbl_get oe_id (db_outbox db') x = tbl_get oe_id (db_outbox db) x)"
proof (induction es arbitrary: c db r)
  case (Cons e es)
  from Cons.prems show ?case
    by (rule deliver_all_step) (drule Cons.IH, simp add: table_simps)
qed simp

lemma deliver_all_settles:
  "deliver_all env now m b subs es c db r = (Inr (db', r'), c') \<Longrightarrow> distinct (map oe_id es) \<Longrightarrow> e \<in> set es \<Longrightarrow>
     \<exists>ok. tbl_get oe_id (db_outbox db') (oe_id e) = Some (settle now m b ok e)"
proof (induction es arbitrary: c db r)
  case (Cons a es)
  from Cons.prems(1) obtain ok c1 where rest: "deliver_all env now m b subs es c1
      (db\<lparr>db_outbox := tbl_put oe_id (db_outbox db) (settle now m b ok a)\<rparr>) (count_outcome m ok a r) = (Inr (db', r'), c')"
    by (rule deliver_all_step)
  show ?case
  proof (cases "e = a")
    case True
    then have "oe_id e \<notin> oe_id ` set es" using Cons.prems(2) by simp
    with deliver_all_frame [OF rest] True show ?thesis by (auto simp: table_simps)
  qed (use Cons.IH [OF rest] Cons.prems in auto)
qed simp

lemma deliver_all_ids:
  "deliver_all env now m b subs es c db r = (Inr (db', r'), c') \<Longrightarrow> oe_id ` set es \<subseteq> oe_id ` set (db_outbox db) \<Longrightarrow>
     map oe_id (db_outbox db') = map oe_id (db_outbox db)"
proof (induction es arbitrary: c db r)
  case (Cons a es)
  from Cons.prems(1) obtain ok c1 where rest: "deliver_all env now m b subs es c1
      (db\<lparr>db_outbox := tbl_put oe_id (db_outbox db) (settle now m b ok a)\<rparr>) (count_outcome m ok a r) = (Inr (db', r'), c')"
    by (rule deliver_all_step)
  have ids: "map oe_id (tbl_put oe_id (db_outbox db) (settle now m b ok a)) = map oe_id (db_outbox db)"
    using Cons.prems(2) by (auto simp: keys_tbl_put)
  then have "oe_id ` set (tbl_put oe_id (db_outbox db) (settle now m b ok a)) = oe_id ` set (db_outbox db)"
    by (metis list.set_map)
  with Cons.IH [OF rest] Cons.prems(2) ids show ?case by simp
qed simp

lemma deliver_all_report:
  "deliver_all env now m b subs es c db r = (Inr (db', r'), c') \<Longrightarrow>
     dr_delivered r' + dr_retried r' + dr_failed r' = dr_delivered r + dr_retried r + dr_failed r + length es"
proof (induction es arbitrary: c db r)
  case (Cons a es)
  from Cons.prems show ?case
    by (rule deliver_all_step) (drule Cons.IH, simp add: count_outcome_def split: if_splits)
qed simp

lemma claim_due_facts:
  assumes "distinct (map oe_id (db_outbox db))"
  shows "distinct (map oe_id (claim_due db now limit))"
    and "e \<in> set (claim_due db now limit) \<Longrightarrow>
      e \<in> set (db_outbox db) \<and> oe_status e = OUT_PENDING \<and> oe_next_attempt_at e \<le> now"
proof -
  let ?f = "filter (\<lambda>e. oe_status e = OUT_PENDING \<and> oe_next_attempt_at e \<le> now) (db_outbox db)"
  have "distinct (map oe_id ?f)" by (rule distinct_map_filter [OF assms])
  then have "distinct (map oe_id (sort_key oe_created_at ?f))"
    by (simp add: distinct_map)
  then show "distinct (map oe_id (claim_due db now limit))"
    unfolding claim_due_def take_map [symmetric] by (rule distinct_take)
  show "e \<in> set (claim_due db now limit) \<Longrightarrow>
      e \<in> set (db_outbox db) \<and> oe_status e = OUT_PENDING \<and> oe_next_attempt_at e \<le> now"
    unfolding claim_due_def by (auto dest: in_set_takeD)
qed

text \<open>
  C36. One delivery run settles exactly the rows it claimed, each by one outcome, and
  touches no other: a claimed row is delivered, failed for good at the attempt limit, or
  rescheduled with one attempt more; the report counts every claimed row once; and the
  life-cycle invariant of the table survives, so no row is ever attempted more than
  \<open>max_attempts\<close> times. A run that is cut short by an exception changes no row.
\<close>

theorem delivery_run_settles:
  assumes wf: "outbox_wf m db" and run: "deliver_pending env c db now limit m base = (res, db', c')"
  shows "outbox_wf m db' \<and>
    (case res of Inl _ \<Rightarrow> db' = db
     | Inr report \<Rightarrow>
         (\<forall>e \<in> set (claim_due db now limit). \<exists>accepted.
            tbl_get oe_id (db_outbox db') (oe_id e) = Some (settle now m base accepted e)) \<and>
         (\<forall>x. x \<notin> oe_id ` set (claim_due db now limit) \<longrightarrow>
            tbl_get oe_id (db_outbox db') x = tbl_get oe_id (db_outbox db) x) \<and>
         dr_delivered report + dr_retried report + dr_failed report = length (claim_due db now limit))"
proof (cases res)
  case (Inl x)
  then show ?thesis using wf run by (auto simp: deliver_pending_def split: prod.splits sum.splits)
next
  case (Inr report)
  let ?es = "claim_due db now limit"
  have d: "distinct (map oe_id (db_outbox db))" using wf by (simp add: outbox_wf_def)
  note claim = claim_due_facts [OF d]
  have run': "deliver_all env now m base (active_subscriptions db) ?es c db
      \<lparr>dr_delivered = 0, dr_retried = 0, dr_failed = 0\<rparr> = (Inr (db', report), c')"
    using run Inr by (auto simp: deliver_pending_def split: prod.splits sum.splits)
  note frame = deliver_all_frame [OF run'] and settles = deliver_all_settles [OF run' claim(1)]
  have ids: "map oe_id (db_outbox db') = map oe_id (db_outbox db)"
    by (rule deliver_all_ids [OF run']) (use claim(2) in blast)
  then have d': "distinct (map oe_id (db_outbox db'))" using d by simp
  have "event_ok m e" if e: "e \<in> set (db_outbox db')" for e
  proof -
    have got: "tbl_get oe_id (db_outbox db') (oe_id e) = Some e" by (rule tbl_get_distinct [OF d' e])
    show ?thesis
    proof (cases "oe_id e \<in> oe_id ` set ?es")
      case True
      then obtain a where a: "a \<in> set ?es" "oe_id a = oe_id e" by auto
      with settles [OF a(1)] got obtain ok where "e = settle now m base ok a" by auto
      with settle_ok claim(2) [OF a(1)] wf show ?thesis by (auto simp: outbox_wf_def)
    next
      case False
      with frame got have "tbl_get oe_id (db_outbox db) (oe_id e) = Some e" by metis
      with wf show ?thesis by (auto simp: outbox_wf_def dest: tbl_get_mem)
    qed
  qed
  then have "outbox_wf m db'" using d' by (simp add: outbox_wf_def)
  moreover have "dr_delivered report + dr_retried report + dr_failed report = length ?es"
    using deliver_all_report [OF run'] by simp
  ultimately show ?thesis
    unfolding Inr sum.case using settles frame by (intro conjI ballI)
qed

definition demo_event :: "uuid \<Rightarrow> outbox_event" where
  "demo_event i = \<lparr>oe_id = i, oe_event_type = ''object.ready'', oe_object_id = 5, oe_payload = [],
     oe_status = OUT_PENDING, oe_attempts = 0, oe_next_attempt_at = 0, oe_created_at = 0, oe_delivered_at = None\<rparr>"

definition demo_env :: "nat \<Rightarrow> unit delivery_env" where   \<comment> \<open>a client that always answers \<open>status\<close>\<close>
  "demo_env status = \<lparr>de_post = (\<lambda>c r. (Some status, c)), de_serialize = (\<lambda>e. []),
     de_hmac = (\<lambda>k b. []), de_guard = (\<lambda>x. Inr True)\<rparr>"

theorem delivery_run_settles_witness:
  "\<exists>res db' c'. deliver_pending (demo_env 500) () (empty_db\<lparr>db_outbox := [demo_event 1, demo_event 2]\<rparr>) 5 1 8 30 =
     (res, db', c') \<and> outbox_wf 8 db'"
proof -
  have wf: "outbox_wf 8 (empty_db\<lparr>db_outbox := [demo_event 1, demo_event 2]\<rparr>)"
    by (simp add: outbox_wf_def event_ok_def demo_event_def)
  obtain res db' c' where r: "deliver_pending (demo_env 500) () (empty_db\<lparr>db_outbox := [demo_event 1, demo_event 2]\<rparr>)
      5 1 8 30 = (res, db', c')" by (rule prod_cases3)
  from delivery_run_settles [OF wf r] have "outbox_wf 8 db'" by (rule conjunct1)
  with r show ?thesis by blast
qed

section \<open>What is sent\<close>

text \<open>A client that logs its requests, on top of any client.\<close>

definition logging :: "'c http \<Rightarrow> ('c \<times> request list) http" where
  "logging post = (\<lambda>(c, log) r. let (a, c') = post c r in (a, (c', log @ [r])))"

definition logged_env :: "'c delivery_env \<Rightarrow> ('c \<times> request list) delivery_env" where
  "logged_env env = \<lparr>de_post = logging (de_post env), de_serialize = de_serialize env,
     de_hmac = de_hmac env, de_guard = de_guard env\<rparr>"

definition legitimate :: "'c delivery_env \<Rightarrow> subscription list \<Rightarrow> outbox_event list \<Rightarrow> request \<Rightarrow> bool" where
  "legitimate env subs es r \<longleftrightarrow> (\<exists>sub \<in> set subs. \<exists>e \<in> set es.
     wants sub (oe_event_type e) \<and> de_guard env (sub_url sub) = Inr True \<and> rq_url r = sub_url sub \<and>
     rq_content r = de_serialize env e \<and>
     (SIGNATURE_HEADER, sign_payload (de_hmac env) (sub_secret sub) (rq_content r)) \<in> set (rq_headers r))"

lemma post_one_log:
  "post_one (logged_env env) (c, log) sub body = (ok, c', log') \<Longrightarrow>
     log' = (if de_guard env (sub_url sub) = Inr True then log @ [request_for env sub body] else log)"
  by (auto simp: post_one_def logged_env_def logging_def request_for_def
      split: prod.splits option.splits if_splits sum.splits)

lemma post_all_log:
  "post_all (logged_env env) (c, log) subs body = (oks, c', log') \<Longrightarrow>
     \<forall>r \<in> set log'. r \<in> set log \<or> (\<exists>sub \<in> set subs. de_guard env (sub_url sub) = Inr True \<and> r = request_for env sub body)"
proof (induction subs arbitrary: c log oks)
  case (Cons s subs)
  obtain ok c1 log1 where p: "post_one (logged_env env) (c, log) s body = (ok, c1, log1)" by (metis prod_cases3)
  note log1 = post_one_log [OF p]
  show ?case
  proof (cases ok)
    case (Inl x)
    then show ?thesis using Cons.prems p log1 by (auto split: if_splits)
  next
    case (Inr b)
    obtain oks2 where "post_all (logged_env env) (c1, log1) subs body = (oks2, c', log')"
      using Cons.prems p Inr by (auto split: prod.splits sum.splits)
    from Cons.IH [OF this] log1 show ?thesis by (auto split: if_splits)
  qed
qed simp

lemma deliver_event_log:
  assumes d: "deliver_event (logged_env env) (c, log) e subs = (ok, c', log')"
    and old: "\<forall>r \<in> set log. legitimate env subs es r" and e: "e \<in> set es"
  shows "\<forall>r \<in> set log'. legitimate env subs es r"
proof (cases "filter (\<lambda>s. wants s (oe_event_type e)) subs = []")
  case True
  then show ?thesis using d old by (simp add: deliver_event_def)
next
  case False
  then obtain oks where "post_all (logged_env env) (c, log)
      (filter (\<lambda>s. wants s (oe_event_type e)) subs) (de_serialize env e) = (oks, c', log')"
    using d by (auto simp: deliver_event_def logged_env_def split: prod.splits sum.splits)
  from post_all_log [OF this] old e show ?thesis
    by (fastforce simp: legitimate_def request_for_def)
qed

lemma deliver_all_log:
  "deliver_all (logged_env env) now m b subs es (c, log) db r = (res, c', log') \<Longrightarrow>
     \<forall>r \<in> set log. legitimate env subs all_es r \<Longrightarrow> set es \<subseteq> set all_es \<Longrightarrow>
     \<forall>r \<in> set log'. legitimate env subs all_es r"
proof (induction es arbitrary: c log db r)
  case (Cons e es)
  obtain ok c1 log1 where d: "deliver_event (logged_env env) (c, log) e subs = (ok, c1, log1)" by (metis prod_cases3)
  have l: "\<forall>r \<in> set log1. legitimate env subs all_es r"
    using deliver_event_log [OF d Cons.prems(2)] Cons.prems(3) by simp
  show ?case
  proof (cases ok)
    case (Inl x)
    then show ?thesis using Cons.prems(1) d l by simp
  next
    case (Inr a)
    with Cons.prems(1) d have "deliver_all (logged_env env) now m b subs es (c1, log1)
        (db\<lparr>db_outbox := tbl_put oe_id (db_outbox db) (settle now m b a e)\<rparr>) (count_outcome m a e r) = (res, c', log')"
      by simp
    from Cons.IH [OF this l] Cons.prems(3) show ?thesis by simp
  qed
qed simp

text \<open>
  Whatever the client answers, every request a delivery run sends goes to an active
  subscriber that wants the event, at a URL the SSRF guard accepts, carries the
  serialisation of a claimed event, and is signed with that subscriber's own secret.
\<close>

theorem delivery_requests_legitimate:
  assumes "deliver_pending (logged_env env) (c, []) db now limit m base = (res, db', c', log)"
  shows "\<forall>r \<in> set log. legitimate env (active_subscriptions db) (claim_due db now limit) r"
proof -
  obtain res' where "deliver_all (logged_env env) now m base (active_subscriptions db) (claim_due db now limit)
      (c, []) db \<lparr>dr_delivered = 0, dr_retried = 0, dr_failed = 0\<rparr> = (res', c', log)"
    using assms by (auto simp: deliver_pending_def split: prod.splits sum.splits)
  from deliver_all_log [OF this, of "claim_due db now limit"] show ?thesis by simp
qed

definition demo_subscription :: "string \<Rightarrow> subscription" where
  "demo_subscription url = \<lparr>sub_id = 1, sub_url = u url, sub_secret = [], sub_event_types = [],
     sub_active = True, sub_created_at = 0\<rparr>"

theorem delivery_requests_legitimate_witness:
  "\<exists>res db' c' log. deliver_pending (logged_env (demo_env 200)) ((), [])
      (empty_db\<lparr>db_outbox := [demo_event 1], db_subscriptions := [demo_subscription ''https://a'']\<rparr>) 5 1 8 30 =
      (res, db', c', log) \<and> log \<noteq> [] \<and> list_all (\<lambda>r. rq_url r = u ''https://a'') log"
proof -
  let ?env = "demo_env 200"
  let ?db = "empty_db\<lparr>db_outbox := [demo_event 1], db_subscriptions := [demo_subscription ''https://a'']\<rparr>"
  have "\<exists>res db' c' log. deliver_pending (logged_env ?env) ((), []) ?db 5 1 8 30 = (res, db', c', log) \<and> log \<noteq> []"
    by (simp add: deliver_pending_def claim_due_def demo_event_def active_subscriptions_def deliver_event_def
        wants_def post_one_def logged_env_def logging_def demo_subscription_def demo_env_def)
  then obtain res db' c' log where r: "deliver_pending (logged_env ?env) ((), []) ?db 5 1 8 30 = (res, db', c', log)"
    and ne: "log \<noteq> []" by blast
  from delivery_requests_legitimate [OF r] have "list_all (\<lambda>r. rq_url r = u ''https://a'') log"
    by (auto simp: list_all_iff legitimate_def active_subscriptions_def demo_subscription_def)
  with r ne show ?thesis by blast
qed

text \<open>
  An exception that escapes the guard for one subscriber ends the run before its commit:
  as long as that subscriber is active and the event due, no event is ever settled.
\<close>

lemma guard_exception_blocks_outbox:
  assumes "claim_due db now limit = e # es" and "sub \<in> set (active_subscriptions db)"
    and "wants sub (oe_event_type e)" and "de_guard env (sub_url sub) = Inl x"
  shows "\<exists>y c'. deliver_pending env c db now limit m base = (Inl y, db, c')"
proof -
  have "\<exists>y c'. post_all env c subs body = (Inl y, c')" if "sub \<in> set subs" for c subs body
    using that
  proof (induction subs arbitrary: c)
    case (Cons s subs)
    obtain ok c1 where p: "post_one env c s body = (ok, c1)" by fastforce
    show ?case
    proof (cases ok)
      case (Inr b)
      then have "s \<noteq> sub" using p assms(4) by (auto simp: post_one_def)
      with Cons.IH [of c1] Cons.prems show ?thesis by (auto simp: p Inr)
    qed (simp add: p)
  qed simp
  moreover have "sub \<in> set (filter (\<lambda>s. wants s (oe_event_type e)) (active_subscriptions db))"
    using assms(2,3) by simp
  ultimately obtain y c' where p: "post_all env c (filter (\<lambda>s. wants s (oe_event_type e)) (active_subscriptions db))
      (de_serialize env e) = (Inl y, c')" by blast
  have "filter (\<lambda>s. wants s (oe_event_type e)) (active_subscriptions db) \<noteq> []"
    using assms(2,3) by (auto simp: filter_empty_conv)
  with p have "deliver_event env c e (active_subscriptions db) = (Inl y, c')"
    by (simp add: deliver_event_def)
  then show ?thesis by (simp add: deliver_pending_def assms(1))
qed

end
