(* ===== verification/Ssrf.thy ===== *)
theory Ssrf
  imports DataModel
begin

text \<open>
  The webhook SSRF guard (\<open>core/ssrf.py\<close>) with what it uses of the standard library:
  \<open>ipaddress\<close> (parsing and classification, as tables of networks) and \<open>urlsplit\<close>.
  Addresses are words. The resolver and NFKC normalisation are parameters; a resolver
  answers addresses, fails with \<open>OSError\<close>, or raises something else
  (\<open>getaddrinfo\<close> raises \<open>UnicodeError\<close> for a label that is empty or too long).
\<close>

section \<open>IP addresses\<close>

datatype ip = IPv4 "32 word" | IPv6 "128 word"

text \<open>A network is its base address and its number of host bits.\<close>

definition in_net :: "'a::len word \<Rightarrow> 'a word \<times> nat \<Rightarrow> bool" where
  "in_net a net \<longleftrightarrow> drop_bit (snd net) a = drop_bit (snd net) (fst net)"

definition quad :: "nat \<Rightarrow> nat \<Rightarrow> nat \<Rightarrow> nat \<Rightarrow> 32 word" where
  "quad a b c d = of_nat (((a * 256 + b) * 256 + c) * 256 + d)"

text \<open>The network \<open>a:b:c::/len\<close>, from its first three hextets.\<close>

definition net6 :: "nat \<Rightarrow> nat \<Rightarrow> nat \<Rightarrow> nat \<Rightarrow> 128 word \<times> nat" where
  "net6 a b c len = (of_nat (((a * 65536 + b) * 65536 + c) * 2 ^ 80), 128 - len)"

definition private4 :: "(32 word \<times> nat) list" where
  "private4 = [(quad 0 0 0 0, 24), (quad 10 0 0 0, 24), (quad 127 0 0 0, 24), (quad 169 254 0 0, 16),
     (quad 172 16 0 0, 20), (quad 192 0 0 0, 8), (quad 192 0 0 170, 1), (quad 192 0 2 0, 8),
     (quad 192 168 0 0, 16), (quad 198 18 0 0, 17), (quad 198 51 100 0, 8), (quad 203 0 113 0, 8),
     (quad 240 0 0 0, 28), (quad 255 255 255 255, 0)]"

definition private4_exceptions :: "(32 word \<times> nat) list" where
  "private4_exceptions = [(quad 192 0 0 9, 0), (quad 192 0 0 10, 0)]"

definition private6 :: "(128 word \<times> nat) list" where
  "private6 = [(1, 0), (0, 0), (of_nat (65535 * 2 ^ 32), 32), net6 0x64 0xff9b 1 48, net6 0x100 0 0 64,
     net6 0x2001 0 0 23, net6 0x2001 0xdb8 0 32, net6 0x2002 0 0 16, net6 0xfc00 0 0 7, net6 0xfe80 0 0 10]"

definition private6_exceptions :: "(128 word \<times> nat) list" where
  "private6_exceptions = [(of_nat ((0x2001 * 65536 + 1) * 2 ^ 96 + 1), 0), (of_nat ((0x2001 * 65536 + 1) * 2 ^ 96 + 2), 0),
     net6 0x2001 3 0 32, net6 0x2001 4 0x112 48, net6 0x2001 0x20 0 28, net6 0x2001 0x30 0 28]"

definition reserved6 :: "(128 word \<times> nat) list" where
  "reserved6 = [net6 0 0 0 8, net6 0x100 0 0 8, net6 0x200 0 0 7, net6 0x400 0 0 6, net6 0x800 0 0 5,
     net6 0x1000 0 0 4, net6 0x4000 0 0 3, net6 0x6000 0 0 3, net6 0x8000 0 0 3, net6 0xa000 0 0 3,
     net6 0xc000 0 0 3, net6 0xe000 0 0 4, net6 0xf000 0 0 5, net6 0xf800 0 0 6, net6 0xfe00 0 0 9]"

definition in_any :: "'a::len word \<Rightarrow> ('a word \<times> nat) list \<Rightarrow> bool" where
  "in_any a nets \<longleftrightarrow> list_ex (in_net a) nets"

definition ipv4_mapped :: "128 word \<Rightarrow> 32 word option" where
  "ipv4_mapped a = (if drop_bit 32 a = 0xffff then Some (ucast a) else None)"

definition is_private4 :: "32 word \<Rightarrow> bool" where
  "is_private4 a \<longleftrightarrow> in_any a private4 \<and> \<not> in_any a private4_exceptions"

definition blocked4 :: "32 word \<Rightarrow> bool" where
  \<comment> \<open>loopback, link-local, multicast, reserved, unspecified\<close>
  "blocked4 a \<longleftrightarrow> in_net a (quad 127 0 0 0, 24) \<or> in_net a (quad 169 254 0 0, 16) \<or>
     in_net a (quad 224 0 0 0, 28) \<or> in_net a (quad 240 0 0 0, 28) \<or> a = 0"

definition blocked6 :: "128 word \<Rightarrow> bool" where
  "blocked6 a \<longleftrightarrow> a = 1 \<or> in_net a (net6 0xfe80 0 0 10) \<or> in_net a (net6 0xff00 0 0 8) \<or>
     in_any a reserved6 \<or> a = 0"

fun is_always_blocked :: "ip \<Rightarrow> bool" where
  "is_always_blocked (IPv4 a) = blocked4 a"
| "is_always_blocked (IPv6 a) = (case ipv4_mapped a of Some b \<Rightarrow> blocked4 b | None \<Rightarrow> blocked6 a)"

fun is_private :: "ip \<Rightarrow> bool" where
  "is_private (IPv4 a) = is_private4 a"
| "is_private (IPv6 a) = (case ipv4_mapped a of Some b \<Rightarrow> is_private4 b
     | None \<Rightarrow> in_any a private6 \<and> \<not> in_any a private6_exceptions)"

section \<open>Parsing addresses\<close>

definition is_digit :: "nat \<Rightarrow> bool" where "is_digit c \<longleftrightarrow> 48 \<le> c \<and> c \<le> 57"

definition hex_value :: "nat \<Rightarrow> nat option" where
  "hex_value c = (if is_digit c then Some (c - 48)
     else if 65 \<le> c \<and> c \<le> 70 then Some (c - 55)
     else if 97 \<le> c \<and> c \<le> 102 then Some (c - 87) else None)"

definition dec_value :: "ustr \<Rightarrow> nat" where
  "dec_value s = foldl (\<lambda>n c. n * 10 + (c - 48)) 0 s"

definition parse_octet :: "ustr \<Rightarrow> nat option" where
  "parse_octet s =
     (if s = [] \<or> \<not> list_all is_digit s \<or> length s > 3 \<or> (s \<noteq> [48] \<and> hd s = 48) \<or> dec_value s > 255
      then None else Some (dec_value s))"

definition parse_ipv4 :: "ustr \<Rightarrow> (32 word) option" where
  "parse_ipv4 s =
     (case map parse_octet (split_on 46 s) of
        [Some a, Some b, Some c, Some d] \<Rightarrow> Some (quad a b c d)
      | _ \<Rightarrow> None)"

definition parse_hextet :: "ustr \<Rightarrow> nat option" where
  "parse_hextet s =
     (if s = [] \<or> length s > 4 \<or> list_ex (\<lambda>c. hex_value c = None) s then None
      else Some (foldl (\<lambda>n c. n * 16 + the (hex_value c)) 0 s))"

text \<open>Hextets before and after the skipped run, as one number.\<close>

definition join_hextets :: "nat option list \<Rightarrow> nat \<Rightarrow> nat option list \<Rightarrow> (128 word) option" where
  "join_hextets hi skipped lo =
     (if None \<in> set hi \<or> None \<in> set lo then None
      else Some (of_nat (foldl (\<lambda>n h. n * 65536 + the h) 0 (hi @ replicate skipped (Some 0) @ lo))))"

definition ip_int_from_string6 :: "ustr \<Rightarrow> (128 word) option" where
  "ip_int_from_string6 s =
     (let parts0 = split_on 58 s
      in if s = [] \<or> length parts0 < 3 then None
         else case (if 46 \<in> set (last parts0)
                    then (case parse_ipv4 (last parts0) of None \<Rightarrow> None
                          | Some a \<Rightarrow> Some (butlast parts0 @
                              [hex_digits 4 (unat a div 65536), hex_digits 4 (unat a mod 65536)]))
                    else Some parts0) of
              None \<Rightarrow> None
            | Some parts \<Rightarrow>
                (let n = length parts;
                     skips = filter (\<lambda>i. parts ! i = []) [1..<n - 1]
                 in if n > 9 then None
                    else case skips of
                      [] \<Rightarrow>
                        if n \<noteq> 8 \<or> hd parts = [] \<or> last parts = [] then None
                        else join_hextets (map parse_hextet parts) 0 []
                    | [i] \<Rightarrow>
                        (let hi = (if hd parts = [] then i - 1 else i);
                             lo = (if last parts = [] then n - i - 2 else n - i - 1)
                         in if (hd parts = [] \<and> hi \<noteq> 0) \<or> (last parts = [] \<and> lo \<noteq> 0) \<or> hi + lo > 7
                            then None
                            else join_hextets (map parse_hextet (take hi parts)) (8 - (hi + lo))
                              (map parse_hextet (drop (n - lo) parts)))
                    | _ \<Rightarrow> None))"

definition parse_ipv6 :: "ustr \<Rightarrow> (128 word) option" where
  "parse_ipv6 s =
     (if 47 \<in> set s then None
      else case split_on 37 s of
        [addr] \<Rightarrow> ip_int_from_string6 addr
      | [addr, scope] \<Rightarrow> if scope = [] then None else ip_int_from_string6 addr
      | _ \<Rightarrow> None)"

definition ip_address :: "ustr \<Rightarrow> ip option" where   \<comment> \<open>\<open>None\<close>: \<open>ValueError\<close>\<close>
  "ip_address s = (case parse_ipv4 s of Some a \<Rightarrow> Some (IPv4 a)
     | None \<Rightarrow> map_option IPv6 (parse_ipv6 s))"

section \<open>Splitting a URL\<close>

definition before :: "nat \<Rightarrow> ustr \<Rightarrow> ustr" where   \<comment> \<open>\<open>s.partition(c)[0]\<close>\<close>
  "before c s = takeWhile (\<lambda>x. x \<noteq> c) s"

definition after :: "nat \<Rightarrow> ustr \<Rightarrow> ustr" where   \<comment> \<open>\<open>s.partition(c)[2]\<close>\<close>
  "after c s = tl (dropWhile (\<lambda>x. x \<noteq> c) s)"

definition is_alpha :: "nat \<Rightarrow> bool" where
  "is_alpha c \<longleftrightarrow> (65 \<le> c \<and> c \<le> 90) \<or> (97 \<le> c \<and> c \<le> 122)"

definition is_scheme_char :: "nat \<Rightarrow> bool" where   \<comment> \<open>letters, digits, plus, minus, dot\<close>
  "is_scheme_char c \<longleftrightarrow> is_alpha c \<or> is_digit c \<or> c = 43 \<or> c = 45 \<or> c = 46"

definition lower_ascii :: "ustr \<Rightarrow> ustr" where
  "lower_ascii s = map (\<lambda>c. if 65 \<le> c \<and> c \<le> 90 then c + 32 else c) s"

text \<open>\<open>_check_bracketed_host\<close>: an IPvFuture literal or an IPv6 address.\<close>

definition bracketed_host_ok :: "ustr \<Rightarrow> bool" where
  "bracketed_host_ok h =
     (if h \<noteq> [] \<and> hd h = 118
      then (let v = before 46 (tl h)
            in v \<noteq> [] \<and> list_all (\<lambda>c. hex_value c \<noteq> None) v \<and> 46 \<in> set h \<and> after 46 h \<noteq> [] \<and> 10 \<notin> set (after 46 h))
      else parse_ipv4 h = None \<and> parse_ipv6 h \<noteq> None)"

definition hostinfo :: "ustr \<Rightarrow> ustr" where   \<comment> \<open>\<open>netloc.rpartition("@")[2]\<close>\<close>
  "hostinfo netloc = last_segment 64 netloc"

definition bracketed_netloc_ok :: "ustr \<Rightarrow> bool" where
  "bracketed_netloc_ok netloc =
     (let h = hostinfo netloc
      in if 91 \<in> set h
         then before 91 h = [] \<and>
              (let port = after 93 (after 91 h) in port = [] \<or> hd port = 58) \<and>
              bracketed_host_ok (before 93 (after 91 h))
         else bracketed_host_ok (before 58 h))"

definition netloc_ok :: "(ustr \<Rightarrow> ustr) \<Rightarrow> ustr \<Rightarrow> bool" where   \<comment> \<open>\<open>_checknetloc\<close>\<close>
  "netloc_ok nfkc netloc =
     (netloc = [] \<or> list_all (\<lambda>c. c < 128) netloc \<or>
      (let n = filter (\<lambda>c. c \<notin> {64, 58, 35, 63}) netloc
       in nfkc n = n \<or> \<not> list_ex (\<lambda>c. c \<in> {47, 63, 35, 64, 58}) (nfkc n)))"

definition netloc_hostname :: "unicode_db \<Rightarrow> ustr \<Rightarrow> ustr option" where
  "netloc_hostname U netloc =
     (let h = hostinfo netloc;
          host = (if 91 \<in> set h then before 93 (after 91 h) else before 58 h)
      in if host = [] then None
         else Some (if 37 \<in> set host then uc_lower U (before 37 host) @ 37 # after 37 host
                    else uc_lower U host))"

text \<open>Scheme and host name; \<open>None\<close> is a \<open>ValueError\<close>.\<close>

definition urlsplit :: "unicode_db \<Rightarrow> (ustr \<Rightarrow> ustr) \<Rightarrow> ustr \<Rightarrow> (ustr \<times> ustr option) option" where
  "urlsplit U nfkc url0 =
     (let url = filter (\<lambda>c. c \<notin> {9, 13, 10}) (dropWhile (\<lambda>c. c \<le> 32) url0);
          head = before 58 url;
          has_scheme = (58 \<in> set url \<and> head \<noteq> [] \<and> is_alpha (hd head) \<and> list_all is_scheme_char head);
          scheme = (if has_scheme then lower_ascii head else []);
          rest = (if has_scheme then after 58 url else url);
          netloc = (if take 2 rest = [47, 47] then takeWhile (\<lambda>c. c \<notin> {47, 63, 35}) (drop 2 rest) else [])
      in if (91 \<in> set netloc) \<noteq> (93 \<in> set netloc) then None
         else if 91 \<in> set netloc \<and> \<not> bracketed_netloc_ok netloc then None
         else if \<not> netloc_ok nfkc netloc then None
         else Some (scheme, netloc_hostname U netloc))"

section \<open>The guard\<close>

record webhook_policy =
  wp_production :: bool
  wp_allowed_internal_hosts :: "ustr list"

definition policy_from_settings ::
  "unicode_db \<Rightarrow> ustr \<Rightarrow> bool \<Rightarrow> ustr list \<Rightarrow> webhook_policy" where
  "policy_from_settings U environment strict hosts = \<lparr>
     wp_production = (environment = u ''production'' \<or> strict),
     wp_allowed_internal_hosts = map (\<lambda>h. uc_lower U (strip h)) (filter (\<lambda>h. strip h \<noteq> []) hosts)\<rparr>"

datatype target_error =
  BAD_SCHEME | NO_HOST | NOT_HTTPS | BLOCKED_ADDRESS ustr ip | PRIVATE_ADDRESS ustr ip | UNRESOLVABLE ustr

datatype ssrf_error = WebhookTargetError target_error | Escapes string

datatype resolution = Addrs "ustr list" | OsError | RaisesOther string

definition reject_if_blocked :: "ip \<Rightarrow> ustr \<Rightarrow> bool \<Rightarrow> ssrf_error + unit" where
  "reject_if_blocked a host production =
     (if is_always_blocked a then Inl (WebhookTargetError (BLOCKED_ADDRESS host a))
      else if production \<and> is_private a then Inl (WebhookTargetError (PRIVATE_ADDRESS host a))
      else Inr ())"

definition split_target :: "unicode_db \<Rightarrow> (ustr \<Rightarrow> ustr) \<Rightarrow> ustr \<Rightarrow> ssrf_error + ustr \<times> ustr" where
  "split_target U nfkc url =
     (case urlsplit U nfkc url of
        None \<Rightarrow> Inl (Escapes ''ValueError'')
      | Some (scheme0, hostname) \<Rightarrow>
          (let scheme = lower_ascii scheme0
           in if scheme \<noteq> u ''http'' \<and> scheme \<noteq> u ''https'' then Inl (WebhookTargetError BAD_SCHEME)
              else case hostname of
                None \<Rightarrow> Inl (WebhookTargetError NO_HOST)
              | Some host \<Rightarrow> Inr (host, scheme)))"

definition resolve_ips :: "ustr \<Rightarrow> (ustr \<Rightarrow> resolution) \<Rightarrow> ssrf_error + ustr list" where
  "resolve_ips host resolver =
     (case resolver host of
        OsError \<Rightarrow> Inl (WebhookTargetError (UNRESOLVABLE host))
      | RaisesOther n \<Rightarrow> Inl (Escapes n)
      | Addrs addrs \<Rightarrow> if addrs = [] then Inl (WebhookTargetError (UNRESOLVABLE host)) else Inr addrs)"

fun check_addrs :: "ustr \<Rightarrow> bool \<Rightarrow> ustr list \<Rightarrow> ssrf_error + unit" where
  "check_addrs host production [] = Inr ()"
| "check_addrs host production (raw # raws) =
     (case ip_address (hd (split_on 37 raw)) of
        None \<Rightarrow> Inl (Escapes ''ValueError'')
      | Some a \<Rightarrow>
          (case reject_if_blocked a host production of
             Inl e \<Rightarrow> Inl e
           | Inr _ \<Rightarrow> check_addrs host production raws))"

definition check_webhook_url ::
  "unicode_db \<Rightarrow> (ustr \<Rightarrow> ustr) \<Rightarrow> webhook_policy \<Rightarrow> (ustr \<Rightarrow> resolution) option \<Rightarrow> ustr \<Rightarrow> ssrf_error + unit" where
  "check_webhook_url U nfkc policy resolver url =
     (case split_target U nfkc url of
        Inl e \<Rightarrow> Inl e
      | Inr (host, scheme) \<Rightarrow>
          if uc_lower U host \<in> set (wp_allowed_internal_hosts policy) then Inr ()
          else if wp_production policy \<and> scheme \<noteq> u ''https'' then Inl (WebhookTargetError NOT_HTTPS)
          else case ip_address host of
            Some a \<Rightarrow> reject_if_blocked a host (wp_production policy)
          | None \<Rightarrow>
              (case resolver of
                 None \<Rightarrow> Inr ()
               | Some r \<Rightarrow>
                   (case resolve_ips host r of
                      Inl e \<Rightarrow> Inl e
                    | Inr addrs \<Rightarrow> check_addrs host (wp_production policy) addrs)))"

definition build_url_guard ::
  "unicode_db \<Rightarrow> (ustr \<Rightarrow> ustr) \<Rightarrow> webhook_policy \<Rightarrow> (ustr \<Rightarrow> resolution) \<Rightarrow> ustr \<Rightarrow> bool result" where
  "build_url_guard U nfkc policy resolver url =
     (case check_webhook_url U nfkc policy (Some resolver) url of
        Inr _ \<Rightarrow> Inr True
      | Inl (WebhookTargetError _) \<Rightarrow> Inr False
      | Inl (Escapes n) \<Rightarrow> Inl (Raised n))"

section \<open>What the guard lets through\<close>

text \<open>
  The specification, in plain intervals of address numbers: what the module documents as
  blocked everywhere, and the private ranges it documents as blocked in production, RFC 1918,
  unique-local and CGNAT (100.64.0.0/10).
\<close>

definition internal4 :: "32 word \<Rightarrow> bool" where
  "internal4 a \<longleftrightarrow> (let n = unat a in
     n = 0 \<or> (0x7f000000 \<le> n \<and> n \<le> 0x7fffffff) \<or> (0xa9fe0000 \<le> n \<and> n \<le> 0xa9feffff) \<or> 0xe0000000 \<le> n)"

definition rfc1918 :: "32 word \<Rightarrow> bool" where
  "rfc1918 a \<longleftrightarrow> (let n = unat a in
     (0x0a000000 \<le> n \<and> n \<le> 0x0affffff) \<or> (0xac100000 \<le> n \<and> n \<le> 0xac1fffff) \<or>
     (0xc0a80000 \<le> n \<and> n \<le> 0xc0a8ffff))"

fun internal_ip :: "ip \<Rightarrow> bool" where
  "internal_ip (IPv4 a) = internal4 a"
| "internal_ip (IPv6 a) = (case ipv4_mapped a of Some b \<Rightarrow> internal4 b
     | None \<Rightarrow> a = 0 \<or> a = 1 \<or> drop_bit 118 a = 0x3fa \<or> drop_bit 120 a = 0xff)"

definition cgnat :: "32 word \<Rightarrow> bool" where
  "cgnat a \<longleftrightarrow> 0x64400000 \<le> unat a \<and> unat a \<le> 0x647fffff"

fun cgnat_ip :: "ip \<Rightarrow> bool" where
  "cgnat_ip (IPv4 a) = cgnat a"
| "cgnat_ip (IPv6 a) = (case ipv4_mapped a of Some b \<Rightarrow> cgnat b | None \<Rightarrow> False)"

fun private_ip :: "ip \<Rightarrow> bool" where
  "private_ip (IPv4 a) = (rfc1918 a \<or> cgnat a)"
| "private_ip (IPv6 a) = (case ipv4_mapped a of Some b \<Rightarrow> rfc1918 b \<or> cgnat b | None \<Rightarrow> drop_bit 121 a = 0x7e)"

text \<open>
  What an address that is let through satisfies: it is none of those blocked everywhere, and
  in production it is not private to \<open>ipaddress\<close> and in none of the documented private ranges
  except CGNAT, which the code does not recognise (\<open>cgnat_accepted_in_production\<close>).
\<close>

definition permitted_ip :: "bool \<Rightarrow> ip \<Rightarrow> bool" where
  "permitted_ip production a \<longleftrightarrow> \<not> is_always_blocked a \<and> \<not> internal_ip a \<and>
     (production \<longrightarrow> \<not> is_private a \<and> (private_ip a \<longrightarrow> cgnat_ip a))"

text \<open>The addresses a host name stands for at the time of the check.\<close>

definition denotes :: "(ustr \<Rightarrow> resolution) \<Rightarrow> ustr \<Rightarrow> ip set" where
  "denotes resolver host =
     (case ip_address host of
        Some a \<Rightarrow> {a}
      | None \<Rightarrow> (case resolver host of
                    Addrs addrs \<Rightarrow> {a. \<exists>raw \<in> set addrs. ip_address (hd (split_on 37 raw)) = Some a}
                  | _ \<Rightarrow> {}))"

lemma in_net_unat:
  fixes a :: "'a::len word"
  shows "in_net a (b, h) \<longleftrightarrow> unat a div 2 ^ h = unat b div 2 ^ h"
  unfolding in_net_def word_unat_eq_iff unat_drop_bit_eq fst_conv snd_conv by (simp only: drop_bit_eq_div)

lemma drop_bit_unat:
  fixes a :: "'a::len word"
  shows "drop_bit h a = b \<longleftrightarrow> unat a div 2 ^ h = unat b"
  unfolding word_unat_eq_iff unat_drop_bit_eq by (simp only: drop_bit_eq_div)

lemma unat_quad [simp]:
  assumes "a < 256" "b < 256" "c < 256" "d < 256"
  shows "unat (quad a b c d) = ((a * 256 + b) * 256 + c) * 256 + d"
proof -
  have "((a * 256 + b) * 256 + c) * 256 + d < 2 ^ 32" using assms by simp
  then show ?thesis unfolding quad_def unat_of_nat by (simp only: mod_less len_bit0 len_num1) simp
qed

lemma blocked4_iff: "blocked4 a \<longleftrightarrow> internal4 a"
proof -
  have "a = 0 \<longleftrightarrow> unat a = 0" by (simp add: unsigned_eq_0_iff)
  moreover have "unat a < 4294967296" using unsigned_less [of a] by simp
  ultimately show ?thesis
    unfolding blocked4_def internal4_def in_net_unat Let_def by simp linarith
qed

lemma rfc1918_private4: "rfc1918 a \<Longrightarrow> is_private4 a"
proof -
  assume r: "rfc1918 a"
  have "unat a div 16777216 = 10 \<or> unat a div 1048576 = 2753 \<or> unat a div 65536 = 49320"
    using r unfolding rfc1918_def Let_def by (elim disjE) (linarith, linarith, linarith)
  moreover have "unat a \<noteq> 3221225481" "unat a \<noteq> 3221225482"
    using r by (auto simp: rfc1918_def Let_def)
  ultimately show "is_private4 a"
    unfolding is_private4_def in_any_def private4_def private4_exceptions_def
    by (auto simp: in_net_unat)
qed

lemma net6_in:
  fixes x :: "128 word"
  assumes "a < 65536" and "len \<le> 48" and "b < 65536" "c < 65536"
  shows "in_net x (net6 a b c len) \<longleftrightarrow> unat x div 2 ^ (128 - len) = ((a * 65536 + b) * 65536 + c) * 2 ^ 80 div 2 ^ (128 - len)"
proof -
  have "((a * 65536 + b) * 65536 + c) * 2 ^ 80 < (2::nat) ^ 128" using assms by simp
  then have "unat (of_nat (((a * 65536 + b) * 65536 + c) * 2 ^ 80) :: 128 word) = ((a * 65536 + b) * 65536 + c) * 2 ^ 80"
    unfolding unat_of_nat by (simp only: mod_less len_bit0 len_num1) simp
  then show ?thesis unfolding net6_def in_net_unat by simp
qed

lemma internal6_blocked:
  "a = 0 \<or> a = 1 \<or> drop_bit 118 a = 0x3fa \<or> drop_bit 120 a = 0xff \<Longrightarrow> blocked6 a"
  unfolding blocked6_def by (auto simp: net6_in drop_bit_unat)

lemma ula_private6:
  assumes "drop_bit 121 a = 0x7e"
  shows "in_any a private6 \<and> \<not> in_any a private6_exceptions"
proof -
  have n: "unat a div 2 ^ 121 = 0x7e" using assms by (simp add: drop_bit_unat)
  have "in_net a (net6 0xfc00 0 0 7)" using n by (simp add: net6_in)
  then have "in_any a private6" by (simp add: in_any_def private6_def)
  moreover have "\<not> in_any a private6_exceptions"
    using n unfolding in_any_def private6_exceptions_def
    by (simp add: net6_in in_net_unat) linarith
  ultimately show ?thesis by blast
qed

lemma accepted_ip:
  assumes "reject_if_blocked a host production = Inr ()"
  shows "permitted_ip production a"
proof (cases a)
  case (IPv4 b)
  then show ?thesis
    using assms rfc1918_private4 by (auto simp: permitted_ip_def reject_if_blocked_def blocked4_iff split: if_splits)
next
  case (IPv6 b)
  then show ?thesis
    using assms rfc1918_private4 internal6_blocked [of b] ula_private6 [of b]
    by (cases "ipv4_mapped b") (auto simp: permitted_ip_def reject_if_blocked_def blocked4_iff split: if_splits)
qed

lemma check_addrs_Inr:
  "check_addrs host production raws = Inr () \<Longrightarrow> raw \<in> set raws \<Longrightarrow>
     \<exists>a. ip_address (hd (split_on 37 raw)) = Some a \<and> reject_if_blocked a host production = Inr ()"
  by (induction raws) (auto split: option.splits sum.splits)

text \<open>
  A URL the send-time guard accepts is HTTP or HTTPS, and either its host is on the
  operator's allowlist or every address it denotes (the literal, or everything the
  resolver answers, at least one) lies outside loopback, link-local with the metadata
  address, multicast, reserved and unspecified space, IPv4-mapped forms included; in
  production it is HTTPS and no address is in the RFC 1918 or unique-local ranges or private
  to \<open>ipaddress\<close> for another reason.
\<close>

theorem guard_accepts_only_safe_targets:
  assumes "build_url_guard U nfkc policy resolver url = Inr True"
  shows "\<exists>host scheme. split_target U nfkc url = Inr (host, scheme) \<and> (scheme = u ''http'' \<or> scheme = u ''https'') \<and>
    (uc_lower U host \<in> set (wp_allowed_internal_hosts policy) \<or>
     (wp_production policy \<longrightarrow> scheme = u ''https'') \<and> denotes resolver host \<noteq> {} \<and>
     (\<forall>a \<in> denotes resolver host. permitted_ip (wp_production policy) a))"
proof -
  have ok: "check_webhook_url U nfkc policy (Some resolver) url = Inr ()"
    using assms by (auto simp: build_url_guard_def split: sum.splits ssrf_error.splits)
  then obtain host scheme where t: "split_target U nfkc url = Inr (host, scheme)"
    by (auto simp: check_webhook_url_def split: sum.splits)
  then have sch: "scheme = u ''http'' \<or> scheme = u ''https''"
    by (auto simp: split_target_def Let_def split: option.splits if_splits)
  show ?thesis
  proof (cases "uc_lower U host \<in> set (wp_allowed_internal_hosts policy)")
    case True
    then show ?thesis using t sch by blast
  next
    case False
    then have https: "wp_production policy \<longrightarrow> scheme = u ''https''"
      using ok t by (auto simp: check_webhook_url_def split: if_splits)
    have all: "denotes resolver host \<noteq> {} \<and>
        (\<forall>a \<in> denotes resolver host. reject_if_blocked a host (wp_production policy) = Inr ())"
    proof (cases "ip_address host")
      case (Some a)
      then show ?thesis
        using ok t False https by (auto simp: check_webhook_url_def denotes_def split: if_splits)
    next
      case None
      then obtain addrs where r: "resolver host = Addrs addrs" "addrs \<noteq> []"
        and c: "check_addrs host (wp_production policy) addrs = Inr ()"
        using ok t False https
        by (auto simp: check_webhook_url_def resolve_ips_def split: if_splits sum.splits resolution.splits)
      have "hd addrs \<in> set addrs" using r by simp
      with check_addrs_Inr [OF c] have "denotes resolver host \<noteq> {}"
        using None r by (fastforce simp: denotes_def)
      moreover have "\<forall>a \<in> denotes resolver host. reject_if_blocked a host (wp_production policy) = Inr ()"
        using None r check_addrs_Inr [OF c] by (fastforce simp: denotes_def)
      ultimately show ?thesis by blast
    qed
    with accepted_ip t sch https show ?thesis by blast
  qed
qed

definition ascii_db :: unicode_db where
  "ascii_db = \<lparr>uc_nfc = id, uc_other = (\<lambda>c. c < 32), uc_lower = lower_ascii\<rparr>"

text \<open>One resolved public address is enough to be let through.\<close>

lemma guard_one_address:
  assumes "split_target U nfkc url = Inr (host, u ''https'')" and "ip_address host = None"
    and "uc_lower U host \<notin> set (wp_allowed_internal_hosts policy)"
    and "resolver host = Addrs [raw]" and "ip_address (hd (split_on 37 raw)) = Some (IPv4 a)"
    and "\<not> internal4 a" and "\<not> is_private4 a"
  shows "build_url_guard U nfkc policy resolver url = Inr True"
  using assms
  by (simp add: build_url_guard_def check_webhook_url_def resolve_ips_def reject_if_blocked_def blocked4_iff)

definition strict_policy :: webhook_policy where
  "strict_policy = \<lparr>wp_production = True, wp_allowed_internal_hosts = []\<rparr>"

lemma hooks_target:
  "split_target ascii_db id (u ''https://hooks.example/x'') = Inr (u ''hooks.example'', u ''https'')"
  "ip_address (u ''hooks.example'') = None"
  by code_simp+

lemma dotted_public:
  "ip_address (hd (split_on 37 (u ''93.184.216.34''))) = Some (IPv4 (quad 93 184 216 34))"
  "ip_address (hd (split_on 37 (u ''100.64.0.1''))) = Some (IPv4 (quad 100 64 0 1))"
  by (simp_all add: ip_address_def parse_ipv4_def u_def parse_octet_def is_digit_def dec_value_def)

lemma public_quads:
  "\<not> internal4 (quad 93 184 216 34)" "\<not> internal4 (quad 100 64 0 1)"
  "\<not> is_private4 (quad 93 184 216 34)" "\<not> is_private4 (quad 100 64 0 1)"
  unfolding internal4_def is_private4_def in_any_def private4_def private4_exceptions_def
  by (simp_all add: in_net_unat)

theorem guard_accepts_only_safe_targets_witness:
  "build_url_guard ascii_db id strict_policy (\<lambda>_. Addrs [u ''93.184.216.34'']) (u ''https://hooks.example/x'') = Inr True \<and>
   denotes (\<lambda>_. Addrs [u ''93.184.216.34'']) (u ''hooks.example'') \<inter> Collect internal_ip = {}"
proof -
  have g: "build_url_guard ascii_db id strict_policy (\<lambda>_. Addrs [u ''93.184.216.34'']) (u ''https://hooks.example/x'') = Inr True"
    by (rule guard_one_address [OF hooks_target _ refl dotted_public(1) public_quads(1,3)])
      (simp add: strict_policy_def)
  from guard_accepts_only_safe_targets [OF g] g show ?thesis
    by (auto simp: hooks_target strict_policy_def permitted_ip_def)
qed

text \<open>
  What the guard does not do. The shared address space 100.64.0.0/10 (CGNAT) is documented as
  blocked in production but is not private to \<open>ipaddress\<close>, so it is accepted; and a resolver exception other than
  \<open>OSError\<close> is not turned into a refusal.
\<close>

lemma cgnat_accepted_in_production:
  "build_url_guard ascii_db id strict_policy (\<lambda>_. Addrs [u ''100.64.0.1'']) (u ''https://hooks.example/x'') = Inr True \<and>
   private_ip (IPv4 (quad 100 64 0 1)) \<and> cgnat_ip (IPv4 (quad 100 64 0 1))"
proof
  show "build_url_guard ascii_db id strict_policy (\<lambda>_. Addrs [u ''100.64.0.1'']) (u ''https://hooks.example/x'') = Inr True"
    by (rule guard_one_address [OF hooks_target _ refl dotted_public(2) public_quads(2,4)]) (simp add: strict_policy_def)
qed (simp add: cgnat_def)

lemma dotdot_target:
  "split_target ascii_db id (u ''https://a..b/x'') = Inr (u ''a..b'', u ''https'')" "ip_address (u ''a..b'') = None"
  by code_simp+

lemma resolver_exception_escapes:
  "check_webhook_url ascii_db id strict_policy None (u ''https://a..b/x'') = Inr () \<and>
   build_url_guard ascii_db id strict_policy (\<lambda>_. RaisesOther ''UnicodeError'') (u ''https://a..b/x'') =
     Inl (Raised ''UnicodeError'')"
  by (simp add: build_url_guard_def check_webhook_url_def dotdot_target strict_policy_def resolve_ips_def)

section \<open>Dotted quads\<close>

definition dotted :: "nat \<Rightarrow> nat \<Rightarrow> nat \<Rightarrow> nat \<Rightarrow> ustr" where
  "dotted a b c d = join_with 46 [str_nat a, str_nat b, str_nat c, str_nat d]"

lemma str_nat_digits: "c \<in> set (str_nat n) \<Longrightarrow> is_digit c"
proof (induction n rule: str_nat.induct)
  case (1 n)
  have "n mod 10 < 10" by simp
  with 1 show ?case
    by (subst (asm) (2) str_nat.simps) (auto simp: is_digit_def split: if_splits)
qed

lemma str_nat_small:
  "n < 10 \<Longrightarrow> str_nat n = [48 + n]"
  "10 \<le> n \<Longrightarrow> n < 100 \<Longrightarrow> str_nat n = [48 + n div 10, 48 + n mod 10]"
  "100 \<le> n \<Longrightarrow> n < 1000 \<Longrightarrow> str_nat n = [48 + n div 100, 48 + n div 10 mod 10, 48 + n mod 10]"
proof -
  show one: "n < 10 \<Longrightarrow> str_nat n = [48 + n]" for n by (simp add: str_nat.simps [of n])
  show two: "10 \<le> n \<Longrightarrow> n < 100 \<Longrightarrow> str_nat n = [48 + n div 10, 48 + n mod 10]" for n
    using one [of "n div 10"] by (simp add: str_nat.simps [of n] less_mult_imp_div_less)
  show "100 \<le> n \<Longrightarrow> n < 1000 \<Longrightarrow> str_nat n = [48 + n div 100, 48 + n div 10 mod 10, 48 + n mod 10]"
    using two [of "n div 10"] by (simp add: str_nat.simps [of n] less_mult_imp_div_less div_mult2_eq [symmetric])
qed

lemma parse_octet_digits:
  "0 < a \<Longrightarrow> a < 10 \<Longrightarrow> b < 10 \<Longrightarrow> c < 10 \<Longrightarrow> (a * 10 + b) * 10 + c \<le> 255 \<Longrightarrow>
     parse_octet [48 + a, 48 + b, 48 + c] = Some ((a * 10 + b) * 10 + c)"
  by (simp add: parse_octet_def is_digit_def dec_value_def)

lemma octet_roundtrip:
  assumes "n < 256" shows "parse_octet (str_nat n) = Some n"
proof -
  consider "n < 10" | "10 \<le> n" "n < 100" | "100 \<le> n" by linarith
  then show ?thesis
  proof cases
    case 1
    then show ?thesis by (cases "n = 0") (simp_all add: str_nat_small parse_octet_def is_digit_def dec_value_def)
  next
    case 2
    then have "n div 10 < 10" "n div 10 \<noteq> 0" by auto
    with 2 show ?thesis by (simp add: str_nat_small parse_octet_def is_digit_def dec_value_def)
  next
    case 3
    have eq: "(n div 100 * 10 + n div 10 mod 10) * 10 + n mod 10 = n"
      using div_mult_mod_eq [of "n div 10" 10] div_mult_mod_eq [of n 10] by (simp add: div_mult2_eq [symmetric])
    have "0 < n div 100" using 3 by (simp add: div_greater_zero_iff)
    moreover have "n div 100 < 10" using assms by (intro less_mult_imp_div_less) simp
    moreover have "n div 10 mod 10 < 10" "n mod 10 < 10" by simp_all
    moreover have "(n div 100 * 10 + n div 10 mod 10) * 10 + n mod 10 \<le> 255" unfolding eq using assms by simp
    ultimately have "parse_octet [48 + n div 100, 48 + n div 10 mod 10, 48 + n mod 10] = Some n"
      using parse_octet_digits eq by metis
    moreover have "str_nat n = [48 + n div 100, 48 + n div 10 mod 10, 48 + n mod 10]"
      using 3 assms by (intro str_nat_small) simp_all
    ultimately show ?thesis by simp
  qed
qed

text \<open>
  The parser reads back the canonical rendering: a dotted quad of octets parses to
  the address with those octets, so literal hosts are classified as the address they
  name.
\<close>

theorem dotted_quad_roundtrip:
  assumes "a < 256" "b < 256" "c < 256" "d < 256"
  shows "ip_address (dotted a b c d) = Some (IPv4 (quad a b c d))"
proof -
  have "46 \<notin> set (str_nat n)" for n using str_nat_digits [of 46 n] by (auto simp: is_digit_def)
  then have "split_on 46 (dotted a b c d) = [str_nat a, str_nat b, str_nat c, str_nat d]"
    unfolding dotted_def by (intro split_join) auto
  with assms show ?thesis by (simp add: ip_address_def parse_ipv4_def octet_roundtrip)
qed

theorem dotted_quad_roundtrip_witness:
  "ip_address (dotted 169 254 169 254) = Some (IPv4 (quad 169 254 169 254))"
  by (rule dotted_quad_roundtrip) simp_all

end
