(* ===== verification/PyJson.thy ===== *)
theory PyJson
  imports PyText Complex_Main
begin

text \<open>
  Values of \<open>json\<close> and the codecs of the standard library the service calls on client
  text. A decoded document is a value of \<open>json\<close>. Rendering and parsing of documents,
  base64, ISO timestamps, decimal integers and UUID text are the fields of
  \<open>py_codec\<close>; \<open>codec_laws\<close> states what the code relies on, that parsing undoes
  rendering. \<open>demo_codec\<close> is a concrete codec with these laws.
\<close>

datatype py_float = PF_Finite rat | PF_Infinite | PF_Nan

datatype json =
    J_Null | J_Bool bool | J_Int int | J_Float py_float | J_Str ustr
  | J_List "json list" | J_Obj "(ustr \<times> json) list"

text \<open>\<open>int(x)\<close> of a finite float truncates toward zero.\<close>

definition truncate_rat :: "rat \<Rightarrow> int" where
  "truncate_rat r = (if 0 \<le> r then floor r else ceiling r)"

record py_codec =
  pc_token :: "json \<Rightarrow> ustr"                 \<comment> \<open>\<open>urlsafe_b64encode(json.dumps(_).encode()).decode()\<close>\<close>
  pc_untoken :: "ustr \<Rightarrow> json option"        \<comment> \<open>\<open>None\<close>: a base64, UTF-8 or JSON error\<close>
  pc_str :: "json \<Rightarrow> ustr"                   \<comment> \<open>\<open>str(_)\<close>\<close>
  pc_int :: "ustr \<Rightarrow> int option"             \<comment> \<open>\<open>int(text)\<close>, \<open>None\<close>: ValueError\<close>
  pc_uuid :: "ustr \<Rightarrow> uuid option"           \<comment> \<open>\<open>uuid.UUID(text)\<close>, \<open>None\<close>: ValueError\<close>
  pc_isoformat :: "int \<Rightarrow> ustr"
  pc_fromisoformat :: "ustr \<Rightarrow> int option"

definition codec_laws :: "py_codec \<Rightarrow> bool" where
  "codec_laws pc \<longleftrightarrow>
     (\<forall>s i. pc_untoken pc (pc_token pc (J_Obj [(u ''v'', J_Str s), (u ''id'', J_Str i)])) =
        Some (J_Obj [(u ''v'', J_Str s), (u ''id'', J_Str i)])) \<and>
     (\<forall>n i. pc_untoken pc (pc_token pc (J_Obj [(u ''v'', J_Int n), (u ''id'', J_Str i)])) =
        Some (J_Obj [(u ''v'', J_Int n), (u ''id'', J_Str i)])) \<and>
     (\<forall>s. pc_str pc (J_Str s) = s) \<and>
     (\<forall>i. pc_uuid pc (uuid_str i) = Some i) \<and> (\<forall>i. pc_uuid pc (uuid_hex i) = Some i) \<and>
     (\<forall>t. pc_fromisoformat pc (pc_isoformat pc t) = Some t)"

lemma codec_untoken:
  "codec_laws pc \<Longrightarrow> pc_untoken pc (pc_token pc (J_Obj [(u ''v'', J_Str s), (u ''id'', J_Str i)])) =
     Some (J_Obj [(u ''v'', J_Str s), (u ''id'', J_Str i)])"
  "codec_laws pc \<Longrightarrow> pc_untoken pc (pc_token pc (J_Obj [(u ''v'', J_Int n), (u ''id'', J_Str i)])) =
     Some (J_Obj [(u ''v'', J_Int n), (u ''id'', J_Str i)])"
  by (simp_all add: codec_laws_def)

lemma codec_str: "codec_laws pc \<Longrightarrow> pc_str pc (J_Str s) = s"
  by (simp add: codec_laws_def)

lemma codec_uuid:
  "codec_laws pc \<Longrightarrow> pc_uuid pc (uuid_str i) = Some i"
  "codec_laws pc \<Longrightarrow> pc_uuid pc (uuid_hex i) = Some i"
  by (simp_all add: codec_laws_def)

lemma codec_iso: "codec_laws pc \<Longrightarrow> pc_fromisoformat pc (pc_isoformat pc t) = Some t"
  by (simp add: codec_laws_def)

section \<open>Hexadecimal text\<close>

definition hex_val :: "nat \<Rightarrow> nat" where
  "hex_val c = (if c < 58 then c - 48 else c - 87)"

definition hex_value :: "ustr \<Rightarrow> nat" where
  "hex_value s = foldl (\<lambda>a c. 16 * a + hex_val c) 0 s"

lemma hex_val_digit: "d < 16 \<Longrightarrow> hex_val (hex_digit d) = d"
  by (auto simp: hex_val_def hex_digit_def)

lemma hex_value_digits: "k < 16 ^ n \<Longrightarrow> hex_value (hex_digits n k) = k"
proof (induction n arbitrary: k)
  case (Suc n)
  then have "hex_value (hex_digits n (k div 16)) = k div 16"
    by (simp add: less_mult_imp_div_less mult.commute)
  then show ?case by (simp add: hex_value_def hex_val_digit)
qed (simp add: hex_value_def)

definition uuid_of_hex :: "ustr \<Rightarrow> uuid" where
  "uuid_of_hex s = word_of_nat (hex_value (filter (\<lambda>c. c \<noteq> 45) s))"

lemma hyphen_free: "filter (\<lambda>c. c \<noteq> 45) (uuid_hex i) = uuid_hex i"
  using uuid_hex_range [of _ i] by (force simp: filter_id_conv)

lemma uuid_of_hex: "uuid_of_hex (uuid_hex i) = i"
proof -
  have "unat i < 16 ^ 32" using unsigned_less [of i] by simp
  then have "hex_value (uuid_hex i) = unat i" by (simp add: uuid_hex_def hex_value_digits)
  then show ?thesis by (simp add: uuid_of_hex_def hyphen_free)
qed

lemma filter_uuid_str: "filter (\<lambda>c. c \<noteq> 45) (uuid_str i) = uuid_hex i"
proof -
  let ?h = "uuid_hex i"
  have f: "filter (\<lambda>c. c \<noteq> 45) (take n (drop m ?h)) = take n (drop m ?h)" for n m
    using uuid_hex_range [of _ i] by (force simp: filter_id_conv dest!: in_set_takeD in_set_dropD)
  have d: "filter (\<lambda>c. c \<noteq> 45) (drop m ?h) = drop m ?h" for m
    using f [of "length ?h" m] by simp
  have "take 4 (drop n ?h) @ drop (4 + n) ?h = drop n ?h" for n
    using append_take_drop_id [of 4 "drop n ?h"] by (simp add: add.commute)
  from this [of 8] this [of 12] this [of 16] show ?thesis
    using f [of 8 0] f [of 4 8] f [of 4 12] f [of 4 16] d [of 20] by (simp add: uuid_str_def Let_def)
qed

lemma uuid_of_str: "uuid_of_hex (uuid_str i) = i"
  using uuid_of_hex [of i] by (simp add: uuid_of_hex_def filter_uuid_str hyphen_free)

section \<open>A concrete codec, for evaluation\<close>

definition int_text :: "int \<Rightarrow> ustr" where
  "int_text i = (if i < 0 then [1, nat (- i)] else [0, nat i])"

fun text_int :: "ustr \<Rightarrow> int option" where
  "text_int [0, n] = Some (int n)"
| "text_int [Suc 0, n] = Some (- int n)"
| "text_int _ = None"

lemma text_int_text: "text_int (int_text i) = Some i"
  by (simp add: int_text_def)

fun demo_token :: "json \<Rightarrow> ustr" where
  "demo_token (J_Obj [(_, J_Str s), (_, J_Str i)]) = 0 # length s # s @ i"
| "demo_token (J_Obj [(_, J_Int n), (_, J_Str i)]) = 1 # int_text n @ i"
| "demo_token _ = []"

fun demo_untoken :: "ustr \<Rightarrow> json option" where
  "demo_untoken (0 # n # t) = Some (J_Obj [(u ''v'', J_Str (take n t)), (u ''id'', J_Str (drop n t))])"
| "demo_untoken (Suc 0 # a # b # t) =
     map_option (\<lambda>i. J_Obj [(u ''v'', J_Int i), (u ''id'', J_Str t)]) (text_int [a, b])"
| "demo_untoken _ = None"

definition demo_codec :: py_codec where
  "demo_codec = \<lparr>pc_token = demo_token, pc_untoken = demo_untoken,
     pc_str = (\<lambda>j. case j of J_Str s \<Rightarrow> s | _ \<Rightarrow> []), pc_int = text_int,
     pc_uuid = (\<lambda>s. Some (uuid_of_hex s)), pc_isoformat = int_text, pc_fromisoformat = text_int\<rparr>"

lemma demo_codec_laws: "codec_laws demo_codec"
proof -
  have "demo_untoken (1 # int_text n @ i) = Some (J_Obj [(u ''v'', J_Int n), (u ''id'', J_Str i)])" for n i
    by (simp add: int_text_def)
  then show ?thesis
    by (simp add: codec_laws_def demo_codec_def uuid_of_hex uuid_of_str text_int_text)
qed

end
