(* ===== verification/ObjectAccess.thy ===== *)
theory ObjectAccess
  imports PyJson Categories Storage Keys "HOL-Library.List_Lexorder" "HOL-Library.Product_Lexorder"
begin

text \<open>
  The read side of \<open>controllers/objects.py\<close>: who may see an object, the listing
  statement with its filters, keyset pagination with its opaque cursor, and the
  owner-or-superuser loader of the mutating paths. A statement is the list of rows it
  selects. What the database decides about text (collation, \<open>LIKE\<close>) is the record
  \<open>text_db\<close>; the cursor's codecs are a \<open>py_codec\<close>.
\<close>

section \<open>Visibility\<close>

definition fetch_object :: "database \<Rightarrow> uuid \<Rightarrow> bool \<Rightarrow> media_object result" where
  "fetch_object db object_id include_deleted =
     (case tbl_get mo_id (db_objects db) object_id of
        None \<Rightarrow> Inl (Http 404 (DText ''Media object not found.''))
      | Some obj \<Rightarrow>
          if \<not> include_deleted \<and> mo_deleted_at obj \<noteq> None
          then Inl (Http 404 (DText ''Media object not found.''))
          else Inr obj)"

definition require_visibility_access :: "media_object \<Rightarrow> principal option \<Rightarrow> unit result" where
  "require_visibility_access obj current_user =
     (case current_user of
        None \<Rightarrow> if mo_visibility obj = VIS_PUBLIC then Inr ()
                else Inl (Http 404 (DText ''Media object not found.''))
      | Some p \<Rightarrow>
          if p_superuser p \<or> mo_owner_user_id obj = p_id p then Inr ()
          else if mo_visibility obj = VIS_PUBLIC then Inr ()
          else if mo_visibility obj = VIS_TENANT \<and> user_tenant_id p \<noteq> None \<and>
             mo_tenant_id obj = user_tenant_id p then Inr ()
          else Inl (Http 403 (DText ''Not enough permissions.'')))"

definition load_object :: "database \<Rightarrow> principal \<Rightarrow> uuid \<Rightarrow> bool \<Rightarrow> media_object result" where
  "load_object db p object_id include_deleted =
     (case fetch_object db object_id include_deleted of
        Inl e \<Rightarrow> Inl e
      | Inr obj \<Rightarrow>
          if \<not> p_superuser p \<and> mo_owner_user_id obj \<noteq> p_id p
          then Inl (Http 403 (DText ''Not enough permissions.'')) else Inr obj)"

definition load_object_for_read :: "database \<Rightarrow> principal option \<Rightarrow> uuid \<Rightarrow> media_object result" where
  "load_object_for_read db current_user object_id =
     (case fetch_object db object_id False of
        Inl e \<Rightarrow> Inl e
      | Inr obj \<Rightarrow>
          (case require_visibility_access obj current_user of Inl e \<Rightarrow> Inl e | Inr _ \<Rightarrow> Inr obj))"

lemma fetch_object_Inr:
  "fetch_object db i d = Inr obj \<longleftrightarrow>
     tbl_get mo_id (db_objects db) i = Some obj \<and> (d \<or> mo_deleted_at obj = None)"
  by (auto simp: fetch_object_def split: option.splits if_splits)

lemma load_object_Inr:
  "load_object db p i d = Inr obj \<longleftrightarrow>
     tbl_get mo_id (db_objects db) i = Some obj \<and> (d \<or> mo_deleted_at obj = None) \<and>
     (p_superuser p \<or> mo_owner_user_id obj = p_id p)"
  by (auto simp: load_object_def fetch_object_def split: option.splits)

lemma load_object_for_read_Inr:
  "load_object_for_read db p i = Inr obj \<longleftrightarrow>
     tbl_get mo_id (db_objects db) i = Some obj \<and> mo_deleted_at obj = None \<and>
     require_visibility_access obj p = Inr ()"
  by (auto simp: load_object_for_read_def fetch_object_def split: option.splits sum.splits)

section \<open>The listing statement\<close>

datatype sort_field = SORT_original_filename | SORT_category | SORT_status | SORT_size_bytes | SORT_created_at

record object_list_params =
  lp_category :: "media_category option"
  lp_visibility :: "media_visibility option"
  lp_status :: "media_object_status option"
  lp_mime_prefix :: "ustr option"
  lp_created_from :: "datetime option"
  lp_created_to :: "datetime option"
  lp_q :: "ustr option"
  lp_sort_by :: sort_field
  lp_descending :: bool          \<comment> \<open>\<open>order == "desc"\<close>\<close>
  lp_limit :: nat
  lp_cursor :: "ustr option"
  lp_owner_user_id :: "uuid option"
  lp_include_deleted :: bool
  lp_category_id :: "int option"
  lp_include_descendants :: bool
  lp_uncategorized :: bool

text \<open>The bounds and the model validator of \<open>ObjectListParams\<close>.\<close>

definition list_params_valid :: "object_list_params \<Rightarrow> bool" where
  "list_params_valid params \<longleftrightarrow> 1 \<le> lp_limit params \<and> lp_limit params \<le> 100 \<and>
     (case lp_category_id params of None \<Rightarrow> True | Some i \<Rightarrow> 1 \<le> i) \<and>
     \<not> (lp_uncategorized params \<and> lp_category_id params \<noteq> None)"

record text_db =
  td_collate :: "ustr \<Rightarrow> ustr"          \<comment> \<open>the column collation's sort key\<close>
  td_like :: "ustr \<Rightarrow> ustr \<Rightarrow> bool"      \<comment> \<open>\<open>x LIKE pattern\<close>, pattern first\<close>
  td_contains :: "ustr \<Rightarrow> ustr \<Rightarrow> bool"  \<comment> \<open>\<open>x LIKE '%' || escaped term || '%'\<close>\<close>

definition scoped_objects :: "object_list_params \<Rightarrow> principal option \<Rightarrow> media_object list \<Rightarrow> media_object list" where
  "scoped_objects params current_user rows =
     (case current_user of
        None \<Rightarrow> filter (\<lambda>o'. mo_visibility o' = VIS_PUBLIC \<and> mo_deleted_at o' = None) rows
      | Some p \<Rightarrow>
          if p_superuser p
          then (let owned = (case lp_owner_user_id params of
                       None \<Rightarrow> rows | Some w \<Rightarrow> filter (\<lambda>o'. mo_owner_user_id o' = w) rows)
                in if \<not> lp_include_deleted params
                   then filter (\<lambda>o'. mo_deleted_at o' = None) owned else owned)
          else filter (\<lambda>o'. mo_deleted_at o' = None)
                 (filter (\<lambda>o'. mo_owner_user_id o' = p_id p \<or> mo_visibility o' = VIS_PUBLIC \<or>
                    (case user_tenant_id p of
                       None \<Rightarrow> False
                     | Some t \<Rightarrow> mo_visibility o' = VIS_TENANT \<and> mo_tenant_id o' = Some t)) rows))"

definition when_given :: "'a option \<Rightarrow> ('a \<Rightarrow> 'r \<Rightarrow> bool) \<Rightarrow> 'r list \<Rightarrow> 'r list" where
  "when_given x P rows = (case x of None \<Rightarrow> rows | Some v \<Rightarrow> filter (P v) rows)"

definition apply_filters :: "text_db \<Rightarrow> object_list_params \<Rightarrow> media_object list \<Rightarrow> media_object list" where
  "apply_filters td params rows =
     when_given (lp_q params)
       (\<lambda>q o'. case mo_original_filename o' of None \<Rightarrow> False | Some n \<Rightarrow> td_contains td q n)
     (when_given (lp_created_to params) (\<lambda>t o'. mo_created_at o' \<le> t)
     (when_given (lp_created_from params) (\<lambda>t o'. mo_created_at o' \<ge> t)
     (when_given (lp_mime_prefix params) (\<lambda>m o'. td_like td (m @ u ''%'') (u (mo_mime_type o')))
     (when_given (lp_status params) (\<lambda>s o'. mo_status o' = s)
     (when_given (lp_visibility params) (\<lambda>v o'. mo_visibility o' = v)
     (when_given (lp_category params) (\<lambda>c o'. mo_category o' = c) rows))))))"

text \<open>
  The branch filter: \<open>EXISTS\<close> over the link rows of the object.
\<close>

definition apply_category_filter ::
  "database \<Rightarrow> principal option \<Rightarrow> object_list_params \<Rightarrow> media_object list \<Rightarrow> media_object list result" where
  "apply_category_filter db current_user params rows =
     (let filed = (\<lambda>o' P. list_ex (\<lambda>l. fst l = mo_id o' \<and> P (snd l)) (db_links db))
      in if lp_uncategorized params then Inr (filter (\<lambda>o'. \<not> filed o' (\<lambda>_. True)) rows)
         else case lp_category_id params of
           None \<Rightarrow> Inr rows
         | Some category_id \<Rightarrow>
             (case branch_category_ids db current_user category_id (lp_include_descendants params) of
                Inl e \<Rightarrow> Inl e
              | Inr branch_ids \<Rightarrow>
                  if branch_ids = [] then Inr []
                  else Inr (filter (\<lambda>o'. filed o' (\<lambda>c. c \<in> set branch_ids)) rows)))"

lemma scoped_objects_subset: "set (scoped_objects params p rows) \<subseteq> set rows"
  by (auto simp: scoped_objects_def Let_def split: option.splits if_splits)

lemma when_given_subset: "set (when_given x P rows) \<subseteq> set rows"
  by (auto simp: when_given_def split: option.splits)

lemma apply_filters_subset: "set (apply_filters td params rows) \<subseteq> set rows"
  unfolding apply_filters_def by (rule subset_trans [OF when_given_subset])+ (rule subset_refl)

lemma apply_category_filter_subset:
  "apply_category_filter db p params rows = Inr rows' \<Longrightarrow> set rows' \<subseteq> set rows"
  by (auto simp: apply_category_filter_def Let_def split: if_splits option.splits sum.splits)

text \<open>
  The filter methods keep a selection of the rows: ids stay distinct.
\<close>

lemma when_given_distinct: "distinct (map f rows) \<Longrightarrow> distinct (map f (when_given x P rows))"
  by (simp add: when_given_def distinct_map_filter split: option.splits)

lemma apply_filters_distinct: "distinct (map f rows) \<Longrightarrow> distinct (map f (apply_filters td params rows))"
  by (simp add: apply_filters_def when_given_distinct)

lemma scoped_objects_distinct: "distinct (map f rows) \<Longrightarrow> distinct (map f (scoped_objects params p rows))"
  by (auto simp: scoped_objects_def Let_def distinct_map_filter split: option.splits)

lemma apply_category_filter_distinct:
  "apply_category_filter db p params rows = Inr rows' \<Longrightarrow> distinct (map f rows) \<Longrightarrow> distinct (map f rows')"
  by (auto simp: apply_category_filter_def Let_def distinct_map_filter split: if_splits option.splits sum.splits)

section \<open>Keyset pagination\<close>

text \<open>A sort column's value: text compares by the collation, numbers and times as such.\<close>

datatype sort_value = SV_Int int | SV_Text ustr

instantiation sort_value :: linorder
begin

fun sort_value_rank :: "sort_value \<Rightarrow> (bool \<times> int) \<times> ustr" where
  "sort_value_rank (SV_Int i) = ((False, i), [])"
| "sort_value_rank (SV_Text s) = ((True, 0), s)"

definition less_eq_sort_value :: "sort_value \<Rightarrow> sort_value \<Rightarrow> bool" where
  "less_eq_sort_value a b \<longleftrightarrow> sort_value_rank a \<le> sort_value_rank b"

definition less_sort_value :: "sort_value \<Rightarrow> sort_value \<Rightarrow> bool" where
  "less_sort_value a b \<longleftrightarrow> sort_value_rank a < sort_value_rank b"

lemma sort_value_rank_inj: "sort_value_rank a = sort_value_rank b \<Longrightarrow> a = b"
  by (cases a; cases b) auto

instance
  by standard (auto simp: less_eq_sort_value_def less_sort_value_def intro: sort_value_rank_inj)

end

text \<open>\<open>_cursor_sort_value\<close>: what the cursor carries; \<open>sort_column\<close>: what the statement orders by.\<close>

definition cursor_sort_value :: "py_codec \<Rightarrow> sort_field \<Rightarrow> media_object \<Rightarrow> json" where
  "cursor_sort_value pc sort_by obj =
     (case sort_by of
        SORT_original_filename \<Rightarrow> J_Str (case mo_original_filename obj of None \<Rightarrow> [] | Some n \<Rightarrow> n)
      | SORT_category \<Rightarrow> J_Str (u (category_value (mo_category obj)))
      | SORT_status \<Rightarrow> J_Str (u (object_status_value (mo_status obj)))
      | SORT_size_bytes \<Rightarrow> J_Int (mo_size_bytes obj)
      | SORT_created_at \<Rightarrow> J_Str (pc_isoformat pc (mo_created_at obj)))"

definition sort_column :: "text_db \<Rightarrow> sort_field \<Rightarrow> media_object \<Rightarrow> sort_value" where
  "sort_column td sort_by obj =
     (case sort_by of
        SORT_original_filename \<Rightarrow>
          SV_Text (td_collate td (case mo_original_filename obj of None \<Rightarrow> [] | Some n \<Rightarrow> n))
      | SORT_category \<Rightarrow> SV_Text (td_collate td (u (category_value (mo_category obj))))
      | SORT_status \<Rightarrow> SV_Text (td_collate td (u (object_status_value (mo_status obj))))
      | SORT_size_bytes \<Rightarrow> SV_Int (mo_size_bytes obj)
      | SORT_created_at \<Rightarrow> SV_Int (mo_created_at obj))"

definition encode_cursor :: "py_codec \<Rightarrow> sort_field \<Rightarrow> media_object \<Rightarrow> ustr" where
  "encode_cursor pc sort_by obj =
     pc_token pc (J_Obj [(u ''v'', cursor_sort_value pc sort_by obj), (u ''id'', J_Str (uuid_str (mo_id obj)))])"

definition invalid_cursor :: err where
  "invalid_cursor = Http 400 (DText ''Invalid cursor.'')"

text \<open>
  \<open>int(raw)\<close> of a decoded value. A float infinity raises \<open>OverflowError\<close>, which is
  not among the exceptions \<open>_decode_cursor\<close> turns into a 400.
\<close>

fun cursor_int :: "py_codec \<Rightarrow> json \<Rightarrow> int result" where
  "cursor_int pc (J_Int i) = Inr i"
| "cursor_int pc (J_Bool b) = Inr (if b then 1 else 0)"
| "cursor_int pc (J_Float (PF_Finite r)) = Inr (truncate_rat r)"
| "cursor_int pc (J_Float PF_Infinite) = Inl (Raised ''OverflowError'')"
| "cursor_int pc (J_Float PF_Nan) = Inl invalid_cursor"
| "cursor_int pc (J_Str s) = (case pc_int pc s of Some i \<Rightarrow> Inr i | None \<Rightarrow> Inl invalid_cursor)"
| "cursor_int pc _ = Inl invalid_cursor"

definition decode_value :: "text_db \<Rightarrow> py_codec \<Rightarrow> sort_field \<Rightarrow> json \<Rightarrow> sort_value result" where
  "decode_value td pc sort_by raw =
     (case sort_by of
        SORT_created_at \<Rightarrow>
          (case raw of
             J_Str s \<Rightarrow> (case pc_fromisoformat pc s of
                          Some t \<Rightarrow> Inr (SV_Int t) | None \<Rightarrow> Inl invalid_cursor)
           | _ \<Rightarrow> Inl invalid_cursor)
      | SORT_size_bytes \<Rightarrow> (case cursor_int pc raw of Inl e \<Rightarrow> Inl e | Inr i \<Rightarrow> Inr (SV_Int i))
      | _ \<Rightarrow> Inr (SV_Text (td_collate td (pc_str pc raw))))"

definition decode_cursor :: "text_db \<Rightarrow> py_codec \<Rightarrow> sort_field \<Rightarrow> ustr \<Rightarrow> (sort_value \<times> uuid) result" where
  "decode_cursor td pc sort_by cursor =
     (case pc_untoken pc cursor of
        Some (J_Obj payload) \<Rightarrow>
          (case map_of payload (u ''id'') of
             None \<Rightarrow> Inl invalid_cursor
           | Some i \<Rightarrow>
               (case pc_uuid pc (pc_str pc i) of
                  None \<Rightarrow> Inl invalid_cursor
                | Some last_id \<Rightarrow>
                    (case map_of payload (u ''v'') of
                       None \<Rightarrow> Inl invalid_cursor
                     | Some raw \<Rightarrow>
                         (case decode_value td pc sort_by raw of
                            Inl e \<Rightarrow> Inl e | Inr v \<Rightarrow> Inr (v, last_id)))))
      | _ \<Rightarrow> Inl invalid_cursor)"

definition keyset_predicate :: "sort_value \<Rightarrow> uuid \<Rightarrow> bool \<Rightarrow> sort_value \<Rightarrow> uuid \<Rightarrow> bool" where
  "keyset_predicate v last_id descending sort_col id_col =
     (if descending then sort_col < v \<or> (sort_col = v \<and> id_col < last_id)
      else sort_col > v \<or> (sort_col = v \<and> id_col > last_id))"

definition ordered :: "text_db \<Rightarrow> object_list_params \<Rightarrow> media_object list \<Rightarrow> media_object list" where
  "ordered td params rows =
     (let asc = sort_key (\<lambda>o'. (sort_column td (lp_sort_by params) o', mo_id o')) rows
      in if lp_descending params then rev asc else asc)"

record media_object_public =
  mop_object :: media_object
  mop_categories :: "category_ref list"

record object_page =
  op_items :: "media_object_public list"
  op_next_cursor :: "ustr option"
  op_count :: nat

definition select_objects ::
  "text_db \<Rightarrow> database \<Rightarrow> principal option \<Rightarrow> object_list_params \<Rightarrow> media_object list result" where
  "select_objects td db current_user params =
     apply_category_filter db current_user params
       (apply_filters td params (scoped_objects params current_user (db_objects db)))"

definition after_cursor ::
  "text_db \<Rightarrow> py_codec \<Rightarrow> object_list_params \<Rightarrow> media_object list \<Rightarrow> media_object list result" where
  "after_cursor td pc params selected =
     (case lp_cursor params of
        None \<Rightarrow> Inr selected
      | Some cursor \<Rightarrow>
          (case decode_cursor td pc (lp_sort_by params) cursor of
             Inl e \<Rightarrow> Inl e
           | Inr (v, last_id) \<Rightarrow>
               Inr (filter (\<lambda>o'. keyset_predicate v last_id (lp_descending params)
                      (sort_column td (lp_sort_by params) o') (mo_id o')) selected)))"

definition page_of ::
  "py_codec \<Rightarrow> database \<Rightarrow> principal option \<Rightarrow> object_list_params \<Rightarrow> media_object list \<Rightarrow> object_page" where
  "page_of pc db current_user params sorted_rows =
     (let rows = take (lp_limit params + 1) sorted_rows;
          has_more = length rows > lp_limit params;
          items = take (lp_limit params) rows;
          next_cursor = (if has_more then Some (encode_cursor pc (lp_sort_by params) (last items)) else None);
          refs = category_refs_by_object db current_user (map mo_id items)
      in \<lparr>op_items = map (\<lambda>o'. \<lparr>mop_object = o', mop_categories = refs (mo_id o')\<rparr>) items,
          op_next_cursor = next_cursor, op_count = length items\<rparr>)"

definition list_objects ::
  "text_db \<Rightarrow> py_codec \<Rightarrow> database \<Rightarrow> principal option \<Rightarrow> object_list_params \<Rightarrow> object_page result" where
  "list_objects td pc db current_user params =
     (case select_objects td db current_user params of
        Inl e \<Rightarrow> Inl e
      | Inr selected \<Rightarrow>
          (case after_cursor td pc params selected of
             Inl e \<Rightarrow> Inl e
           | Inr remaining \<Rightarrow> Inr (page_of pc db current_user params (ordered td params remaining))))"

definition get_object :: "database \<Rightarrow> principal option \<Rightarrow> uuid \<Rightarrow> media_object_public result" where
  "get_object db current_user object_id =
     (case load_object_for_read db current_user object_id of
        Inl e \<Rightarrow> Inl e
      | Inr obj \<Rightarrow> Inr \<lparr>mop_object = obj,
          mop_categories = category_refs_by_object db current_user [mo_id obj] (mo_id obj)\<rparr>)"

section \<open>Listing and reading agree\<close>

text \<open>
  What the listing shows a caller, as a row check: readable by the visibility policy, and
  live unless a superuser asked for deleted rows or for one owner's.
\<close>

definition may_list :: "object_list_params \<Rightarrow> principal option \<Rightarrow> media_object \<Rightarrow> bool" where
  "may_list params current_user obj \<longleftrightarrow>
     require_visibility_access obj current_user = Inr () \<and>
     (case current_user of
        Some p \<Rightarrow>
          if p_superuser p
          then (lp_owner_user_id params = None \<or> lp_owner_user_id params = Some (mo_owner_user_id obj)) \<and>
               (lp_include_deleted params \<or> mo_deleted_at obj = None)
          else mo_deleted_at obj = None
      | None \<Rightarrow> mo_deleted_at obj = None)"

interpretation object_scope: scope_gate "scoped_objects params" "may_list params"
  for params :: object_list_params
  by unfold_locales
    (auto simp: scoped_objects_def may_list_def require_visibility_access_def Let_def
      split: option.splits if_splits)

text \<open>The knobs only a superuser has are not turned.\<close>

definition plain_listing :: "object_list_params \<Rightarrow> principal option \<Rightarrow> bool" where
  "plain_listing params current_user \<longleftrightarrow>
     (case current_user of
        Some p \<Rightarrow> \<not> p_superuser p \<or> (lp_owner_user_id params = None \<and> \<not> lp_include_deleted params)
      | None \<Rightarrow> True)"

lemma may_list_plain:
  "plain_listing params p \<Longrightarrow>
   may_list params p obj \<longleftrightarrow> mo_deleted_at obj = None \<and> require_visibility_access obj p = Inr ()"
  by (auto simp: plain_listing_def may_list_def split: option.splits)


lemma set_ordered [simp]: "set (ordered td params rows) = set rows"
  by (simp add: ordered_def Let_def)

lemma after_cursor_subset: "after_cursor td pc params selected = Inr remaining \<Longrightarrow> set remaining \<subseteq> set selected"
  by (auto simp: after_cursor_def split: option.splits sum.splits)

lemma page_item:
  assumes "item \<in> set (op_items (page_of pc db p params (ordered td params remaining)))"
  obtains obj xs where "set xs \<subseteq> set remaining" and "obj \<in> set xs"
    and "item = \<lparr>mop_object = obj, mop_categories = category_refs_by_object db p (map mo_id xs) (mo_id obj)\<rparr>"
proof -
  let ?xs = "take (lp_limit params) (take (lp_limit params + 1) (ordered td params remaining))"
  from assms obtain obj where "obj \<in> set ?xs"
    and "item = \<lparr>mop_object = obj, mop_categories = category_refs_by_object db p (map mo_id ?xs) (mo_id obj)\<rparr>"
    by (auto simp: page_of_def Let_def)
  moreover have "set ?xs \<subseteq> set remaining" using set_take_subset set_ordered by (metis subset_trans)
  ultimately show thesis using that by blast
qed

lemma zip_map_filter:
  "map snd (filter (\<lambda>(l, r). P l) (zip xs (map g xs))) = map g (filter P xs)"
  by (induction xs) auto

lemma refs_by_object_page:
  assumes "obj \<in> set ids"
  shows "category_refs_by_object db p ids obj = category_refs_by_object db p [obj] obj"
proof -
  have sorted: "filter (\<lambda>l. fst l = obj) (sort_key fst xs) = filter (\<lambda>l. fst l = obj) xs"
    for xs :: "(uuid \<times> int) list"
    using sort_key_stable [of fst obj xs] by simp
  have links: "filter (\<lambda>l. fst l = obj) (sort_key fst (sort_key snd (filter (\<lambda>l. fst l \<in> set ids) (db_links db)))) =
      filter (\<lambda>l. fst l = obj) (sort_key fst (sort_key snd (filter (\<lambda>l. fst l \<in> set [obj]) (db_links db))))"
    using assms by (simp add: sorted filter_sort filter_filter) (metis (mono_tags, lifting))
  have com: "filter P (filter Q xs) = filter Q (filter P xs)" for P Q and xs :: "(uuid \<times> int) list"
    by (simp add: conj_commute)
  show ?thesis
    unfolding category_refs_by_object_def Let_def category_refs_def
    by (cases p) (simp_all only: option.case map_map zip_map_filter com [where P = "\<lambda>l. fst l = obj"] links)
qed

text \<open>
  Whatever page a caller asks for, with any filters, branch, order and cursor, each
  item on it is an object the caller can fetch by id, shown the same way: filters and
  cursor only subtract from what the caller may read.
\<close>

theorem page_items_readable:
  assumes "distinct (map mo_id (db_objects db))" and "plain_listing params current_user"
    and page: "list_objects td pc db current_user params = Inr page"
    and item: "item \<in> set (op_items page)"
  shows "get_object db current_user (mo_id (mop_object item)) = Inr item"
proof -
  from page obtain selected remaining where sel: "select_objects td db current_user params = Inr selected"
    and rem: "after_cursor td pc params selected = Inr remaining"
    and pg: "page = page_of pc db current_user params (ordered td params remaining)"
    by (auto simp: list_objects_def split: sum.splits)
  from item obtain obj xs where xs: "set xs \<subseteq> set remaining" "obj \<in> set xs"
    and i: "item = \<lparr>mop_object = obj, mop_categories = category_refs_by_object db current_user (map mo_id xs) (mo_id obj)\<rparr>"
    unfolding pg by (rule page_item)
  have "set selected \<subseteq> set (scoped_objects params current_user (db_objects db))"
    using apply_category_filter_subset [OF sel [unfolded select_objects_def]] apply_filters_subset by blast
  with xs after_cursor_subset [OF rem]
  have obj: "obj \<in> set (scoped_objects params current_user (db_objects db))" by blast
  then have "may_list params current_user obj" and mem: "obj \<in> set (db_objects db)"
    by (simp_all add: object_scope.listing_iff)
  then show ?thesis
    using tbl_get_distinct [OF assms(1) mem] xs(2)
    by (simp add: i get_object_def load_object_for_read_def fetch_object_def may_list_plain [OF assms(2)]
        refs_by_object_page [of "mo_id obj" "map mo_id xs"])
qed

section \<open>Walking the pages\<close>

lemma cursor_roundtrip:
  assumes "codec_laws pc"
  shows "decode_cursor td pc sort_by (encode_cursor pc sort_by obj) = Inr (sort_column td sort_by obj, mo_id obj)"
proof -
  have "pc_untoken pc (encode_cursor pc sort_by obj) =
      Some (J_Obj [(u ''v'', cursor_sort_value pc sort_by obj), (u ''id'', J_Str (uuid_str (mo_id obj)))])"
    by (cases sort_by) (simp_all add: encode_cursor_def cursor_sort_value_def codec_untoken [OF assms])
  moreover have "decode_value td pc sort_by (cursor_sort_value pc sort_by obj) = Inr (sort_column td sort_by obj)"
    by (cases sort_by)
      (simp_all add: decode_value_def cursor_sort_value_def sort_column_def codec_str [OF assms] codec_iso [OF assms])
  ultimately show ?thesis
    by (simp add: decode_cursor_def codec_str [OF assms] codec_uuid [OF assms] u_def)
qed

text \<open>In a strictly ordered list, the elements after one of them are the rest of the list.\<close>

lemma filter_after:
  assumes sorted: "sorted_wrt R xs" and asym: "\<And>a b. R a b \<Longrightarrow> \<not> R b a" and i: "i < length xs"
  shows "filter (R (xs ! i)) xs = drop (Suc i) xs"
proof -
  have irr: "\<not> R a a" for a using asym by blast
  have "\<not> R (xs ! i) x" if "x \<in> set (take (Suc i) xs)" for x
  proof -
    from that obtain j where "j < Suc i" "x = xs ! j" by (auto simp: in_set_conv_nth)
    then show ?thesis
      using sorted_wrt_nth_less [OF sorted, of j i] asym irr i by (cases "j = i") auto
  qed
  moreover have "R (xs ! i) x" if "x \<in> set (drop (Suc i) xs)" for x
  proof -
    from that obtain j where "j < length xs - Suc i" "x = xs ! (Suc i + j)" by (auto simp: in_set_conv_nth)
    then show ?thesis using sorted_wrt_nth_less [OF sorted, of i "Suc i + j"] by simp
  qed
  ultimately have "filter (R (xs ! i)) (take (Suc i) xs @ drop (Suc i) xs) = drop (Suc i) xs"
    by (simp del: append_take_drop_id add: filter_empty_conv filter_id_conv)
  then show ?thesis by simp
qed

definition follows :: "text_db \<Rightarrow> object_list_params \<Rightarrow> media_object \<Rightarrow> media_object \<Rightarrow> bool" where
  "follows td params a b \<longleftrightarrow>
     keyset_predicate (sort_column td (lp_sort_by params) a) (mo_id a) (lp_descending params)
       (sort_column td (lp_sort_by params) b) (mo_id b)"

lemma follows_asym: "follows td params a b \<Longrightarrow> \<not> follows td params b a"
  by (auto simp: follows_def keyset_predicate_def split: if_splits)

lemma ordered_strict:
  assumes "distinct (map mo_id rows)"
  shows "sorted_wrt (follows td params) (ordered td params rows)"
proof -
  let ?k = "\<lambda>o'. (sort_column td (lp_sort_by params) o', mo_id o')"
  let ?s = "sort_key ?k rows"
  have "distinct (map mo_id ?s)" using assms by (simp only: distinct_map distinct_sort set_sort)
  moreover have "inj_on ?k (set ?s)" if "inj_on mo_id (set ?s)"
    using that unfolding inj_on_def by simp
  ultimately have "distinct (map ?k ?s)" by (simp only: distinct_map)
  then have "sorted_wrt (<) (map ?k ?s)"
    using sorted_sort_key [of ?k rows] by (simp only: strict_sorted_iff simp_thms)
  then have asc: "sorted_wrt (\<lambda>a b. ?k a < ?k b) ?s" by (simp add: sorted_wrt_map)
  show ?thesis
  proof (cases "lp_descending params")
    case True
    have "sorted_wrt (\<lambda>a b. ?k b < ?k a) (rev ?s)" using asc by (simp add: sorted_wrt_rev)
    then show ?thesis
      unfolding ordered_def Let_def if_P [OF True]
      by (rule sorted_wrt_mono_rel [rotated]) (auto simp: follows_def keyset_predicate_def True)
  next
    case False
    show ?thesis
      unfolding ordered_def Let_def if_not_P [OF False]
      using asc by (rule sorted_wrt_mono_rel [rotated]) (auto simp: follows_def keyset_predicate_def False)
  qed
qed

lemma ordered_filter: "ordered td params (filter P rows) = filter P (ordered td params rows)"
  by (simp add: ordered_def Let_def filter_sort rev_filter [symmetric])

lemma length_ordered [simp]: "length (ordered td params rows) = length rows"
  by (simp add: ordered_def Let_def)

lemma ordered_Nil_iff [simp]: "ordered td params rows = [] \<longleftrightarrow> rows = []"
  by (metis length_0_conv length_ordered)

text \<open>
  A client that follows \<open>next_cursor\<close> until there is none, with the number of requests
  it is willing to make.
\<close>

fun walk_pages ::
  "text_db \<Rightarrow> py_codec \<Rightarrow> database \<Rightarrow> principal option \<Rightarrow> object_list_params \<Rightarrow> nat \<Rightarrow>
   media_object_public list list result option" where
  "walk_pages td pc db p params 0 = None"
| "walk_pages td pc db p params (Suc n) =
     (case list_objects td pc db p params of
        Inl e \<Rightarrow> Some (Inl e)
      | Inr page \<Rightarrow>
          (case op_next_cursor page of
             None \<Rightarrow> Some (Inr [op_items page])
           | Some c \<Rightarrow>
               map_option (map_sum id ((#) (op_items page)))
                 (walk_pages td pc db p (params\<lparr>lp_cursor := Some c\<rparr>) n)))"

text \<open>The cursor of position \<open>i\<close> of the ordered selection.\<close>

definition cursor_at :: "text_db \<Rightarrow> py_codec \<Rightarrow> object_list_params \<Rightarrow> media_object list \<Rightarrow> nat \<Rightarrow> ustr option" where
  "cursor_at td pc params selected i =
     (if i = 0 then None else Some (encode_cursor pc (lp_sort_by params) (ordered td params selected ! (i - 1))))"

lemma cursor_irrelevant:
  "select_objects td db p (params\<lparr>lp_cursor := c\<rparr>) = select_objects td db p params"
  "ordered td (params\<lparr>lp_cursor := c\<rparr>) = ordered td params"
  by (simp_all add: select_objects_def apply_category_filter_def apply_filters_def scoped_objects_def
      ordered_def fun_eq_iff cong: if_cong option.case_cong)

lemma after_cursor_at:
  assumes "codec_laws pc" and "distinct (map mo_id selected)" and "i \<le> length selected"
  shows "\<exists>remaining. after_cursor td pc (params\<lparr>lp_cursor := cursor_at td pc params selected i\<rparr>) selected = Inr remaining \<and>
    ordered td params remaining = drop i (ordered td params selected)"
proof (cases "i = 0")
  case False
  let ?o = "ordered td params selected"
  have "i - 1 < length ?o" using False assms(3) by simp
  then have f: "filter (follows td params (?o ! (i - 1))) ?o = drop i ?o"
    using filter_after [OF ordered_strict [OF assms(2)] follows_asym, where i = "i - 1"] False by simp
  have "after_cursor td pc (params\<lparr>lp_cursor := cursor_at td pc params selected i\<rparr>) selected =
      Inr (filter (follows td params (?o ! (i - 1))) selected)"
    using False by (simp add: after_cursor_def cursor_at_def cursor_roundtrip [OF assms(1)] follows_def [abs_def])
  with f show ?thesis by (simp add: ordered_filter)
qed (simp add: after_cursor_def cursor_at_def)

lemma page_of_objects: "map mop_object (op_items (page_of pc db p params rows)) = take (lp_limit params) rows"
  by (simp add: page_of_def Let_def comp_def)

lemma page_of_next:
  assumes "1 \<le> lp_limit params" and "i \<le> length selected"
    and rows: "rows = drop i (ordered td params selected)"
  shows "op_next_cursor (page_of pc db p (params\<lparr>lp_cursor := c\<rparr>) rows) =
    (if length selected - i > lp_limit params then cursor_at td pc params selected (i + lp_limit params) else None)"
proof -
  let ?n = "lp_limit params"
  have "last (take ?n rows) = ordered td params selected ! (i + ?n - 1)" if "length selected - i > ?n"
    using that assms by (simp add: last_conv_nth rows min_def)
  moreover have "min (length rows) (Suc ?n) > ?n \<longleftrightarrow> length selected - i > ?n"
    using assms by (simp add: rows min_def)
  ultimately show ?thesis using assms(1) by (simp add: page_of_def Let_def cursor_at_def min_def)
qed

lemma walk_from:
  assumes "codec_laws pc" and "distinct (map mo_id selected)" and "1 \<le> lp_limit params"
    and "select_objects td db p params = Inr selected"
  shows "i \<le> length selected \<Longrightarrow> length selected - i < n \<Longrightarrow>
    \<exists>pages. walk_pages td pc db p (params\<lparr>lp_cursor := cursor_at td pc params selected i\<rparr>) n = Some (Inr pages) \<and>
      map mop_object (concat pages) = drop i (ordered td params selected)"
proof (induction n arbitrary: i)
  case (Suc n)
  let ?p = "params\<lparr>lp_cursor := cursor_at td pc params selected i\<rparr>" and ?n = "lp_limit params"
  from after_cursor_at [OF assms(1,2) Suc.prems(1)] obtain remaining where
    r: "after_cursor td pc ?p selected = Inr remaining" "ordered td params remaining = drop i (ordered td params selected)"
    by blast
  let ?page = "page_of pc db p ?p (drop i (ordered td params selected))"
  have page: "list_objects td pc db p ?p = Inr ?page"
    by (simp add: list_objects_def cursor_irrelevant assms(4) r)
  have next': "op_next_cursor ?page =
      (if length selected - i > ?n then cursor_at td pc params selected (i + ?n) else None)"
    using page_of_next [OF assms(3) Suc.prems(1) refl] .
  have items: "map mop_object (op_items ?page) = take ?n (drop i (ordered td params selected))"
    by (simp add: page_of_objects)
  show ?case
  proof (cases "length selected - i > ?n")
    case True
    then have "i + ?n \<le> length selected" "length selected - (i + ?n) < n" using Suc.prems assms(3) by auto
    with Suc.IH [of "i + ?n"] obtain pages where
      w: "walk_pages td pc db p (params\<lparr>lp_cursor := cursor_at td pc params selected (i + ?n)\<rparr>) n = Some (Inr pages)"
      and c: "map mop_object (concat pages) = drop (i + ?n) (ordered td params selected)" by blast
    obtain cur where cur: "cursor_at td pc params selected (i + ?n) = Some cur"
      using assms(3) by (simp add: cursor_at_def)
    have "walk_pages td pc db p ?p (Suc n) = Some (Inr (op_items ?page # pages))"
      using True w cur by (simp add: page next')
    moreover have "map mop_object (concat (op_items ?page # pages)) = drop i (ordered td params selected)"
      using c append_take_drop_id [of ?n "drop i (ordered td params selected)"]
      by (simp add: items add.commute)
    ultimately show ?thesis by blast
  next
    case False
    then show ?thesis using items by (simp add: page next' take_all)
  qed
qed simp

text \<open>
  C25. Pagination is complete and ends: following the cursors of a listing (any sort field,
  order and page size, any collation, ties included) takes at most one request more than
  there are selected rows, and the pages together are exactly the selected rows in order,
  none twice and none missed.
\<close>

theorem pages_cover_listing:
  assumes "codec_laws pc" and "distinct (map mo_id (db_objects db))"
    and "list_params_valid params" and "lp_cursor params = None"
    and "select_objects td db current_user params = Inr selected"
  shows "\<exists>pages. walk_pages td pc db current_user params (length selected + 1) = Some (Inr pages) \<and>
    map mop_object (concat pages) = ordered td params selected"
proof -
  have "distinct (map mo_id selected)"
    using apply_category_filter_distinct [OF assms(5) [unfolded select_objects_def]]
      apply_filters_distinct [OF scoped_objects_distinct [OF assms(2)]] by blast
  moreover have "1 \<le> lp_limit params" using assms(3) by (simp add: list_params_valid_def)
  moreover have "params\<lparr>lp_cursor := cursor_at td pc params selected 0\<rparr> = params"
    using assms(4) by (simp add: cursor_at_def)
  ultimately show ?thesis
    using walk_from [OF assms(1) _ _ assms(5), of 0 "length selected + 1"] by simp
qed

section \<open>Concrete listings\<close>

definition demo_row :: "uuid \<Rightarrow> uuid \<Rightarrow> media_visibility \<Rightarrow> int \<Rightarrow> media_object" where
  "demo_row i owner vis n = \<lparr>mo_id = i, mo_tenant_id = None, mo_owner_user_id = owner, mo_category = CAT_ASSET,
     mo_visibility = vis, mo_storage_bucket = ''private-media'', mo_object_key = uuid_hex i,
     mo_original_filename = None, mo_mime_type = ''image/png'', mo_extension = None,
     mo_size_bytes = n, mo_sha256 = None, mo_etag = None, mo_storage_class = ''standard'',
     mo_status = OBJ_READY, mo_scan_status = SCAN_CLEAN, mo_moderation_status = MOD_SKIPPED,
     mo_created_at = 0, mo_updated_at = 0, mo_deleted_at = None\<rparr>"

definition demo_objects :: database where
  "demo_objects = empty_db\<lparr>db_objects := [demo_row 1 7 VIS_PUBLIC 30, demo_row 2 7 VIS_PRIVATE 20,
     demo_row 3 8 VIS_PUBLIC 30, demo_row 4 8 VIS_PRIVATE 10]\<rparr>"

definition demo_params :: "sort_field \<Rightarrow> nat \<Rightarrow> object_list_params" where
  "demo_params sort_by limit = \<lparr>lp_category = None, lp_visibility = None, lp_status = None, lp_mime_prefix = None,
     lp_created_from = None, lp_created_to = None, lp_q = None, lp_sort_by = sort_by, lp_descending = True,
     lp_limit = limit, lp_cursor = None, lp_owner_user_id = None, lp_include_deleted = False,
     lp_category_id = None, lp_include_descendants = True, lp_uncategorized = False\<rparr>"

definition demo_caller :: "uuid \<Rightarrow> principal" where
  "demo_caller i = \<lparr>p_id = i, p_superuser = False, p_tenant = None\<rparr>"

definition plain_text :: text_db where
  "plain_text = \<lparr>td_collate = id, td_like = (=), td_contains = (=)\<rparr>"

lemmas demo_listing_defs = demo_objects_def demo_params_def demo_caller_def demo_row_def plain_listing_def
  list_params_valid_def empty_db_def

lemma demo_params_simps [simp]:
  "lp_cursor (demo_params s n) = None" "lp_limit (demo_params s n) = n" "lp_sort_by (demo_params s n) = s"
  "lp_descending (demo_params s n)" "lp_owner_user_id (demo_params s n) = None" "\<not> lp_include_deleted (demo_params s n)"
  by (simp_all add: demo_params_def)

lemma demo_objects_distinct: "distinct (map mo_id (db_objects demo_objects))"
  by (simp add: demo_listing_defs)

lemma demo_select:
  "select_objects plain_text demo_objects (Some (demo_caller 7)) (demo_params sort_by limit) =
     Inr [demo_row 1 7 VIS_PUBLIC 30, demo_row 2 7 VIS_PRIVATE 20, demo_row 3 8 VIS_PUBLIC 30]"
  by (simp add: select_objects_def scoped_objects_def apply_filters_def when_given_def
      apply_category_filter_def demo_listing_defs user_tenant_id_def)


theorem page_items_readable_witness:
  "\<exists>page item. list_objects plain_text demo_codec demo_objects (Some (demo_caller 7)) (demo_params SORT_size_bytes 2) = Inr page \<and>
     item \<in> set (op_items page) \<and>
     get_object demo_objects (Some (demo_caller 7)) (mo_id (mop_object item)) = Inr item"
proof -
  obtain page where p: "list_objects plain_text demo_codec demo_objects (Some (demo_caller 7)) (demo_params SORT_size_bytes 2) = Inr page"
    and ne: "op_items page \<noteq> []"
    by (simp add: list_objects_def demo_select after_cursor_def page_of_def Let_def min_def)
  from ne have i: "hd (op_items page) \<in> set (op_items page)" by simp
  have "plain_listing (demo_params SORT_size_bytes 2) (Some (demo_caller 7))"
    by (simp add: plain_listing_def demo_caller_def)
  from page_items_readable [OF demo_objects_distinct this p i] p i show ?thesis by blast
qed

theorem pages_cover_listing_witness:
  "\<exists>pages. walk_pages plain_text demo_codec demo_objects (Some (demo_caller 7)) (demo_params SORT_size_bytes 1) 4 = Some (Inr pages) \<and>
     map (mo_id \<circ> mop_object) (concat pages) = [3, 1, 2]"
proof -
  let ?rows = "[demo_row 1 7 VIS_PUBLIC 30, demo_row 2 7 VIS_PRIVATE 20, demo_row 3 8 VIS_PUBLIC 30]"
  have "list_params_valid (demo_params SORT_size_bytes 1)" "lp_cursor (demo_params SORT_size_bytes 1) = None"
    by (simp_all add: demo_listing_defs)
  from pages_cover_listing [OF demo_codec_laws demo_objects_distinct this demo_select]
  obtain pages where w: "walk_pages plain_text demo_codec demo_objects (Some (demo_caller 7)) (demo_params SORT_size_bytes 1) 4 = Some (Inr pages)"
    and c: "map mop_object (concat pages) = ordered plain_text (demo_params SORT_size_bytes 1) ?rows"
    by (auto simp: numeral_eq_Suc simp del: walk_pages.simps)
  have "map mo_id (ordered plain_text (demo_params SORT_size_bytes 1) ?rows) = [3, 1, 2]"
    by (simp add: ordered_def sort_column_def demo_row_def less_sort_value_def less_eq_sort_value_def)
  with w c show ?thesis by (metis map_map)
qed

text \<open>
  A cursor a client makes up: JSON admits the number \<open>Infinity\<close>, whose conversion raises
  an exception \<open>_decode_cursor\<close> does not catch.
\<close>

lemma infinite_cursor_raises:
  "codec_laws pc \<Longrightarrow>
   pc_untoken pc cursor = Some (J_Obj [(u ''v'', J_Float PF_Infinite), (u ''id'', J_Str (uuid_str i))]) \<Longrightarrow>
   decode_cursor td pc SORT_size_bytes cursor = Inl (Raised ''OverflowError'')"
  by (simp add: decode_cursor_def codec_str codec_uuid decode_value_def u_def)

end
