(* ===== verification/Objects.thy ===== *)
theory Objects
  imports ObjectAccess Quotas Outbox
begin

text \<open>
  The write side of \<open>controllers/objects.py\<close>: download URLs behind the scan gate, the
  metadata patch that relocates bytes, the scan callback and the soft delete. A handler
  takes the world and returns its answer with the world it leaves; \<open>now\<close> is
  \<open>utcnow()\<close>, \<open>fresh\<close> the id minted for an outbox row, \<open>commit_ok\<close> whether the
  commit that \<open>update_object\<close> guards succeeds.
\<close>

section \<open>Moving bytes\<close>

definition relocate_for_visibility ::
  "settings \<Rightarrow> 's storage_api \<Rightarrow> 's \<Rightarrow> media_object \<Rightarrow> media_visibility option \<Rightarrow>
   (string option \<times> media_object) result \<times> 's" where
  "relocate_for_visibility cfg api s obj new_visibility =
     (case new_visibility of
        None \<Rightarrow> (Inr (None, obj), s)
      | Some v \<Rightarrow>
          if v = mo_visibility obj then (Inr (None, obj), s)
          else (let new_bucket = bucket_for_visibility cfg v; old_bucket = mo_storage_bucket obj
                in if new_bucket = old_bucket then (Inr (None, obj), s)
                   else (case api_copy api s old_bucket (mo_object_key obj) new_bucket (mo_object_key obj) of
                           (False, s') \<Rightarrow>
                             (Inl (Http 502 (DText ''Failed to relocate object for the new visibility.'')), s')
                         | (True, s') \<Rightarrow> (Inr (Some old_bucket, obj\<lparr>mo_storage_bucket := new_bucket\<rparr>), s'))))"

definition archive_deleted_bytes ::
  "settings \<Rightarrow> 's storage_api \<Rightarrow> 's \<Rightarrow> media_object \<Rightarrow> (string option \<times> media_object) \<times> 's" where
  "archive_deleted_bytes cfg api s obj =
     (let archive_bucket = bucket_for_storage_class cfg SC_ARCHIVE; source_bucket = mo_storage_bucket obj
      in if source_bucket = archive_bucket then ((None, obj), s)
         else (case api_copy api s source_bucket (mo_object_key obj) archive_bucket (mo_object_key obj) of
                 (False, s') \<Rightarrow> ((None, obj), s')
               | (True, s') \<Rightarrow> ((Some source_bucket, obj\<lparr>mo_storage_bucket := archive_bucket\<rparr>), s')))"

section \<open>Handlers\<close>

definition download_not_available_message :: "scan_status \<Rightarrow> string" where
  "download_not_available_message s =
     (if s = SCAN_INFECTED \<or> s = SCAN_QUARANTINED
      then ''Object is not available for download: it failed the virus scan.''
      else ''Object is not available for download until it passes scanning.'')"

definition download_url ::
  "settings \<Rightarrow> 's storage_api \<Rightarrow> 's world \<Rightarrow> principal option \<Rightarrow> uuid \<Rightarrow> datetime \<Rightarrow>
   (ustr \<times> datetime) result \<times> 's world" where
  "download_url cfg api w current_user object_id now =
     (case load_object_for_read (w_db w) current_user object_id of
        Inl e \<Rightarrow> (Inl e, w)
      | Inr obj \<Rightarrow>
          if mo_scan_status obj \<noteq> SCAN_CLEAN
          then (Inl (Http 409 (DScanNotClean (scan_value (mo_scan_status obj))
                 (download_not_available_message (mo_scan_status obj)))), w)
          else (let expires = S3_PRESIGNED_URL_EXPIRE_SECONDS cfg
                in case create_download_url api (mo_storage_bucket obj) (mo_object_key obj) expires
                          (mo_original_filename obj) of
                     Inl e \<Rightarrow> (Inl e, w)
                   | Inr url \<Rightarrow> (Inr (url, now + seconds expires), tick M_download_url_generated w)))"

text \<open>
  \<open>MediaObjectUpdate\<close> with \<open>exclude_unset\<close>: \<open>None\<close> is a field the body does not
  carry, \<open>Some None\<close> an explicit null.
\<close>

record media_object_update =
  mu_visibility :: "media_visibility option option"
  mu_original_filename :: "ustr option option"
  mu_category :: "media_category option option"
  mu_category_ids :: "int list option option"

text \<open>
  \<open>sqlmodel_update\<close> with the patched columns; \<open>None\<close> when a null lands in a NOT NULL
  column, which the flush refuses.
\<close>

definition patched :: "media_object_update \<Rightarrow> media_object \<Rightarrow> datetime \<Rightarrow> media_object option" where
  "patched upd obj now =
     (if mu_visibility upd = Some None \<or> mu_category upd = Some None then None
      else Some (obj\<lparr>
        mo_visibility := (case mu_visibility upd of Some (Some v) \<Rightarrow> v | _ \<Rightarrow> mo_visibility obj),
        mo_original_filename := (case mu_original_filename upd of Some f \<Rightarrow> f | None \<Rightarrow> mo_original_filename obj),
        mo_category := (case mu_category upd of Some (Some c) \<Rightarrow> c | _ \<Rightarrow> mo_category obj),
        mo_updated_at := now\<rparr>))"

definition refile :: "(uuid \<times> int) list \<Rightarrow> uuid \<Rightarrow> category list \<Rightarrow> (uuid \<times> int) list" where
  "refile links obj categories = filter (\<lambda>l. fst l \<noteq> obj) links @ map (\<lambda>c. (obj, cat_id c)) categories"

text \<open>The relationship \<open>user_categories\<close> as it reads back.\<close>

definition user_categories :: "database \<Rightarrow> uuid \<Rightarrow> category list" where
  "user_categories db obj =
     List.map_filter (cat_get (db_categories db)) (map snd (filter (\<lambda>l. fst l = obj) (db_links db)))"

definition update_object ::
  "settings \<Rightarrow> 's storage_api \<Rightarrow> 's world \<Rightarrow> principal \<Rightarrow> uuid \<Rightarrow> media_object_update \<Rightarrow> datetime \<Rightarrow> bool \<Rightarrow>
   media_object_public result \<times> 's world" where
  "update_object cfg api w current_user object_id upd now commit_ok =
     (case load_object (w_db w) current_user object_id False of
        Inl e \<Rightarrow> (Inl e, w)
      | Inr obj \<Rightarrow>
          (case (case mu_category_ids upd of
                   Some (Some ids) \<Rightarrow> map_sum id Some (resolve_category_ids (w_db w) current_user ids)
                 | _ \<Rightarrow> Inr None) of
             Inl e \<Rightarrow> (Inl e, w)
           | Inr categories \<Rightarrow>
               (case relocate_for_visibility cfg api (w_sto w) obj
                       (case mu_visibility upd of Some v \<Rightarrow> v | None \<Rightarrow> None) of
                  (Inl e, s') \<Rightarrow> (Inl e, w\<lparr>w_sto := s'\<rparr>)
                | (Inr (old_bucket, moved), s') \<Rightarrow>
                    (let new_bucket = mo_storage_bucket moved; object_key = mo_object_key moved;
                         row = patched upd moved now
                     in if row = None \<or> \<not> commit_ok
                        then (Inl (Raised ''IntegrityError''),
                              (case old_bucket of
                                 None \<Rightarrow> w\<lparr>w_sto := s'\<rparr>
                               | Some _ \<Rightarrow> best_effort_remove api new_bucket object_key (w\<lparr>w_sto := s'\<rparr>)))
                        else (let db' = (w_db w)\<lparr>db_objects := tbl_put mo_id (db_objects (w_db w)) (the row),
                                    db_links := (case categories of
                                       None \<Rightarrow> db_links (w_db w)
                                     | Some cs \<Rightarrow> refile (db_links (w_db w)) object_id cs)\<rparr>;
                                  w1 = w\<lparr>w_db := db', w_sto := s'\<rparr>;
                                  w2 = (case old_bucket of
                                          None \<Rightarrow> w1
                                        | Some b \<Rightarrow> best_effort_remove api b object_key w1)
                              in (Inr \<lparr>mop_object = the row,
                                       mop_categories = assigned_category_refs db' current_user
                                         (user_categories db' object_id)\<rparr>, w2))))))"

definition apply_scan_result ::
  "'s world \<Rightarrow> uuid \<Rightarrow> scan_status \<Rightarrow> uuid \<Rightarrow> datetime \<Rightarrow> media_object_public result \<times> 's world" where
  "apply_scan_result w object_id verdict fresh now =
     (case fetch_object (w_db w) object_id True of
        Inl e \<Rightarrow> (Inl e, w)
      | Inr obj \<Rightarrow>
          (let (row, event_type, payload) =
             (if verdict = SCAN_CLEAN
              then (obj\<lparr>mo_scan_status := SCAN_CLEAN, mo_status := OBJ_READY, mo_updated_at := now\<rparr>,
                    EVENT_OBJECT_READY,
                    [(''status'', u (object_status_value OBJ_READY)), (''scan_status'', u (scan_value SCAN_CLEAN))])
              else (obj\<lparr>mo_scan_status := SCAN_QUARANTINED, mo_updated_at := now\<rparr>,
                    EVENT_SCAN_FAILED, [(''scan_status'', u (scan_value SCAN_QUARANTINED))]))
           in (Inr \<lparr>mop_object = row, mop_categories = []\<rparr>,
               w\<lparr>w_db := record_event ((w_db w)\<lparr>db_objects := tbl_put mo_id (db_objects (w_db w)) row\<rparr>)
                           event_type object_id payload fresh now\<rparr>)))"

text \<open>The one transaction of a soft delete: row, quota debit and outbox row.\<close>

definition commit_soft_delete :: "database \<Rightarrow> media_object \<Rightarrow> media_object \<Rightarrow> uuid \<Rightarrow> datetime \<Rightarrow> database" where
  "commit_soft_delete db obj row fresh now =
     record_event
       (db\<lparr>db_objects := tbl_put mo_id (db_objects db) row,
           db_usage := record_object_removed (db_usage db) (mo_owner_user_id obj) (mo_tenant_id obj)
             (mo_size_bytes obj) now\<rparr>)
       EVENT_OBJECT_DELETED (mo_id obj) [(''visibility'', u (visibility_value (mo_visibility obj)))] fresh now"

definition delete_object ::
  "settings \<Rightarrow> 's storage_api \<Rightarrow> 's world \<Rightarrow> principal \<Rightarrow> uuid \<Rightarrow> uuid \<Rightarrow> datetime \<Rightarrow> unit result \<times> 's world" where
  "delete_object cfg api w current_user object_id fresh now =
     (case load_object (w_db w) current_user object_id True of
        Inl e \<Rightarrow> (Inl e, w)
      | Inr obj \<Rightarrow>
          if mo_deleted_at obj \<noteq> None then (Inr (), w)
          else (let ((source_bucket, moved), s') = archive_deleted_bytes cfg api (w_sto w) obj;
                    row = moved\<lparr>mo_deleted_at := Some now, mo_status := OBJ_DELETED, mo_updated_at := now\<rparr>;
                    w1 = w\<lparr>w_db := commit_soft_delete (w_db w) obj row fresh now, w_sto := s'\<rparr>
                in (Inr (), case source_bucket of
                     Some b \<Rightarrow> best_effort_remove api b (mo_object_key row) w1
                   | None \<Rightarrow> if mo_visibility obj = VIS_PUBLIC
                       then best_effort_remove api (mo_storage_bucket row) (mo_object_key row) w1 else w1)))"

section \<open>Bytes follow the row\<close>

text \<open>The bytes an object's row points at.\<close>

definition row_bytes :: "'s view \<Rightarrow> 's world \<Rightarrow> uuid \<Rightarrow> blob option" where
  "row_bytes view w i =
     (case tbl_get mo_id (db_objects (w_db w)) i of
        None \<Rightarrow> None | Some obj \<Rightarrow> view (w_sto w) (mo_storage_bucket obj, mo_object_key obj))"

definition keys_unique :: "database \<Rightarrow> bool" where
  "keys_unique db \<longleftrightarrow> (\<forall>i j a b. tbl_get mo_id (db_objects db) i = Some a \<longrightarrow>
     tbl_get mo_id (db_objects db) j = Some b \<longrightarrow> mo_object_key a = mo_object_key b \<longrightarrow> i = j)"

text \<open>
  The shape of every relocation: copy, repoint the row, remove one of the two copies.
\<close>

lemma row_bytes_put:
  "row_bytes view (w\<lparr>w_db := (w_db w)\<lparr>db_objects := tbl_put mo_id (db_objects (w_db w)) row, db_links := ls\<rparr>\<rparr>) i =
     (if i = mo_id row then view (w_sto w) (mo_storage_bucket row, mo_object_key row) else row_bytes view w i)"
  by (simp add: row_bytes_def table_simps split: option.split)

lemma row_bytes_cong:
  assumes "db_objects (w_db w') = db_objects (w_db w)"
    and "\<And>obj. tbl_get mo_id (db_objects (w_db w)) i = Some obj \<Longrightarrow>
      view (w_sto w') (mo_storage_bucket obj, mo_object_key obj) = view (w_sto w) (mo_storage_bucket obj, mo_object_key obj)"
  shows "row_bytes view w' i = row_bytes view w i"
  using assms by (auto simp: row_bytes_def split: option.splits)

lemma other_location:
  "keys_unique db \<Longrightarrow> tbl_get mo_id (db_objects db) i = Some a \<Longrightarrow> tbl_get mo_id (db_objects db) j = Some b \<Longrightarrow>
   j \<noteq> i \<Longrightarrow> (mo_storage_bucket b, mo_object_key b) \<noteq> (bucket, mo_object_key a)"
  unfolding keys_unique_def by blast

lemma copy_elsewhere:
  "storage_laws api view \<Longrightarrow> api_copy api s b k b' k' = (ok, s') \<Longrightarrow> l \<noteq> (b', k') \<Longrightarrow> view s' l = view s l"
  by (metis snd_conv storage_copy_frame)

lemma relocate_cases:
  assumes "relocate_for_visibility cfg api s obj nv = (res, s')"
  obtains (stay) "res = Inr (None, obj)" "s' = s"
    | (fail) b e where "res = Inl e" "b \<noteq> mo_storage_bucket obj"
        "api_copy api s (mo_storage_bucket obj) (mo_object_key obj) b (mo_object_key obj) = (False, s')"
    | (moved) v where "nv = Some v" "res = Inr (Some (mo_storage_bucket obj), obj\<lparr>mo_storage_bucket := bucket_for_visibility cfg v\<rparr>)"
        "bucket_for_visibility cfg v \<noteq> mo_storage_bucket obj"
        "api_copy api s (mo_storage_bucket obj) (mo_object_key obj) (bucket_for_visibility cfg v) (mo_object_key obj) = (True, s')"
  using assms that
  by (auto simp: relocate_for_visibility_def Let_def split: option.splits if_splits prod.splits bool.splits)

lemma relocate_id: "relocate_for_visibility cfg api s obj nv = (Inr (ob, moved), s') \<Longrightarrow>
  mo_id moved = mo_id obj \<and> mo_object_key moved = mo_object_key obj"
  by (erule relocate_cases) auto

lemma patched_Some:
  "patched upd obj now = Some row \<Longrightarrow> mo_id row = mo_id obj \<and> mo_object_key row = mo_object_key obj \<and>
     mo_storage_bucket row = mo_storage_bucket obj \<and> mo_deleted_at row = mo_deleted_at obj \<and>
     mo_size_bytes row = mo_size_bytes obj \<and> mo_owner_user_id row = mo_owner_user_id obj \<and>
     mo_tenant_id row = mo_tenant_id obj \<and> mo_scan_status row = mo_scan_status obj \<and> mo_status row = mo_status obj \<and>
     mo_visibility row = (case mu_visibility upd of Some (Some v) \<Rightarrow> v | _ \<Rightarrow> mo_visibility obj)"
  by (auto simp: patched_def split: if_splits)

text \<open>
  Every outcome of the patch, as the three things that can happen: nothing moved; bytes
  copied and the old copy removed; bytes copied and the new copy removed again.
\<close>

lemma update_object_outcomes:
  assumes "update_object cfg api w p i upd now commit_ok = (res, w')"
  obtains
    (refused) e where "res = Inl e" "w' = w"
  | (copy_failed) obj b s' e where "res = Inl e" "load_object (w_db w) p i False = Inr obj"
      "b \<noteq> mo_storage_bucket obj"
      "api_copy api (w_sto w) (mo_storage_bucket obj) (mo_object_key obj) b (mo_object_key obj) = (False, s')"
      "w' = w\<lparr>w_sto := s'\<rparr>"
  | (undone) obj b s' e where "res = Inl e" "load_object (w_db w) p i False = Inr obj"
      "b \<noteq> mo_storage_bucket obj"
      "api_copy api (w_sto w) (mo_storage_bucket obj) (mo_object_key obj) b (mo_object_key obj) = (True, s')"
      "w' = best_effort_remove api b (mo_object_key obj) (w\<lparr>w_sto := s'\<rparr>)"
  | (in_place) obj row ls public where "res = Inr public" "load_object (w_db w) p i False = Inr obj"
      "patched upd obj now = Some row" "mop_object public = row"
      "relocate_for_visibility cfg api (w_sto w) obj (case mu_visibility upd of Some v \<Rightarrow> v | None \<Rightarrow> None) = (Inr (None, obj), w_sto w)"
      "w' = w\<lparr>w_db := (w_db w)\<lparr>db_objects := tbl_put mo_id (db_objects (w_db w)) row, db_links := ls\<rparr>\<rparr>"
  | (relocated) obj row ls v s' public where "res = Inr public" "load_object (w_db w) p i False = Inr obj"
      "mu_visibility upd = Some (Some v)" "bucket_for_visibility cfg v \<noteq> mo_storage_bucket obj"
      "patched upd (obj\<lparr>mo_storage_bucket := bucket_for_visibility cfg v\<rparr>) now = Some row" "mop_object public = row"
      "api_copy api (w_sto w) (mo_storage_bucket obj) (mo_object_key obj) (bucket_for_visibility cfg v) (mo_object_key obj) = (True, s')"
      "w' = best_effort_remove api (mo_storage_bucket obj) (mo_object_key obj)
        (w\<lparr>w_db := (w_db w)\<lparr>db_objects := tbl_put mo_id (db_objects (w_db w)) row, db_links := ls\<rparr>, w_sto := s'\<rparr>)"
proof (cases "load_object (w_db w) p i False")
  case (Inl e)
  then show ?thesis using assms refused by (auto simp: update_object_def)
next
  case (Inr obj)
  let ?cats = "case mu_category_ids upd of Some (Some ids) \<Rightarrow> map_sum id Some (resolve_category_ids (w_db w) p ids) | _ \<Rightarrow> Inr None"
  let ?nv = "case mu_visibility upd of Some v \<Rightarrow> v | None \<Rightarrow> None"
  show ?thesis
  proof (cases ?cats)
    case (Inl e)
    then show ?thesis using assms Inr refused by (auto simp: update_object_def)
  next
    case cats: (Inr cs)
    obtain r s' where reloc: "relocate_for_visibility cfg api (w_sto w) obj ?nv = (r, s')" by fastforce
    note unfolded = assms [unfolded update_object_def Inr sum.case cats reloc prod.case]
    from reloc show ?thesis
    proof (cases rule: relocate_cases)
      case stay
      have same: "w\<lparr>w_sto := s'\<rparr> = w" using stay by simp
      show ?thesis
      proof (cases "patched upd obj now = None \<or> \<not> commit_ok")
        case True
        then show ?thesis using unfolded same
          by (intro refused [of "Raised ''IntegrityError''"]) (simp_all add: stay Let_def)
      next
        case False
        then obtain row where row: "patched upd obj now = Some row" by auto
        from unfolded False have "\<exists>ls public. res = Inr public \<and> mop_object public = row \<and>
            w' = w\<lparr>w_db := (w_db w)\<lparr>db_objects := tbl_put mo_id (db_objects (w_db w)) row, db_links := ls\<rparr>\<rparr>"
          by (clarsimp simp: stay Let_def row) blast
        then show ?thesis using in_place [OF _ Inr row _ reloc [unfolded stay]] by blast
      qed
    next
      case (fail b e)
      then show ?thesis using unfolded Inr copy_failed by auto
    next
      case (moved v)
      then have vis: "mu_visibility upd = Some (Some v)" by (auto split: option.splits)
      let ?moved = "obj\<lparr>mo_storage_bucket := bucket_for_visibility cfg v\<rparr>"
      show ?thesis
      proof (cases "patched upd ?moved now = None \<or> \<not> commit_ok")
        case True
        from unfolded True have "res = Inl (Raised ''IntegrityError'')"
          and "w' = best_effort_remove api (bucket_for_visibility cfg v) (mo_object_key obj) (w\<lparr>w_sto := s'\<rparr>)"
          by (simp_all add: moved Let_def)
        then show ?thesis using undone [OF _ Inr moved(3,4)] by blast
      next
        case False
        then obtain row where row: "patched upd ?moved now = Some row" by auto
        from unfolded False have "\<exists>ls public. res = Inr public \<and> mop_object public = row \<and>
            w' = best_effort_remove api (mo_storage_bucket obj) (mo_object_key obj)
              (w\<lparr>w_db := (w_db w)\<lparr>db_objects := tbl_put mo_id (db_objects (w_db w)) row, db_links := ls\<rparr>, w_sto := s'\<rparr>)"
          by (clarsimp simp: moved Let_def row) blast
        then show ?thesis using relocated [OF _ Inr vis moved(3) row _ moved(4)] by blast
      qed
    qed
  qed
qed

lemma load_object_get: "load_object db p i d = Inr obj \<Longrightarrow> tbl_get mo_id (db_objects db) i = Some obj \<and> mo_id obj = i"
  by (auto simp: load_object_Inr dest: tbl_get_key)

lemma relocated_bytes:
  assumes laws: "storage_laws api view" and keys: "keys_unique (w_db w)"
    and obj: "tbl_get mo_id (db_objects (w_db w)) i = Some obj" "mo_id obj = i"
    and row: "mo_id row = i" "mo_object_key row = mo_object_key obj" "mo_storage_bucket row = b"
    and b: "b \<noteq> mo_storage_bucket obj"
    and copy: "api_copy api (w_sto w) (mo_storage_bucket obj) (mo_object_key obj) b (mo_object_key obj) = (True, s')"
    and w1: "w1 = w\<lparr>w_db := (w_db w)\<lparr>db_objects := tbl_put mo_id (db_objects (w_db w)) row, db_links := ls\<rparr>, w_sto := s'\<rparr>"
  shows "row_bytes view (best_effort_remove api (mo_storage_bucket obj) (mo_object_key obj) w1) j = row_bytes view w j"
proof (cases "j = i")
  case True
  have "row_bytes view (best_effort_remove api (mo_storage_bucket obj) (mo_object_key obj) w1) i = view s' (b, mo_object_key obj)"
    using obj row best_effort_remove_frame [OF laws, of _ "mo_storage_bucket obj" "mo_object_key obj" w1] b
    by (simp add: w1 row_bytes_def table_simps)
  also have "\<dots> = view (w_sto w) (mo_storage_bucket obj, mo_object_key obj)"
    using storage_copy_ok(1) [OF laws copy] by simp
  finally show ?thesis using obj True by (simp add: row_bytes_def)
next
  case False
  have "view (w_sto (best_effort_remove api (mo_storage_bucket obj) (mo_object_key obj) w1)) (mo_storage_bucket o', mo_object_key o') =
      view (w_sto w) (mo_storage_bucket o', mo_object_key o')"
    if "tbl_get mo_id (db_objects (w_db w)) j = Some o'" for o'
  proof -
    have away: "(mo_storage_bucket o', mo_object_key o') \<noteq> (b, mo_object_key obj)" for b
      using other_location [OF keys obj(1) that False] .
    show ?thesis
      using copy_elsewhere [OF laws copy away] best_effort_remove_frame [OF laws away, of _ w1] by (simp add: w1)
  qed
  then show ?thesis using False obj row by (simp add: w1 row_bytes_def table_simps split: option.split)
qed

text \<open>
  C23. Bytes follow the row: no metadata patch, whatever its outcome (refused, copy failed,
  commit failed and undone, relocated, old copy not removable), changes what any object's
  row points at: every object, the patched one included, keeps exactly its bytes.
\<close>

theorem update_keeps_bytes:
  assumes laws: "storage_laws api view" and keys: "keys_unique (w_db w)"
    and upd: "update_object cfg api w p i upd now commit_ok = (res, w')"
  shows "row_bytes view w' = row_bytes view w"
proof
  fix j
  note frame = storage_copy_frame [OF laws] storage_remove_frame [OF laws]
  have elsewhere: "(mo_storage_bucket o', mo_object_key o') \<noteq> (b, mo_object_key obj)"
    if "load_object (w_db w) p i False = Inr obj" "tbl_get mo_id (db_objects (w_db w)) j = Some o'"
      "b \<noteq> mo_storage_bucket obj" for b obj o'
    using that other_location [OF keys] load_object_get [OF that(1)] by (cases "j = i") auto
  from upd show "row_bytes view w' j = row_bytes view w j"
  proof (cases rule: update_object_outcomes)
    case refused
    then show ?thesis by simp
  next
    case (copy_failed obj b s' e)
    show ?thesis
      using copy_elsewhere [OF laws copy_failed(4)] elsewhere [OF copy_failed(2) _ copy_failed(3)]
      by (intro row_bytes_cong) (simp_all add: copy_failed(5))
  next
    case (undone obj b s' e)
    show ?thesis
      using copy_elsewhere [OF laws undone(4)] elsewhere [OF undone(2) _ undone(3)] best_effort_remove_frame [OF laws]
      by (intro row_bytes_cong) (simp_all add: undone(5))
  next
    case (in_place obj row ls public)
    then show ?thesis
      using load_object_get [OF in_place(2)] patched_Some [OF in_place(3)]
      by (simp add: row_bytes_put) (simp add: row_bytes_def)
  next
    case (relocated obj row ls v s' public)
    note row = patched_Some [OF relocated(5)]
    show ?thesis unfolding relocated(8)
      using load_object_get [OF relocated(2)] row
      by (intro relocated_bytes [OF laws keys _ _ _ _ _ relocated(4,7) refl]) simp_all
  qed
qed

section \<open>Soft deletion\<close>

definition deleted_row :: "media_object \<Rightarrow> string \<Rightarrow> datetime \<Rightarrow> media_object" where
  "deleted_row obj b now = obj\<lparr>mo_storage_bucket := b, mo_deleted_at := Some now,
     mo_status := OBJ_DELETED, mo_updated_at := now\<rparr>"

lemma deleted_row_simps [simp]:
  "mo_id (deleted_row obj b now) = mo_id obj" "mo_storage_bucket (deleted_row obj b now) = b"
  "mo_object_key (deleted_row obj b now) = mo_object_key obj" "mo_deleted_at (deleted_row obj b now) = Some now"
  "mo_status (deleted_row obj b now) = OBJ_DELETED" "mo_visibility (deleted_row obj b now) = mo_visibility obj"
  "mo_owner_user_id (deleted_row obj b now) = mo_owner_user_id obj"
  by (simp_all add: deleted_row_def)

lemma commit_soft_delete_simps [simp]:
  "db_objects (commit_soft_delete db obj row fresh now) = tbl_put mo_id (db_objects db) row"
  "db_usage (commit_soft_delete db obj row fresh now) =
     record_object_removed (db_usage db) (mo_owner_user_id obj) (mo_tenant_id obj) (mo_size_bytes obj) now"
  "map oe_event_type (db_outbox (commit_soft_delete db obj row fresh now)) =
     map oe_event_type (db_outbox db) @ [EVENT_OBJECT_DELETED]"
  by (simp_all add: commit_soft_delete_def record_event_def)

text \<open>The two ways a live object is deleted: archived, or left in its bucket.\<close>

lemma delete_object_outcomes:
  assumes "load_object (w_db w) p i True = Inr obj" and "mo_deleted_at obj = None"
    and "delete_object cfg api w p i fresh now = (res, w')"
  obtains
    (archived) s' where "res = Inr ()" "mo_storage_bucket obj \<noteq> S3_BUCKET_ARCHIVE cfg"
      "api_copy api (w_sto w) (mo_storage_bucket obj) (mo_object_key obj) (S3_BUCKET_ARCHIVE cfg) (mo_object_key obj) = (True, s')"
      "w' = best_effort_remove api (mo_storage_bucket obj) (mo_object_key obj)
        (w\<lparr>w_db := commit_soft_delete (w_db w) obj (deleted_row obj (S3_BUCKET_ARCHIVE cfg) now) fresh now, w_sto := s'\<rparr>)"
  | (kept) s' where "res = Inr ()"
      "s' = w_sto w \<or> mo_storage_bucket obj \<noteq> S3_BUCKET_ARCHIVE cfg \<and> api_copy api (w_sto w) (mo_storage_bucket obj) (mo_object_key obj)
         (S3_BUCKET_ARCHIVE cfg) (mo_object_key obj) = (False, s')"
      "w' = (if mo_visibility obj = VIS_PUBLIC
        then best_effort_remove api (mo_storage_bucket obj) (mo_object_key obj)
          (w\<lparr>w_db := commit_soft_delete (w_db w) obj (deleted_row obj (mo_storage_bucket obj) now) fresh now, w_sto := s'\<rparr>)
        else w\<lparr>w_db := commit_soft_delete (w_db w) obj (deleted_row obj (mo_storage_bucket obj) now) fresh now, w_sto := s'\<rparr>)"
proof -
  have same: "obj\<lparr>mo_deleted_at := Some now, mo_status := OBJ_DELETED, mo_updated_at := now\<rparr> =
      deleted_row obj (mo_storage_bucket obj) now"
    by (simp add: deleted_row_def)
  note unfolded = assms(3) [unfolded delete_object_def assms(1) sum.case archive_deleted_bytes_def Let_def]
  obtain ok s' where copy: "api_copy api (w_sto w) (mo_storage_bucket obj) (mo_object_key obj)
      (S3_BUCKET_ARCHIVE cfg) (mo_object_key obj) = (ok, s')" by fastforce
  show ?thesis
  proof (cases "mo_storage_bucket obj = S3_BUCKET_ARCHIVE cfg \<or> \<not> ok")
    case True
    then show ?thesis
      using unfolded assms(2) copy kept same by (auto split: if_splits)
  next
    case False
    then have ok: "ok" and b: "mo_storage_bucket obj \<noteq> S3_BUCKET_ARCHIVE cfg" by auto
    have "res = Inr ()" and "w' = best_effort_remove api (mo_storage_bucket obj) (mo_object_key obj)
        (w\<lparr>w_db := commit_soft_delete (w_db w) obj (deleted_row obj (S3_BUCKET_ARCHIVE cfg) now) fresh now, w_sto := s'\<rparr>)"
      using unfolded assms(2) copy ok b by (simp_all add: deleted_row_def)
    then show ?thesis using archived b copy ok by simp
  qed
qed

lemma best_effort_remove_objects [simp]:
  "db_objects (w_db (best_effort_remove api b k w)) = db_objects (w_db w)" by simp

lemma delete_object_again:
  assumes "load_object (w_db w) p i True = Inr obj" "tbl_get mo_id (db_objects (w_db w)) i = Some obj"
    and "tbl_get mo_id (db_objects (w_db w')) i = Some (deleted_row obj b now)"
  shows "delete_object cfg api w' p i fresh now' = (Inr (), w')"
  using assms by (simp add: delete_object_def load_object_def fetch_object_def split: if_splits)

lemma bytes_of_others:
  assumes "keys_unique (w_db w)" and "tbl_get mo_id (db_objects (w_db w)) i = Some obj" and "j \<noteq> i"
    and "tbl_get mo_id (db_objects (w_db w')) = (tbl_get mo_id (db_objects (w_db w)))(i \<mapsto> row)"
    and frame: "\<And>l. snd l \<noteq> mo_object_key obj \<Longrightarrow> view (w_sto w') l = view (w_sto w) l"
  shows "row_bytes view w' j = row_bytes view w j"
proof -
  have "mo_object_key o' \<noteq> mo_object_key obj" if "tbl_get mo_id (db_objects (w_db w)) j = Some o'" for o'
    using assms(1-3) that unfolding keys_unique_def by blast
  then show ?thesis using assms(3,4) frame by (simp add: row_bytes_def split: option.split)
qed

text \<open>
  C24. Deleting a live object succeeds whatever the storage does, and exactly once: the row
  is soft-deleted, its owner's scope (and no other) is debited, one event is queued, no
  other object's row or bytes change, the object keeps its bytes except where a public
  object could not be archived, and deleting it again changes nothing.
\<close>

theorem delete_object_effect:
  assumes laws: "storage_laws api view" and keys: "keys_unique (w_db w)"
    and obj: "load_object (w_db w) p i True = Inr obj" "mo_deleted_at obj = None"
    and del: "delete_object cfg api w p i fresh now = (res, w')"
  shows "res = Inr () \<and>
    (\<exists>b. tbl_get mo_id (db_objects (w_db w')) = (tbl_get mo_id (db_objects (w_db w)))(i \<mapsto> deleted_row obj b now)) \<and>
    (\<forall>k. balance (db_usage (w_db w')) k = (if k = (mo_owner_user_id obj, mo_tenant_id obj)
       then (max 0 (fst (balance (db_usage (w_db w)) k) - mo_size_bytes obj), max 0 (snd (balance (db_usage (w_db w)) k) - 1))
       else balance (db_usage (w_db w)) k)) \<and>
    map oe_event_type (db_outbox (w_db w')) = map oe_event_type (db_outbox (w_db w)) @ [EVENT_OBJECT_DELETED] \<and>
    (\<forall>j. row_bytes view w' j = row_bytes view w j \<or> j = i \<and> mo_visibility obj = VIS_PUBLIC) \<and>
    delete_object cfg api w' p i fresh' now' = (Inr (), w')"
proof -
  have got: "tbl_get mo_id (db_objects (w_db w)) i = Some obj" "mo_id obj = i"
    using load_object_get [OF obj(1)] by auto
  have get': "tbl_get mo_id (tbl_put mo_id (db_objects (w_db w)) (deleted_row obj b now)) =
      (tbl_get mo_id (db_objects (w_db w)))(i \<mapsto> deleted_row obj b now)" for b
    by (rule ext) (simp add: table_simps got)
  note again = delete_object_again [OF obj(1) got(1)] and bytes = bytes_of_others [where view = view and w' = w', OF keys got(1)]
  from obj del show ?thesis
  proof (cases rule: delete_object_outcomes)
    case (archived s')
    let ?w1 = "w\<lparr>w_db := commit_soft_delete (w_db w) obj (deleted_row obj (S3_BUCKET_ARCHIVE cfg) now) fresh now, w_sto := s'\<rparr>"
    have row: "tbl_get mo_id (db_objects (w_db w')) = (tbl_get mo_id (db_objects (w_db w)))(i \<mapsto> deleted_row obj (S3_BUCKET_ARCHIVE cfg) now)"
      by (simp add: archived(4) get')
    have frame: "view (w_sto w') l = view (w_sto w) l" if "snd l \<noteq> mo_object_key obj" for l
      using that copy_elsewhere [OF laws archived(3), of l]
        best_effort_remove_frame [OF laws, of l _ "mo_object_key obj" ?w1]
      by (cases l) (auto simp: archived(4))
    have "row_bytes view w' i = row_bytes view w i"
      using best_effort_remove_frame [OF laws, of "(S3_BUCKET_ARCHIVE cfg, mo_object_key obj)" "mo_storage_bucket obj" _ ?w1]
        storage_copy_ok(1) [OF laws archived(3)] archived(2)
      by (simp add: row_bytes_def row got(1)) (simp add: archived(4))
    moreover have "delete_object cfg api w' p i fresh' now' = (Inr (), w')" by (rule again) (simp add: row)
    ultimately show ?thesis
      using row bytes [OF _ row frame] by (fastforce simp: archived(1,4) removed_balance)
  next
    case (kept s')
    let ?w1 = "w\<lparr>w_db := commit_soft_delete (w_db w) obj (deleted_row obj (mo_storage_bucket obj) now) fresh now, w_sto := s'\<rparr>"
    have db: "w_db w' = w_db ?w1" by (simp add: kept(3))
    then have row: "tbl_get mo_id (db_objects (w_db w')) = (tbl_get mo_id (db_objects (w_db w)))(i \<mapsto> deleted_row obj (mo_storage_bucket obj) now)"
      by (simp add: get')
    have s': "view s' l = view (w_sto w) l" if "snd l \<noteq> mo_object_key obj \<or> l = (mo_storage_bucket obj, mo_object_key obj)" for l
      using that kept(2) copy_elsewhere [OF laws, of "w_sto w" _ _ _ _ False s' l] by (cases l) auto
    then have frame: "view (w_sto w') l = view (w_sto w) l" if "snd l \<noteq> mo_object_key obj" for l
      using that best_effort_remove_frame [OF laws, of l _ "mo_object_key obj" ?w1]
      by (cases l) (auto simp: kept(3))
    have "row_bytes view w' i = row_bytes view w i \<or> mo_visibility obj = VIS_PUBLIC"
      using s' [of "(mo_storage_bucket obj, mo_object_key obj)"]
      by (simp add: row_bytes_def row got(1)) (simp add: kept(3))
    moreover have "delete_object cfg api w' p i fresh' now' = (Inr (), w')" by (rule again) (simp add: row)
    ultimately show ?thesis
      using row bytes [OF _ row frame] by (fastforce simp: kept(1) db removed_balance)
  qed
qed

text \<open>
  Once its owner has deleted a public object, its world-readable location is empty,
  whether or not the archive copy worked, as long as the storage carries out removals.
\<close>

theorem deleted_public_object_unreachable:
  assumes laws: "storage_laws api view" and removes: "\<forall>s b k. fst (api_remove api s b k)"
    and obj: "load_object (w_db w) p i True = Inr obj" "mo_deleted_at obj = None" "mo_visibility obj = VIS_PUBLIC"
    and del: "delete_object cfg api w p i fresh now = (res, w')"
  shows "view (w_sto w') (mo_storage_bucket obj, mo_object_key obj) = None"
proof -
  have gone: "view (w_sto (best_effort_remove api b k w1)) (b, k) = None" for b k w1
  proof -
    obtain s' where "api_remove api (w_sto w1) b k = (True, s')"
      using removes by (metis prod.collapse)
    then show ?thesis
      using storage_remove_law [OF laws] by (fastforce simp: best_effort_remove_def)
  qed
  from obj(1,2) del show ?thesis
    by (cases rule: delete_object_outcomes) (simp_all add: obj(3) gone)
qed

definition demo_world :: "media_visibility \<Rightarrow> (location \<Rightarrow> blob option) world" where
  "demo_world v = \<lparr>w_db = empty_db\<lparr>db_objects := [(demo_row 1 7 v 3)\<lparr>mo_storage_bucket := bucket_for_visibility (default_settings None None) v\<rparr>]\<rparr>,
     w_sto = [(bucket_for_visibility (default_settings None None) v, uuid_hex 1) \<mapsto> [1, 2, 3]], w_metrics = []\<rparr>"

lemmas demo_world_defs = demo_world_def demo_row_def demo_caller_def default_settings_def empty_db_def

lemma demo_world_object:
  "load_object (w_db (demo_world v)) (demo_caller 7) 1 d =
     Inr ((demo_row 1 7 v 3)\<lparr>mo_storage_bucket := bucket_for_visibility (default_settings None None) v\<rparr>)"
  by (simp add: load_object_Inr demo_world_defs)

lemma demo_world_keys: "keys_unique (w_db (demo_world v))"
  by (simp add: keys_unique_def demo_world_def demo_row_def split: if_splits)

theorem update_keeps_bytes_witness:
  "row_bytes (\<lambda>s. s) (snd (update_object (default_settings None None) (mem_api True) (demo_world VIS_PRIVATE) (demo_caller 7) 1
      \<lparr>mu_visibility = Some (Some VIS_PUBLIC), mu_original_filename = None, mu_category = None, mu_category_ids = None\<rparr> 9 True)) 1 =
   Some [1, 2, 3]"
proof -
  have "row_bytes (\<lambda>s. s) (demo_world VIS_PRIVATE) 1 = Some [1, 2, 3]"
    by (simp add: row_bytes_def demo_world_def demo_row_def)
  then show ?thesis
    by (subst update_keeps_bytes [OF mem_api_laws demo_world_keys surjective_pairing])
qed

theorem delete_object_effect_witness:
  "\<exists>w'. delete_object (default_settings None None) (mem_api True) (demo_world VIS_PUBLIC) (demo_caller 7) 1 5 9 = (Inr (), w') \<and>
    delete_object (default_settings None None) (mem_api True) w' (demo_caller 7) 1 6 10 = (Inr (), w')"
proof -
  obtain res w' where d: "delete_object (default_settings None None) (mem_api True) (demo_world VIS_PUBLIC) (demo_caller 7) 1 5 9 = (res, w')"
    by fastforce
  have "mo_deleted_at ((demo_row 1 7 VIS_PUBLIC 3)\<lparr>mo_storage_bucket := bucket_for_visibility (default_settings None None) VIS_PUBLIC\<rparr>) = None"
    by (simp add: demo_row_def)
  from delete_object_effect [OF mem_api_laws demo_world_keys demo_world_object this d] d show ?thesis by blast
qed

theorem deleted_public_object_unreachable_witness:
  "w_sto (snd (delete_object (default_settings None None) (mem_api False) (demo_world VIS_PUBLIC) (demo_caller 7) 1 5 9))
     (''public-media'', uuid_hex 1) = None"
proof -
  let ?o = "(demo_row 1 7 VIS_PUBLIC 3)\<lparr>mo_storage_bucket := bucket_for_visibility (default_settings None None) VIS_PUBLIC\<rparr>"
  have o: "mo_deleted_at ?o = None" "mo_visibility ?o = VIS_PUBLIC"
    by (simp_all add: demo_row_def)
  have "\<forall>s b k. fst (api_remove (mem_api False) s b k)" by (simp add: mem_api_def)
  from deleted_public_object_unreachable [OF mem_api_laws this demo_world_object o surjective_pairing]
  show ?thesis by (simp add: demo_row_def default_settings_def)
qed

section \<open>The table of objects stays well formed\<close>

text \<open>
  Ids and keys are unique, and a live object lies in the bucket of its visibility.
\<close>

definition objects_wf :: "settings \<Rightarrow> database \<Rightarrow> bool" where
  "objects_wf cfg db \<longleftrightarrow> distinct (map mo_id (db_objects db)) \<and> keys_unique db \<and>
     (\<forall>i obj. tbl_get mo_id (db_objects db) i = Some obj \<longrightarrow> mo_deleted_at obj = None \<longrightarrow>
        mo_storage_bucket obj = bucket_for_visibility cfg (mo_visibility obj))"

lemma objects_wfD:
  "objects_wf cfg db \<Longrightarrow> tbl_get mo_id (db_objects db) i = Some obj \<Longrightarrow> mo_deleted_at obj = None \<Longrightarrow>
     mo_storage_bucket obj = bucket_for_visibility cfg (mo_visibility obj)"
  by (simp add: objects_wf_def)

lemma objects_wf_cong: "db_objects db' = db_objects db \<Longrightarrow> objects_wf cfg db' = objects_wf cfg db"
  by (simp add: objects_wf_def keys_unique_def)

lemma objects_wf_put:
  assumes "objects_wf cfg db" and "tbl_get mo_id (db_objects db) (mo_id row) = Some old"
    and "mo_object_key row = mo_object_key old"
    and "mo_deleted_at row = None \<Longrightarrow> mo_storage_bucket row = bucket_for_visibility cfg (mo_visibility row)"
    and "db_objects db' = tbl_put mo_id (db_objects db) row"
  shows "objects_wf cfg db'"
proof -
  have "i = j" if "tbl_get mo_id (db_objects db') i = Some a" "tbl_get mo_id (db_objects db') j = Some b"
    "mo_object_key a = mo_object_key b" for i j a b
  proof -
    have "\<exists>c. tbl_get mo_id (db_objects db) k = Some c \<and> mo_object_key c = mo_object_key x"
      if "tbl_get mo_id (db_objects db') k = Some x" for k x
      using that assms(2,3,5) by (auto simp: table_simps split: if_splits)
    with that assms(1) show ?thesis unfolding objects_wf_def keys_unique_def by metis
  qed
  then have "keys_unique db'" unfolding keys_unique_def by blast
  moreover have "distinct (map mo_id (db_objects db'))"
    using assms(1,5) by (simp add: objects_wf_def distinct_tbl_put)
  ultimately show ?thesis
    using assms(1,4,5) by (auto simp: objects_wf_def table_simps)
qed

lemma update_object_wf:
  assumes wf: "objects_wf cfg (w_db w)" and upd: "update_object cfg api w p i upd now commit_ok = (res, w')"
  shows "objects_wf cfg (w_db w')"
  using upd
proof (cases rule: update_object_outcomes)
  case (in_place obj row ls public)
  note obj = load_object_get [OF in_place(2)] and row = patched_Some [OF in_place(3)]
  have "mo_storage_bucket row = bucket_for_visibility cfg (mo_visibility row)" if "mo_deleted_at row = None"
  proof -
    have b: "mo_storage_bucket obj = bucket_for_visibility cfg (mo_visibility obj)"
      using objects_wfD [OF wf obj [THEN conjunct1]] row that by metis
    show ?thesis
      using in_place(5) row b
      by (auto simp: relocate_for_visibility_def Let_def split: option.splits if_splits prod.splits bool.splits)
  qed
  then show ?thesis
    using obj row by (intro objects_wf_put [OF wf, of row obj]) (simp_all add: in_place(6))
next
  case (relocated obj row ls v s' public)
  note obj = load_object_get [OF relocated(2)] and row = patched_Some [OF relocated(5)]
  show ?thesis
    using obj row relocated(3) by (intro objects_wf_put [OF wf, of row obj]) (simp_all add: relocated(8))
qed (use wf in simp_all)

lemma delete_object_wf:
  assumes wf: "objects_wf cfg (w_db w)" and del: "delete_object cfg api w p i fresh now = (res, w')"
  shows "objects_wf cfg (w_db w')"
proof (cases "\<exists>obj. load_object (w_db w) p i True = Inr obj \<and> mo_deleted_at obj = None")
  case True
  then obtain obj where obj: "load_object (w_db w) p i True = Inr obj" "mo_deleted_at obj = None" by blast
  note got = load_object_get [OF obj(1)]
  have put: "objects_wf cfg (commit_soft_delete (w_db w) obj (deleted_row obj b now) fresh now)" for b
    using got by (intro objects_wf_put [OF wf, of _ obj]) simp_all
  from obj del show ?thesis
    by (cases rule: delete_object_outcomes) (simp_all add: put)
next
  case False
  then have "w' = w" using del by (auto simp: delete_object_def split: sum.splits if_splits)
  then show ?thesis using wf by simp
qed

lemma apply_scan_result_wf:
  assumes wf: "objects_wf cfg (w_db w)" and scan: "apply_scan_result w i verdict fresh now = (res, w')"
  shows "objects_wf cfg (w_db w')"
proof (cases "fetch_object (w_db w) i True")
  case (Inl e)
  then show ?thesis using scan wf by (simp add: apply_scan_result_def)
next
  case (Inr obj)
  then have got: "tbl_get mo_id (db_objects (w_db w)) i = Some obj" "mo_id obj = i"
    by (auto simp: fetch_object_Inr dest: tbl_get_key)
  from scan Inr obtain row where row: "db_objects (w_db w') = tbl_put mo_id (db_objects (w_db w)) row"
    and "mo_id row = mo_id obj" "mo_object_key row = mo_object_key obj" "mo_deleted_at row = mo_deleted_at obj"
      "mo_storage_bucket row = mo_storage_bucket obj" "mo_visibility row = mo_visibility obj"
    by (auto simp: apply_scan_result_def record_event_def Let_def split: if_splits)
  then show ?thesis
    using got objects_wfD [OF wf got(1)] by (intro objects_wf_put [OF wf, of row obj]) simp_all
qed

section \<open>What the handlers do not promise\<close>

text \<open>
  Reapplying a verdict is not a no-op: it queues another event. A late \<open>CLEAN\<close> verdict
  on a soft-deleted object turns its status back to \<open>READY\<close> with \<open>deleted_at\<close> still
  set. An explicit null visibility passes the body's validation and fails at the commit.
\<close>

lemma rescan_queues_again:
  assumes "apply_scan_result w i v e1 t1 = (Inr r1, w1)" and "apply_scan_result w1 i v e2 t2 = (Inr r2, w2)"
  shows "length (db_outbox (w_db w2)) = length (db_outbox (w_db w)) + 2"
  using assms by (auto simp: apply_scan_result_def record_event_def Let_def split: sum.splits if_splits)

lemma clean_scan_revives_status:
  assumes "tbl_get mo_id (db_objects (w_db w)) i = Some obj" and "mo_deleted_at obj = Some t"
  shows "\<exists>r w'. apply_scan_result w i SCAN_CLEAN fresh now = (Inr r, w') \<and> mo_status (mop_object r) = OBJ_READY \<and>
    mo_deleted_at (mop_object r) = Some t"
  using assms by (auto simp: apply_scan_result_def fetch_object_def)

lemma null_visibility_fails:
  assumes "load_object (w_db w) p i False = Inr obj" and "mu_visibility upd = Some None" and "mu_category_ids upd = None"
  shows "fst (update_object cfg api w p i upd now True) = Inl (Raised ''IntegrityError'')"
  using assms by (simp add: update_object_def relocate_for_visibility_def patched_def)

end
