(* ===== verification/Uploads.thy ===== *)
theory Uploads
  imports Objects Validation
begin

text \<open>
  \<open>controllers/uploads.py\<close>: staging, initiating, completing and aborting a presigned
  upload. The magic-byte sniffer and SHA-256 are parameters (\<open>upload_env\<close>). A commit
  fails exactly when an INSERT meets a taken primary key or a taken
  \<open>(storage_bucket, object_key)\<close>; the transaction is then rolled back and the handler's
  exception answers 500.
\<close>

section \<open>Requests\<close>

record upload_env =
  ue_unicode :: unicode_db
  ue_sniff :: "blob \<Rightarrow> string option"   \<comment> \<open>\<open>sniff_mime\<close> over the \<open>filetype\<close> package\<close>
  ue_sha256 :: "blob \<Rightarrow> string"         \<comment> \<open>the hexadecimal SHA-256 digest\<close>

definition MAX_CATEGORY_ASSIGNMENTS :: nat where
  "MAX_CATEGORY_ASSIGNMENTS = 50"

record upload_initiate_request =
  ur_category :: media_category
  ur_visibility :: media_visibility
  ur_original_filename :: ustr
  ur_mime_type :: string
  ur_expected_size_bytes :: int
  ur_category_ids :: "int list"

text \<open>The model's validators: the portable file name, then the category's size cap.\<close>

definition validate_initiate ::
  "unicode_db \<Rightarrow> settings \<Rightarrow> upload_initiate_request \<Rightarrow> upload_initiate_request result" where
  "validate_initiate U cfg req =
     (case validate_filename U (ur_original_filename req) of
        Inl _ \<Rightarrow> Inl (Http 422 (DText ''Validation error''))
      | Inr name \<Rightarrow>
          if ur_expected_size_bytes req < 1 \<or> length (ur_category_ids req) > MAX_CATEGORY_ASSIGNMENTS \<or>
             ur_expected_size_bytes req > max_size_for_category cfg (category_value (ur_category req))
          then Inl (Http 422 (DText ''Validation error''))
          else Inr (req\<lparr>ur_original_filename := name\<rparr>))"

record upload_complete_request =
  uc_sha256 :: "string option"
  uc_category_ids :: "int list option"

section \<open>Rows\<close>

definition insert_media_object :: "media_object list \<Rightarrow> media_object \<Rightarrow> media_object list option" where
  "insert_media_object rows row =
     (if list_ex (\<lambda>o'. mo_storage_bucket o' = mo_storage_bucket row \<and> mo_object_key o' = mo_object_key row) rows
      then None else tbl_insert mo_id rows row)"

definition insert_upload_session :: "upload_session list \<Rightarrow> upload_session \<Rightarrow> upload_session list option" where
  "insert_upload_session rows row =
     (if list_ex (\<lambda>s. us_storage_bucket s = us_storage_bucket row \<and> us_object_key s = us_object_key row) rows
      then None else tbl_insert us_id rows row)"

text \<open>The object row both outcomes of a completion insert; what differs is passed in.\<close>

definition object_of_session ::
  "upload_session \<Rightarrow> string \<Rightarrow> obj_stat \<Rightarrow> string option \<Rightarrow> media_object_status \<Rightarrow> datetime \<Rightarrow> media_object" where
  "object_of_session sess mime stat sha status now =
     \<lparr>mo_id = us_id sess, mo_tenant_id = us_tenant_id sess, mo_owner_user_id = us_owner_user_id sess,
      mo_category = us_category sess, mo_visibility = us_visibility sess,
      mo_storage_bucket = us_storage_bucket sess, mo_object_key = us_object_key sess,
      mo_original_filename = us_original_filename sess, mo_mime_type = mime, mo_extension = None,
      mo_size_bytes = stat_size stat, mo_sha256 = sha, mo_etag = stat_etag stat,
      mo_storage_class = ''standard'', mo_status = status, mo_scan_status = SCAN_PENDING,
      mo_moderation_status = MOD_PENDING, mo_created_at = now, mo_updated_at = now, mo_deleted_at = None\<rparr>"

section \<open>Staging and initiating\<close>

record staged_upload =
  st_media_id :: uuid
  st_owner_id :: uuid
  st_tenant_id :: "uuid option"
  st_bucket :: string
  st_object_key :: ustr
  st_category_ids :: "int list"

definition stage_upload ::
  "upload_env \<Rightarrow> settings \<Rightarrow> database \<Rightarrow> principal \<Rightarrow> upload_initiate_request \<Rightarrow> uuid \<Rightarrow>
   staged_upload result \<times> metric list" where
  "stage_upload env cfg db p req media_id =
     (if \<not> is_allowed_declared_mime (ur_mime_type req)
      then (Inl (Http 422 (DText (''Unsupported content type: '' @ ur_mime_type req))), [])
      else (case check_quota cfg (db_usage db) (p_id p) (p_tenant p) (ur_expected_size_bytes req) of
              (Inl e, ms) \<Rightarrow> (Inl e, ms)
            | (Inr _, ms) \<Rightarrow>
                (case resolve_category_ids db p (ur_category_ids req) of
                   Inl e \<Rightarrow> (Inl e, ms)
                 | Inr categories \<Rightarrow>
                     (Inr \<lparr>st_media_id = media_id, st_owner_id = p_id p, st_tenant_id = p_tenant p,
                           st_bucket = bucket_for_visibility cfg (ur_visibility req),
                           st_object_key = build_object_key (ue_unicode env) (p_id p) media_id
                             (u (category_value (ur_category req))) (ur_original_filename req) (p_tenant p),
                           st_category_ids = map cat_id categories\<rparr>, ms))))"

definition record_upload_session ::
  "database \<Rightarrow> staged_upload \<Rightarrow> upload_initiate_request \<Rightarrow> datetime \<Rightarrow> datetime \<Rightarrow> upload_session result \<times> database" where
  "record_upload_session db staged req expires_at now =
     (let row = \<lparr>us_id = st_media_id staged, us_tenant_id = st_tenant_id staged,
          us_owner_user_id = st_owner_id staged, us_category = ur_category req, us_visibility = ur_visibility req,
          us_storage_bucket = st_bucket staged, us_object_key = st_object_key staged,
          us_original_filename = Some (ur_original_filename req), us_expected_mime_type = ur_mime_type req,
          us_expected_size_bytes = ur_expected_size_bytes req, us_status = SES_INITIATED, us_created_at = now,
          us_expires_at = expires_at, us_completed_at = None, us_category_ids = Some (st_category_ids staged)\<rparr>
      in case insert_upload_session (db_sessions db) row of
           None \<Rightarrow> (Inl (Raised ''IntegrityError''), db)
         | Some rows \<Rightarrow> (Inr row, db\<lparr>db_sessions := rows\<rparr>))"

record upload_initiate_response =
  ui_session_id :: uuid
  ui_upload_url :: ustr
  ui_upload_fields :: "(string \<times> ustr) list"
  ui_expires_at :: datetime

abbreviation ticks :: "metric list \<Rightarrow> 's world \<Rightarrow> 's world" where
  "ticks ms w \<equiv> w\<lparr>w_metrics := w_metrics w @ ms\<rparr>"

definition initiate_upload ::
  "upload_env \<Rightarrow> settings \<Rightarrow> 's storage_api \<Rightarrow> 's world \<Rightarrow> principal \<Rightarrow> upload_initiate_request \<Rightarrow> uuid \<Rightarrow> datetime \<Rightarrow>
   upload_initiate_response result \<times> 's world" where
  "initiate_upload env cfg api w p req fresh now =
     (case stage_upload env cfg (w_db w) p req fresh of
        (Inl e, ms) \<Rightarrow> (Inl e, ticks ms w)
      | (Inr staged, ms) \<Rightarrow>
          (let expires = S3_PRESIGNED_URL_EXPIRE_SECONDS cfg;
               signed_max_bytes = min (ur_expected_size_bytes req)
                 (max_size_for_category cfg (category_value (ur_category req)))
           in case create_upload_url api (st_bucket staged) (st_object_key staged) (ur_mime_type req)
                     signed_max_bytes expires of
                None \<Rightarrow> (Inl (Raised ''StorageError''), ticks ms w)
              | Some (url, form) \<Rightarrow>
                  (let expires_at = now + seconds expires
                   in case record_upload_session (w_db w) staged req expires_at now of
                        (Inl e, _) \<Rightarrow> (Inl e, ticks ms w)
                      | (Inr _, db') \<Rightarrow>
                          (Inr \<lparr>ui_session_id = st_media_id staged, ui_upload_url = url, ui_upload_fields = form,
                                ui_expires_at = expires_at\<rparr>,
                           ticks (ms @ [M_upload_initiated (category_value (ur_category req))
                             (visibility_value (ur_visibility req))]) (w\<lparr>w_db := db'\<rparr>)))))"

section \<open>Completing\<close>

definition load_owned_session :: "database \<Rightarrow> principal \<Rightarrow> uuid \<Rightarrow> upload_session result" where
  "load_owned_session db p session_id =
     (case tbl_get us_id (db_sessions db) session_id of
        None \<Rightarrow> Inl (Http 404 (DText ''Upload session not found.''))
      | Some sess \<Rightarrow>
          if \<not> p_superuser p \<and> us_owner_user_id sess \<noteq> p_id p
          then Inl (Http 403 (DText ''Not enough permissions.'')) else Inr sess)"

definition put_session :: "database \<Rightarrow> upload_session \<Rightarrow> database" where
  "put_session db sess = db\<lparr>db_sessions := tbl_put us_id (db_sessions db) sess\<rparr>"

definition ensure_completable :: "database \<Rightarrow> upload_session \<Rightarrow> datetime \<Rightarrow> unit result \<times> database" where
  "ensure_completable db sess now =
     (if us_status sess \<noteq> SES_INITIATED
      then (Inl (Http 409 (DText (''Upload session is already '' @ session_status_value (us_status sess) @ ''.''))), db)
      else if now > us_expires_at sess
      then (Inl (Http 409 (DText ''Upload session has expired.'')), put_session db (sess\<lparr>us_status := SES_EXPIRED\<rparr>))
      else (Inr (), db))"

text \<open>
  \<open>_reject_upload\<close>: the audit row and the ABORTED session in one commit, together with
  the usage table the session may already have touched (\<open>usage\<close>), then the bytes.
\<close>

definition reject_upload ::
  "'s storage_api \<Rightarrow> 's world \<Rightarrow> storage_usage list \<Rightarrow> upload_session \<Rightarrow> upload_reject_reason \<Rightarrow> string \<Rightarrow> obj_stat \<Rightarrow>
   datetime \<Rightarrow> 'a result \<times> 's world" where
  "reject_upload api w usage sess reason mime stat now =
     (case insert_media_object (db_objects (w_db w)) (object_of_session sess mime stat None OBJ_REJECTED now) of
        None \<Rightarrow> (Inl (Raised ''IntegrityError''), w)
      | Some rows \<Rightarrow>
          (Inl (Http 422 (DUploadRejected (reject_value reason) (''Upload rejected: '' @ reject_value reason @ ''.''))),
           tick (M_upload_rejected (reject_value reason))
             (best_effort_remove api (us_storage_bucket sess) (us_object_key sess)
               (w\<lparr>w_db := put_session ((w_db w)\<lparr>db_objects := rows, db_usage := usage\<rparr>)
                             (sess\<lparr>us_status := SES_ABORTED\<rparr>)\<rparr>))))"

text \<open>Steps 1 to 3 of a completion: size, sniffed type, digest.\<close>

definition content_verdict ::
  "upload_env \<Rightarrow> settings \<Rightarrow> 's storage_api \<Rightarrow> 's \<Rightarrow> upload_session \<Rightarrow> obj_stat \<Rightarrow> string option \<Rightarrow>
   upload_reject_reason option result" where
  "content_verdict env cfg api s sess stat sha256 =
     (let head = (case api_head api s (us_storage_bucket sess) (us_object_key sess) of Some h \<Rightarrow> h | None \<Rightarrow> [])
      in if stat_size stat > min (us_expected_size_bytes sess) (max_size_for_category cfg (category_value (us_category sess)))
         then Inr (Some REJ_SIZE_EXCEEDED)
         else if \<not> mime_consistent (us_expected_mime_type sess) (ue_sniff env head)
         then Inr (Some REJ_MIME_MISMATCH)
         else case sha256 of
           None \<Rightarrow> Inr None
         | Some expected \<Rightarrow>
             if expected = [] then Inr None
             else (case api_stream api s (us_storage_bucket sess) (us_object_key sess)
                       (MEDIA_SHA256_VERIFY_CHUNK_SIZE cfg) of
                     None \<Rightarrow> Inl (Http 422 (DText ''Failed to read object for SHA-256 verification.''))
                   | Some chunks \<Rightarrow>
                       if verify_sha256_stream (ue_sha256 env) chunks expected then Inr None
                       else Inr (Some REJ_SHA256_MISMATCH)))"

text \<open>
  Steps 4 and 5 and the promotion. A refused reservation leaves the usage table it
  returned in the session, which \<open>reject_upload\<close> commits.
\<close>

definition promote_upload ::
  "settings \<Rightarrow> 's storage_api \<Rightarrow> 's world \<Rightarrow> principal \<Rightarrow> upload_session \<Rightarrow> category list \<Rightarrow> obj_stat \<Rightarrow>
   string option \<Rightarrow> datetime \<Rightarrow> media_object_public result \<times> 's world" where
  "promote_upload cfg api w p sess categories stat sha256 now =
     (case api_set_content_type api (w_sto w) (us_storage_bucket sess) (us_object_key sess) (us_expected_mime_type sess) of
        (False, s') \<Rightarrow> (Inl (Http 422 (DText ''Failed to finalize object content type.'')), w\<lparr>w_sto := s'\<rparr>)
      | (True, s') \<Rightarrow>
          (case reserve_storage_for_object cfg (db_usage (w_db w)) (us_owner_user_id sess) (us_tenant_id sess)
                  (stat_size stat) now of
             (Inl reason, usage', ms) \<Rightarrow>
               reject_upload api (ticks ms (w\<lparr>w_sto := s'\<rparr>)) usage' sess reason (us_expected_mime_type sess) stat now
           | (Inr _, usage', ms) \<Rightarrow>
               (let row = object_of_session sess (us_expected_mime_type sess) stat sha256 OBJ_UPLOADED now
                in case insert_media_object (db_objects (w_db w)) row of
                     None \<Rightarrow> (Inl (Raised ''IntegrityError''), ticks ms (w\<lparr>w_sto := s'\<rparr>))
                   | Some rows \<Rightarrow>
                       (let db' = put_session ((w_db w)\<lparr>db_objects := rows, db_usage := usage',
                              db_links := refile (db_links (w_db w)) (mo_id row) categories\<rparr>)
                              (sess\<lparr>us_status := SES_COMPLETED, us_completed_at := Some now\<rparr>)
                        in (Inr \<lparr>mop_object = row, mop_categories = assigned_category_refs db' p categories\<rparr>,
                            ticks (ms @ [M_upload_completed (category_value (us_category sess)) (stat_size stat)])
                              (w\<lparr>w_db := db', w_sto := s'\<rparr>))))))"

definition complete_upload ::
  "upload_env \<Rightarrow> settings \<Rightarrow> 's storage_api \<Rightarrow> 's world \<Rightarrow> principal \<Rightarrow> uuid \<Rightarrow> upload_complete_request \<Rightarrow> datetime \<Rightarrow>
   media_object_public result \<times> 's world" where
  "complete_upload env cfg api w p session_id req now =
     (case load_owned_session (w_db w) p session_id of
        Inl e \<Rightarrow> (Inl e, w)
      | Inr sess \<Rightarrow>
          (case ensure_completable (w_db w) sess now of
             (Inl e, db') \<Rightarrow> (Inl e, w\<lparr>w_db := db'\<rparr>)
           | (Inr _, _) \<Rightarrow>
               (case (case uc_category_ids req of
                        Some ids \<Rightarrow> resolve_category_ids (w_db w) p ids
                      | None \<Rightarrow> Inr (categories_in_scope (w_db w) p
                          (case us_category_ids sess of Some ids \<Rightarrow> ids | None \<Rightarrow> []))) of
                  Inl e \<Rightarrow> (Inl e, w)
                | Inr categories \<Rightarrow>
                    (case api_stat api (w_sto w) (us_storage_bucket sess) (us_object_key sess) of
                       None \<Rightarrow> (Inl (Http 422 (DText ''Object not found in storage. Upload the file before completing.'')), w)
                     | Some stat \<Rightarrow>
                         (case content_verdict env cfg api (w_sto w) sess stat (uc_sha256 req) of
                            Inl e \<Rightarrow> (Inl e, w)
                          | Inr (Some reason) \<Rightarrow>
                              reject_upload api w (db_usage (w_db w)) sess reason (us_expected_mime_type sess) stat now
                          | Inr None \<Rightarrow> promote_upload cfg api w p sess categories stat (uc_sha256 req) now)))))"

definition abort_upload ::
  "'s storage_api \<Rightarrow> 's world \<Rightarrow> principal \<Rightarrow> uuid \<Rightarrow> unit result \<times> 's world" where
  "abort_upload api w p session_id =
     (case load_owned_session (w_db w) p session_id of
        Inl e \<Rightarrow> (Inl e, w)
      | Inr sess \<Rightarrow>
          if us_status sess = SES_COMPLETED
          then (Inl (Http 409 (DText ''Cannot abort a completed upload.'')), w)
          else (let w1 = (if us_status sess = SES_INITIATED
                          then best_effort_remove api (us_storage_bucket sess) (us_object_key sess) w else w)
                in (Inr (), tick M_upload_failed
                      (w1\<lparr>w_db := put_session (w_db w) (sess\<lparr>us_status := SES_ABORTED\<rparr>)\<rparr>))))"

section \<open>When a completion succeeds\<close>

lemma load_owned_session_Inr:
  "load_owned_session db p i = Inr sess \<longleftrightarrow>
     tbl_get us_id (db_sessions db) i = Some sess \<and> (p_superuser p \<or> us_owner_user_id sess = p_id p)"
  by (auto simp: load_owned_session_def split: option.splits)

lemma ensure_completable_Inr:
  "ensure_completable db sess now = (Inr (), db') \<longleftrightarrow>
     us_status sess = SES_INITIATED \<and> now \<le> us_expires_at sess \<and> db' = db"
  by (auto simp: ensure_completable_def)

definition filing_of ::
  "database \<Rightarrow> principal \<Rightarrow> upload_session \<Rightarrow> upload_complete_request \<Rightarrow> category list result" where
  "filing_of db p sess req =
     (case uc_category_ids req of
        Some ids \<Rightarrow> resolve_category_ids db p ids
      | None \<Rightarrow> Inr (categories_in_scope db p (case us_category_ids sess of Some ids \<Rightarrow> ids | None \<Rightarrow> [])))"

text \<open>The stored bytes are what the session declared.\<close>

definition content_as_declared ::
  "upload_env \<Rightarrow> settings \<Rightarrow> 's storage_api \<Rightarrow> 's \<Rightarrow> upload_session \<Rightarrow> obj_stat \<Rightarrow> string option \<Rightarrow> bool" where
  "content_as_declared env cfg api s sess stat sha256 \<longleftrightarrow>
     stat_size stat \<le> us_expected_size_bytes sess \<and>
     stat_size stat \<le> max_size_for_category cfg (category_value (us_category sess)) \<and>
     mime_consistent (us_expected_mime_type sess)
       (ue_sniff env (case api_head api s (us_storage_bucket sess) (us_object_key sess) of Some h \<Rightarrow> h | None \<Rightarrow> [])) \<and>
     (case sha256 of
        None \<Rightarrow> True
      | Some expected \<Rightarrow> expected = [] \<or>
          (\<exists>chunks. api_stream api s (us_storage_bucket sess) (us_object_key sess) (MEDIA_SHA256_VERIFY_CHUNK_SIZE cfg) = Some chunks \<and>
             ue_sha256 env (concat chunks) = map ascii_lower expected))"

lemma content_verdict_accepts:
  "content_verdict env cfg api s sess stat sha256 = Inr None \<longleftrightarrow> content_as_declared env cfg api s sess stat sha256"
  by (auto simp: content_verdict_def content_as_declared_def verify_sha256_stream_def Let_def not_less
      split: option.splits)

definition row_free :: "media_object list \<Rightarrow> upload_session \<Rightarrow> bool" where
  "row_free rows sess \<longleftrightarrow> (\<forall>o' \<in> set rows. mo_id o' \<noteq> us_id sess \<and>
     \<not> (mo_storage_bucket o' = us_storage_bucket sess \<and> mo_object_key o' = us_object_key sess))"

lemma object_of_session_simps [simp]:
  "mo_id (object_of_session sess mime stat sha st now) = us_id sess"
  "mo_storage_bucket (object_of_session sess mime stat sha st now) = us_storage_bucket sess"
  "mo_object_key (object_of_session sess mime stat sha st now) = us_object_key sess"
  "mo_status (object_of_session sess mime stat sha st now) = st"
  "mo_scan_status (object_of_session sess mime stat sha st now) = SCAN_PENDING"
  "mo_size_bytes (object_of_session sess mime stat sha st now) = stat_size stat"
  "mo_owner_user_id (object_of_session sess mime stat sha st now) = us_owner_user_id sess"
  "mo_tenant_id (object_of_session sess mime stat sha st now) = us_tenant_id sess"
  "mo_visibility (object_of_session sess mime stat sha st now) = us_visibility sess"
  "mo_deleted_at (object_of_session sess mime stat sha st now) = None"
  by (simp_all add: object_of_session_def)

lemma insert_media_object_session:
  "insert_media_object rows (object_of_session sess mime stat sha st now) =
     (if row_free rows sess then Some (rows @ [object_of_session sess mime stat sha st now]) else None)"
  by (auto simp: insert_media_object_def tbl_insert_def row_free_def list_ex_iff tbl_get_None image_iff)

text \<open>One more object of \<open>n\<close> bytes keeps the scope within both its ceilings.\<close>

definition fits_quota :: "settings \<Rightarrow> storage_usage list \<Rightarrow> scope \<Rightarrow> int \<Rightarrow> bool" where
  "fits_quota cfg us k n \<longleftrightarrow> within_quota (fst (quotas_of cfg us k)) (fst (balance us k) + n) \<and>
     within_quota (snd (quotas_of cfg us k)) (snd (balance us k) + 1)"

lemma reserve_fits:
  "(\<exists>usage' ms. reserve_storage_for_object cfg us owner tenant n now = (Inr (), usage', ms)) \<longleftrightarrow>
     fits_quota cfg us (owner, tenant) n"
  unfolding fits_quota_def not_over_within [symmetric] using reserve_ok_iff [of cfg us owner tenant n now]
  by (metis fst_conv prod.collapse)

text \<open>Everything a completion needs.\<close>

definition completable ::
  "upload_env \<Rightarrow> settings \<Rightarrow> 's storage_api \<Rightarrow> 's world \<Rightarrow> principal \<Rightarrow> uuid \<Rightarrow> upload_complete_request \<Rightarrow> datetime \<Rightarrow>
   upload_session \<Rightarrow> category list \<Rightarrow> obj_stat \<Rightarrow> bool" where
  "completable env cfg api w p i req now sess categories stat \<longleftrightarrow>
     tbl_get us_id (db_sessions (w_db w)) i = Some sess \<and>
     (p_superuser p \<or> us_owner_user_id sess = p_id p) \<and>
     us_status sess = SES_INITIATED \<and> now \<le> us_expires_at sess \<and>
     filing_of (w_db w) p sess req = Inr categories \<and>
     api_stat api (w_sto w) (us_storage_bucket sess) (us_object_key sess) = Some stat \<and>
     content_as_declared env cfg api (w_sto w) sess stat (uc_sha256 req) \<and>
     fst (api_set_content_type api (w_sto w) (us_storage_bucket sess) (us_object_key sess) (us_expected_mime_type sess)) \<and>
     fits_quota cfg (db_usage (w_db w)) (us_owner_user_id sess, us_tenant_id sess) (stat_size stat) \<and>
     row_free (db_objects (w_db w)) sess"

lemma reject_upload_fails: "fst (reject_upload api w us sess reason mime stat now) \<noteq> Inr x"
  by (simp add: reject_upload_def split: option.split)

lemma promote_upload_Inr:
  "promote_upload cfg api w p sess categories stat sha256 now = (Inr public, w') \<longleftrightarrow>
     (\<exists>s' usage' ms. api_set_content_type api (w_sto w) (us_storage_bucket sess) (us_object_key sess)
          (us_expected_mime_type sess) = (True, s') \<and>
        reserve_storage_for_object cfg (db_usage (w_db w)) (us_owner_user_id sess) (us_tenant_id sess) (stat_size stat) now
          = (Inr (), usage', ms) \<and>
        row_free (db_objects (w_db w)) sess \<and>
        (let row = object_of_session sess (us_expected_mime_type sess) stat sha256 OBJ_UPLOADED now;
             db' = put_session ((w_db w)\<lparr>db_objects := db_objects (w_db w) @ [row], db_usage := usage',
                 db_links := refile (db_links (w_db w)) (us_id sess) categories\<rparr>)
                 (sess\<lparr>us_status := SES_COMPLETED, us_completed_at := Some now\<rparr>)
         in public = \<lparr>mop_object = row, mop_categories = assigned_category_refs db' p categories\<rparr> \<and>
            w' = ticks (ms @ [M_upload_completed (category_value (us_category sess)) (stat_size stat)])
              (w\<lparr>w_db := db', w_sto := s'\<rparr>)))"
  using reject_upload_fails
  by (auto simp: promote_upload_def insert_media_object_session Let_def reject_upload_def
      split: prod.splits bool.splits sum.splits option.splits if_splits)

lemma complete_upload_Inr:
  "complete_upload env cfg api w p i req now = (Inr public, w') \<longleftrightarrow>
     (\<exists>sess categories stat. load_owned_session (w_db w) p i = Inr sess \<and>
        ensure_completable (w_db w) sess now = (Inr (), w_db w) \<and>
        filing_of (w_db w) p sess req = Inr categories \<and>
        api_stat api (w_sto w) (us_storage_bucket sess) (us_object_key sess) = Some stat \<and>
        content_verdict env cfg api (w_sto w) sess stat (uc_sha256 req) = Inr None \<and>
        promote_upload cfg api w p sess categories stat (uc_sha256 req) now = (Inr public, w'))"
  using reject_upload_fails
  by (auto simp: complete_upload_def ensure_completable_def reject_upload_def filing_of_def [symmetric]
      split: sum.splits prod.splits option.splits if_splits)

text \<open>
  C8. A completion succeeds exactly when it should: the caller owns an open, unexpired
  session, its filing resolves, the stored object exists, is no larger than declared and
  than the category's cap, sniffs as the declared type, has the digest the caller gave,
  its content type could be pinned, both quota ceilings hold for the actual size, and the
  id and key are still free. No other input completes, and every such input does.
\<close>

theorem completion_exact:
  "(\<exists>public w'. complete_upload env cfg api w p i req now = (Inr public, w')) \<longleftrightarrow>
   (\<exists>sess categories stat. completable env cfg api w p i req now sess categories stat)"
proof -
  have pin: "(\<exists>s'. api_set_content_type api s b k ct = (True, s')) \<longleftrightarrow> fst (api_set_content_type api s b k ct)" for s b k ct
    by (metis (full_types) fst_conv prod.collapse)
  show ?thesis
    unfolding complete_upload_Inr promote_upload_Inr completable_def content_verdict_accepts
      load_owned_session_Inr ensure_completable_Inr reserve_fits [where now = now, symmetric] pin [symmetric] Let_def
    by blast
qed

text \<open>
  What a success leaves, and that a session is stamped by it.
\<close>

lemma complete_upload_effect:
  assumes "complete_upload env cfg api w p i req now = (Inr public, w')"
  obtains sess categories stat usage' ms s' where
    "completable env cfg api w p i req now sess categories stat"
    "reserve_storage_for_object cfg (db_usage (w_db w)) (us_owner_user_id sess) (us_tenant_id sess) (stat_size stat) now
       = (Inr (), usage', ms)"
    "mop_object public = object_of_session sess (us_expected_mime_type sess) stat (uc_sha256 req) OBJ_UPLOADED now"
    "w_db w' = put_session ((w_db w)\<lparr>db_objects := db_objects (w_db w) @ [mop_object public], db_usage := usage',
       db_links := refile (db_links (w_db w)) (us_id sess) categories\<rparr>)
       (sess\<lparr>us_status := SES_COMPLETED, us_completed_at := Some now\<rparr>)"
    "api_set_content_type api (w_sto w) (us_storage_bucket sess) (us_object_key sess) (us_expected_mime_type sess) = (True, s')"
    "w_sto w' = s'"
proof -
  from assms have "\<exists>public w'. complete_upload env cfg api w p i req now = (Inr public, w')" by blast
  from assms obtain sess categories stat where
    "load_owned_session (w_db w) p i = Inr sess" "ensure_completable (w_db w) sess now = (Inr (), w_db w)"
    "filing_of (w_db w) p sess req = Inr categories"
    "api_stat api (w_sto w) (us_storage_bucket sess) (us_object_key sess) = Some stat"
    "content_verdict env cfg api (w_sto w) sess stat (uc_sha256 req) = Inr None"
    and prom: "promote_upload cfg api w p sess categories stat (uc_sha256 req) now = (Inr public, w')"
    unfolding complete_upload_Inr by blast
  moreover from prom obtain s' usage' ms where s': "api_set_content_type api (w_sto w) (us_storage_bucket sess)
      (us_object_key sess) (us_expected_mime_type sess) = (True, s')"
    and r: "reserve_storage_for_object cfg (db_usage (w_db w)) (us_owner_user_id sess) (us_tenant_id sess) (stat_size stat) now
       = (Inr (), usage', ms)" and "row_free (db_objects (w_db w)) sess"
    unfolding promote_upload_Inr by blast
  moreover have "fits_quota cfg (db_usage (w_db w)) (us_owner_user_id sess, us_tenant_id sess) (stat_size stat)"
    using r reserve_fits by blast
  ultimately have c: "completable env cfg api w p i req now sess categories stat"
    by (simp add: completable_def content_verdict_accepts load_owned_session_Inr ensure_completable_Inr)
  have "mop_object public = object_of_session sess (us_expected_mime_type sess) stat (uc_sha256 req) OBJ_UPLOADED now \<and>
    w_db w' = put_session ((w_db w)\<lparr>db_objects := db_objects (w_db w) @ [mop_object public], db_usage := usage',
       db_links := refile (db_links (w_db w)) (us_id sess) categories\<rparr>)
       (sess\<lparr>us_status := SES_COMPLETED, us_completed_at := Some now\<rparr>) \<and> w_sto w' = s'"
    using prom s' r unfolding promote_upload_Inr Let_def by clarsimp
  with c r s' that show thesis by blast
qed

section \<open>Every outcome of a completion\<close>

fun plain_error :: "err \<Rightarrow> bool" where
  "plain_error (Http _ (DUploadRejected _ _)) = False"
| "plain_error _ = True"

lemma load_category_plain: "load_category db p i = Inl e \<Longrightarrow> plain_error e"
  by (auto simp: load_category_def split: option.splits if_splits)

lemma load_missing_plain: "load_missing db p found is = Inl e \<Longrightarrow> plain_error e"
  by (induction db p found "is" rule: load_missing.induct)
    (auto split: option.splits sum.splits dest: load_category_plain)

lemma filing_plain: "filing_of db p sess req = Inl e \<Longrightarrow> plain_error e"
  by (auto simp: filing_of_def resolve_category_ids_def Let_def
      split: option.splits if_splits dest: load_missing_plain)

lemma content_verdict_plain: "content_verdict env cfg api s sess stat sha = Inl e \<Longrightarrow> plain_error e"
  by (auto simp: content_verdict_def Let_def split: option.splits if_splits)

lemma load_owned_session_plain: "load_owned_session db p i = Inl e \<Longrightarrow> plain_error e"
  by (auto simp: load_owned_session_def split: option.splits if_splits)

lemma reject_upload_cases:
  assumes "reject_upload api w usage sess reason mime stat now = (res, w')"
  obtains (clash) "res = Inl (Raised ''IntegrityError'')" "w' = w"
    | (audited) m where "res = Inl (Http 422 (DUploadRejected (reject_value reason) m))"
        "row_free (db_objects (w_db w)) sess"
        "w_db w' = put_session ((w_db w)\<lparr>db_objects := db_objects (w_db w) @ [object_of_session sess mime stat None OBJ_REJECTED now],
           db_usage := usage\<rparr>) (sess\<lparr>us_status := SES_ABORTED\<rparr>)"
        "w_sto w' = snd (api_remove api (w_sto w) (us_storage_bucket sess) (us_object_key sess))"
  using assms
  by (auto simp: reject_upload_def insert_media_object_session best_effort_remove_def split: if_splits)

lemma promote_upload_cases:
  assumes "promote_upload cfg api w p sess categories stat sha256 now = (res, w')"
  obtains (failed) e where "res = Inl e" "plain_error e" "w_db w' = w_db w"
    | (rejected) m reason s' usage' where "res = Inl (Http 422 (DUploadRejected (reject_value reason) m))"
        "\<And>k. balance usage' k = balance (db_usage (w_db w)) k" "row_free (db_objects (w_db w)) sess"
        "w_db w' = put_session ((w_db w)\<lparr>db_objects := db_objects (w_db w) @
           [object_of_session sess (us_expected_mime_type sess) stat None OBJ_REJECTED now], db_usage := usage'\<rparr>)
           (sess\<lparr>us_status := SES_ABORTED\<rparr>)"
        "w_sto w' = snd (api_remove api s' (us_storage_bucket sess) (us_object_key sess))"
        "s' = snd (api_set_content_type api (w_sto w) (us_storage_bucket sess) (us_object_key sess) (us_expected_mime_type sess))"
    | (promoted) public where "res = Inr public"
proof (cases "api_set_content_type api (w_sto w) (us_storage_bucket sess) (us_object_key sess) (us_expected_mime_type sess)")
  case (Pair ok s')
  obtain rr usage' ms where r: "reserve_storage_for_object cfg (db_usage (w_db w)) (us_owner_user_id sess)
      (us_tenant_id sess) (stat_size stat) now = (rr, usage', ms)" by (metis prod_cases3)
  note unfolded = assms [unfolded promote_upload_def Pair prod.case r]
  show ?thesis
  proof (cases ok)
    case False
    then show ?thesis using unfolded failed by auto
  next
    case True
    show ?thesis
    proof (cases rr)
      case (Inl reason)
      have bal: "balance usage' k = balance (db_usage (w_db w)) k" for k
        using reserve_balance [OF r, of k] Inl by simp
      from unfolded True Inl have "reject_upload api (ticks ms (w\<lparr>w_sto := s'\<rparr>)) usage' sess reason
          (us_expected_mime_type sess) stat now = (res, w')" by simp
      then show ?thesis
      proof (cases rule: reject_upload_cases)
        case clash
        then show ?thesis using failed by simp
      next
        case (audited m)
        show ?thesis
          by (rule rejected [OF audited(1) bal]) (use audited Pair in simp_all)
      qed
    next
      case (Inr x)
      then show ?thesis
        using unfolded True failed promoted by (auto simp: Let_def split: option.splits)
    qed
  qed
qed

lemma complete_upload_cases:
  assumes "complete_upload env cfg api w p i req now = (res, w')"
  obtains (failed) e where "res = Inl e" "plain_error e" "w_db w' = w_db w"
    | (expired) e sess where "res = Inl e" "plain_error e" "load_owned_session (w_db w) p i = Inr sess" "us_status sess = SES_INITIATED"
        "us_expires_at sess < now" "w' = w\<lparr>w_db := put_session (w_db w) (sess\<lparr>us_status := SES_EXPIRED\<rparr>)\<rparr>"
    | (rejected) m reason sess stat s' usage' where "res = Inl (Http 422 (DUploadRejected (reject_value reason) m))"
        "load_owned_session (w_db w) p i = Inr sess" "us_status sess = SES_INITIATED"
        "\<And>k. balance usage' k = balance (db_usage (w_db w)) k" "row_free (db_objects (w_db w)) sess"
        "w_db w' = put_session ((w_db w)\<lparr>db_objects := db_objects (w_db w) @
           [object_of_session sess (us_expected_mime_type sess) stat None OBJ_REJECTED now], db_usage := usage'\<rparr>)
           (sess\<lparr>us_status := SES_ABORTED\<rparr>)"
        "w_sto w' = snd (api_remove api s' (us_storage_bucket sess) (us_object_key sess))"
        "api_stat api (w_sto w) (us_storage_bucket sess) (us_object_key sess) = Some stat"
        "s' = w_sto w \<or> s' = snd (api_set_content_type api (w_sto w) (us_storage_bucket sess) (us_object_key sess) (us_expected_mime_type sess))"
    | (promoted) public where "res = Inr public"
proof (cases "load_owned_session (w_db w) p i")
  case (Inl e)
  then show ?thesis using assms failed load_owned_session_plain [OF Inl] by (auto simp: complete_upload_def)
next
  case sess: (Inr sess)
  obtain r db' where r: "ensure_completable (w_db w) sess now = (r, db')" by fastforce
  show ?thesis
  proof (cases r)
    case (Inl e)
    then show ?thesis
      using assms failed expired sess r
      by (auto simp: complete_upload_def ensure_completable_def split: if_splits)
  next
    case (Inr _)
    then have st: "us_status sess = SES_INITIATED" using r ensure_completable_Inr by auto
    note unfolded = assms [unfolded complete_upload_def sess sum.case r prod.case Inr filing_of_def [symmetric]]
    show ?thesis
    proof (cases "\<exists>categories stat v. filing_of (w_db w) p sess req = Inr categories \<and>
        api_stat api (w_sto w) (us_storage_bucket sess) (us_object_key sess) = Some stat \<and>
        content_verdict env cfg api (w_sto w) sess stat (uc_sha256 req) = Inr v")
      case False
      then show ?thesis
        using unfolded failed by (auto split: sum.splits option.splits dest: filing_plain content_verdict_plain)
    next
      case True
      then obtain categories stat v where c: "filing_of (w_db w) p sess req = Inr categories"
        "api_stat api (w_sto w) (us_storage_bucket sess) (us_object_key sess) = Some stat"
        "content_verdict env cfg api (w_sto w) sess stat (uc_sha256 req) = Inr v" by blast
      show ?thesis
      proof (cases v)
        case None
        then have "promote_upload cfg api w p sess categories stat (uc_sha256 req) now = (res, w')"
          using unfolded c by simp
        then show ?thesis
          by (cases rule: promote_upload_cases) (use failed rejected [OF _ sess st _ _ _ _ c(2) disjI2] promoted in blast)+
      next
        case (Some reason)
        then have "reject_upload api w (db_usage (w_db w)) sess reason (us_expected_mime_type sess) stat now = (res, w')"
          using unfolded c by simp
        then show ?thesis
        proof (cases rule: reject_upload_cases)
          case clash
          then show ?thesis using failed by simp
        next
          case (audited m)
          show ?thesis by (rule rejected [OF audited(1) sess st refl audited(2,3,4) c(2) disjI1 [OF refl]])
        qed
      qed
    qed
  qed
qed

section \<open>The life of a session\<close>

definition session_life :: "database \<Rightarrow> uuid \<Rightarrow> upload_session_status option" where
  "session_life db i = map_option us_status (tbl_get us_id (db_sessions db) i)"

text \<open>The abstract machine a client relies on.\<close>

inductive life_step :: "upload_session_status option \<Rightarrow> upload_session_status option \<Rightarrow> bool" where
  opened: "life_step None (Some SES_INITIATED)"
| completed: "life_step (Some SES_INITIATED) (Some SES_COMPLETED)"
| rejected: "life_step (Some SES_INITIATED) (Some SES_ABORTED)"
| lapsed: "life_step (Some SES_INITIATED) (Some SES_EXPIRED)"
| cancelled: "life_step (Some SES_EXPIRED) (Some SES_ABORTED)"

inductive_cases life_step_completedE: "life_step (Some SES_COMPLETED) y"
inductive_simps life_step_to_completed: "life_step x (Some SES_COMPLETED)"

lemma session_life_put:
  "session_life (put_session db sess) i = (if i = us_id sess then Some (us_status sess) else session_life db i)"
  by (simp add: session_life_def put_session_def table_simps)

lemma session_life_cong [simp]:
  "session_life (db\<lparr>db_objects := x\<rparr>) i = session_life db i" "session_life (db\<lparr>db_usage := y\<rparr>) i = session_life db i"
  "session_life (db\<lparr>db_links := z\<rparr>) i = session_life db i"
  by (simp_all add: session_life_def)

lemma loaded_life:
  "load_owned_session db p i = Inr sess \<Longrightarrow> session_life db i = Some (us_status sess) \<and> us_id sess = i"
  by (auto simp: load_owned_session_Inr session_life_def dest: tbl_get_key)

lemma complete_life:
  assumes "complete_upload env cfg api w p i req now = (res, w')"
  shows "session_life (w_db w') j = session_life (w_db w) j \<or>
    life_step (session_life (w_db w) j) (session_life (w_db w') j)"
  using assms
proof (cases rule: complete_upload_cases)
  case (expired e sess)
  then show ?thesis
    using loaded_life [OF expired(3)] by (auto simp: session_life_put intro: life_step.intros)
next
  case (rejected m reason sess stat s' usage')
  then show ?thesis
    using loaded_life [OF rejected(2)] by (auto simp: session_life_put intro: life_step.intros)
next
  case (promoted public)
  from assms [unfolded promoted] obtain sess categories stat usage' ms s' where
    c: "completable env cfg api w p i req now sess categories stat"
    and db: "w_db w' = put_session ((w_db w)\<lparr>db_objects := db_objects (w_db w) @ [mop_object public], db_usage := usage',
       db_links := refile (db_links (w_db w)) (us_id sess) categories\<rparr>)
       (sess\<lparr>us_status := SES_COMPLETED, us_completed_at := Some now\<rparr>)"
    by (rule complete_upload_effect)
  from c have "load_owned_session (w_db w) p i = Inr sess" "us_status sess = SES_INITIATED"
    by (simp_all add: completable_def load_owned_session_Inr)
  then show ?thesis
    using loaded_life [of "w_db w" p i sess] by (auto simp: db session_life_put intro: life_step.intros)
qed simp

lemma abort_life:
  assumes "abort_upload api w p i = (res, w')"
  shows "session_life (w_db w') j = session_life (w_db w) j \<or>
    life_step (session_life (w_db w) j) (session_life (w_db w') j)"
proof (cases "load_owned_session (w_db w) p i")
  case (Inr sess)
  then show ?thesis
    using assms loaded_life [OF Inr]
    by (cases "us_status sess") (auto simp: abort_upload_def session_life_put Let_def life_step.intros)
qed (use assms in \<open>auto simp: abort_upload_def\<close>)

lemma record_upload_session_life:
  "session_life (snd (record_upload_session db staged req expires_at now)) j = session_life db j \<or>
   life_step (session_life db j) (session_life (snd (record_upload_session db staged req expires_at now)) j)"
  by (auto simp: record_upload_session_def insert_upload_session_def tbl_insert_def session_life_def tbl_get_append
      Let_def split: option.splits intro: life_step.intros)

lemma initiate_life:
  assumes "initiate_upload env cfg api w p req fresh now = (res, w')"
  shows "session_life (w_db w') j = session_life (w_db w) j \<or>
    life_step (session_life (w_db w) j) (session_life (w_db w') j)"
proof -
  have "w_db w' = w_db w \<or>
      (\<exists>staged t. w_db w' = snd (record_upload_session (w_db w) staged req t now))"
    using assms by (auto simp: initiate_upload_def Let_def split: prod.splits sum.splits option.splits) (metis snd_conv)+
  then show ?thesis using record_upload_session_life by metis
qed

datatype upload_op =
    Initiate principal upload_initiate_request uuid datetime
  | Complete principal uuid upload_complete_request datetime
  | Abort principal uuid

fun exec_upload :: "upload_env \<Rightarrow> settings \<Rightarrow> 's storage_api \<Rightarrow> upload_op \<Rightarrow> 's world \<Rightarrow> 's world" where
  "exec_upload env cfg api (Initiate p req fresh now) w = snd (initiate_upload env cfg api w p req fresh now)"
| "exec_upload env cfg api (Complete p i req now) w = snd (complete_upload env cfg api w p i req now)"
| "exec_upload env cfg api (Abort p i) w = snd (abort_upload api w p i)"

lemma exec_upload_life:
  "session_life (w_db (exec_upload env cfg api op w)) j = session_life (w_db w) j \<or>
   life_step (session_life (w_db w) j) (session_life (w_db (exec_upload env cfg api op w)) j)"
  by (cases op) (simp_all add: initiate_life [OF surjective_pairing] complete_life [OF surjective_pairing]
      abort_life [OF surjective_pairing])

text \<open>
  C9. The upload handlers refine the session machine: whatever requests arrive, from
  whomever and in any order, with any storage answers, each session only ever moves along
  the machine's steps; in particular a completed session is never touched again.
\<close>

theorem upload_runs_refine_lifecycle:
  "life_step\<^sup>*\<^sup>* (session_life (w_db w) i) (session_life (w_db (fold (exec_upload env cfg api) ops w)) i) \<and>
   (session_life (w_db w) i = Some SES_COMPLETED \<longrightarrow>
    session_life (w_db (fold (exec_upload env cfg api) ops w)) i = Some SES_COMPLETED)"
proof
  show run: "life_step\<^sup>*\<^sup>* (session_life (w_db w) i) (session_life (w_db (fold (exec_upload env cfg api) ops w)) i)"
  proof (induction ops arbitrary: w)
    case (Cons op ops)
    have "life_step\<^sup>*\<^sup>* (session_life (w_db w) i) (session_life (w_db (exec_upload env cfg api op w)) i)"
      using exec_upload_life [of env cfg api op w i] by auto
    also have "life_step\<^sup>*\<^sup>* \<dots> (session_life (w_db (fold (exec_upload env cfg api) (op # ops) w)) i)"
      using Cons [of "exec_upload env cfg api op w"] by simp
    finally show ?case .
  qed simp
  have "life_step\<^sup>*\<^sup>* x y \<Longrightarrow> x = Some SES_COMPLETED \<Longrightarrow> y = Some SES_COMPLETED" for x y
    by (induction rule: rtranclp_induct) (auto elim: life_step_completedE)
  then show "session_life (w_db w) i = Some SES_COMPLETED \<longrightarrow>
      session_life (w_db (fold (exec_upload env cfg api) ops w)) i = Some SES_COMPLETED"
    using run by blast
qed

section \<open>Refusals\<close>

text \<open>
  C10. A rejected upload (whatever the reason: size, type, digest, either quota) costs its
  owner nothing and is closed: the session is aborted, one REJECTED row is appended for the
  audit and no other row changes, no scope's totals move and no filing is made. The removal
  of the staged bytes is asked of the storage, exactly once, with all bytes still as they
  were: they are gone when it succeeds, and since its failure is swallowed they may stay when
  it does not. Other locations keep their bytes either way.
\<close>

theorem rejected_upload_effect:
  assumes laws: "storage_laws api view"
    and rej: "complete_upload env cfg api w p i req now = (Inl (Http 422 (DUploadRejected reason m)), w')"
  shows "\<exists>sess row s'. tbl_get us_id (db_sessions (w_db w)) i = Some sess \<and>
    session_life (w_db w') i = Some SES_ABORTED \<and> (\<forall>j. j = i \<or> session_life (w_db w') j = session_life (w_db w) j) \<and>
    db_objects (w_db w') = db_objects (w_db w) @ [row] \<and> mo_id row = i \<and> mo_status row = OBJ_REJECTED \<and>
    balance (db_usage (w_db w')) = balance (db_usage (w_db w)) \<and> db_links (w_db w') = db_links (w_db w) \<and>
    view s' = view (w_sto w) \<and> w_sto w' = snd (api_remove api s' (us_storage_bucket sess) (us_object_key sess)) \<and>
    (fst (api_remove api s' (us_storage_bucket sess) (us_object_key sess)) \<longrightarrow>
       view (w_sto w') (us_storage_bucket sess, us_object_key sess) = None) \<and>
    (\<forall>l. l \<noteq> (us_storage_bucket sess, us_object_key sess) \<longrightarrow> view (w_sto w') l = view (w_sto w) l)"
  using rej
proof (cases rule: complete_upload_cases)
  case (rejected m' reason' sess stat s' usage')
  let ?b = "us_storage_bucket sess" and ?k = "us_object_key sess"
  have load: "tbl_get us_id (db_sessions (w_db w)) i = Some sess" "us_id sess = i"
    using rejected(2) by (auto simp: load_owned_session_Inr dest: tbl_get_key)
  have same: "view s' = view (w_sto w)"
    using rejected(9) storage_set_content_type_view [OF laws] by auto
  have "view (w_sto w') (?b, ?k) = None" if "fst (api_remove api s' ?b ?k)"
    using that storage_remove_law [OF laws] rejected(7) by (cases "api_remove api s' ?b ?k") fastforce
  moreover have "view (w_sto w') l = view (w_sto w) l" if "l \<noteq> (?b, ?k)" for l
    using storage_remove_frame [OF laws that] same rejected(7) by simp
  moreover have "balance (db_usage (w_db w')) = balance (db_usage (w_db w))"
    using rejected(4) by (auto simp: rejected(6) put_session_def)
  moreover have "db_objects (w_db w') = db_objects (w_db w) @
      [object_of_session sess (us_expected_mime_type sess) stat None OBJ_REJECTED now]"
    "db_links (w_db w') = db_links (w_db w)"
    by (simp_all add: rejected(6) put_session_def)
  moreover have "session_life (w_db w') j = (if j = i then Some SES_ABORTED else session_life (w_db w) j)" for j
    by (simp add: rejected(6) session_life_put load(2))
  ultimately show ?thesis
    using load same rejected(7)
    by (intro exI [of _ sess] exI [of _ "object_of_session sess (us_expected_mime_type sess) stat None OBJ_REJECTED now"]
        exI [of _ s']) simp
qed auto

text \<open>
  The audit row is an object like any other to \<open>delete_object\<close>: deleting it debits the
  scope for bytes that were never credited, so a rejected upload, deleted, buys its owner
  quota.
\<close>

lemma reject_then_delete_frees_quota:
  assumes rej: "complete_upload env cfg api w p i req now = (Inl (Http 422 (DUploadRejected reason m)), w1)"
    and del: "delete_object cfg api w1 p i fresh now' = (res, w2)"
  shows "\<exists>sess (stat :: obj_stat). tbl_get us_id (db_sessions (w_db w)) i = Some sess \<and>
    balance (db_usage (w_db w2)) (us_owner_user_id sess, us_tenant_id sess) =
      (max 0 (fst (balance (db_usage (w_db w)) (us_owner_user_id sess, us_tenant_id sess)) - stat_size stat),
       max 0 (snd (balance (db_usage (w_db w)) (us_owner_user_id sess, us_tenant_id sess)) - 1))"
  using rej
proof (cases rule: complete_upload_cases)
  case (rejected m' reason' sess stat s' usage')
  let ?row = "object_of_session sess (us_expected_mime_type sess) stat None OBJ_REJECTED now"
  have sess: "tbl_get us_id (db_sessions (w_db w)) i = Some sess" "us_id sess = i"
    "p_superuser p \<or> us_owner_user_id sess = p_id p"
    using rejected(2) by (auto simp: load_owned_session_Inr dest: tbl_get_key)
  have "tbl_get mo_id (db_objects (w_db w)) i = None"
    using rejected(5) sess(2) by (auto simp: row_free_def tbl_get_None)
  then have obj: "load_object (w_db w1) p i True = Inr ?row"
    using sess by (auto simp: load_object_Inr rejected(6) put_session_def tbl_get_append)
  have "balance (db_usage (w_db w2)) (us_owner_user_id sess, us_tenant_id sess) =
      (max 0 (fst (balance usage' (us_owner_user_id sess, us_tenant_id sess)) - stat_size stat),
       max 0 (snd (balance usage' (us_owner_user_id sess, us_tenant_id sess)) - 1))"
    using obj _ del
    by (cases rule: delete_object_outcomes) (simp_all add: removed_balance rejected(6) put_session_def)
  then show ?thesis unfolding rejected(4) using sess(1) by blast
qed auto

section \<open>A concrete upload\<close>

definition demo_env :: "string option \<Rightarrow> upload_env" where
  "demo_env sniffed = \<lparr>ue_unicode = ascii_unicode, ue_sniff = (\<lambda>_. sniffed), ue_sha256 = (\<lambda>_. [])\<rparr>"

definition demo_session :: upload_session where
  "demo_session = \<lparr>us_id = 1, us_tenant_id = None, us_owner_user_id = 7, us_category = CAT_ASSET,
     us_visibility = VIS_PUBLIC, us_storage_bucket = ''public-media'', us_object_key = uuid_hex 1,
     us_original_filename = None, us_expected_mime_type = ''image/png'', us_expected_size_bytes = 3,
     us_status = SES_INITIATED, us_created_at = 0, us_expires_at = 10, us_completed_at = None,
     us_category_ids = None\<rparr>"

definition demo_upload_world :: "upload_session_status \<Rightarrow> blob \<Rightarrow> (location \<Rightarrow> blob option) world" where
  "demo_upload_world st bytes = \<lparr>w_db = empty_db\<lparr>db_sessions := [demo_session\<lparr>us_status := st\<rparr>]\<rparr>,
     w_sto = [(''public-media'', uuid_hex 1) \<mapsto> bytes], w_metrics = []\<rparr>"

theorem rejected_upload_effect_witness:
  "w_sto (snd (complete_upload (demo_env (Some ''image/png'')) (default_settings None None) (mem_api True)
       (demo_upload_world SES_INITIATED [1, 2, 3, 4]) (demo_caller 7) 1 \<lparr>uc_sha256 = None, uc_category_ids = None\<rparr> 5))
     (''public-media'', uuid_hex 1) = None"
proof -
  let ?c = "complete_upload (demo_env (Some ''image/png'')) (default_settings None None) (mem_api True)
       (demo_upload_world SES_INITIATED [1, 2, 3, 4]) (demo_caller 7) 1 \<lparr>uc_sha256 = None, uc_category_ids = None\<rparr> 5"
  have "fst ?c = Inl (Http 422 (DUploadRejected ''size_exceeded'' ''Upload rejected: size_exceeded.''))"
    by (simp add: complete_upload_def load_owned_session_def ensure_completable_def demo_upload_world_def demo_session_def
        demo_caller_def categories_in_scope_def unique_ids_def mem_api_def content_verdict_def reject_upload_def
        insert_media_object_session row_free_def empty_db_def default_settings_def max_size_for_category_def)
  then have "?c = (Inl (Http 422 (DUploadRejected ''size_exceeded'' ''Upload rejected: size_exceeded.'')), snd ?c)"
    by (simp add: prod_eq_iff)
  from rejected_upload_effect [OF mem_api_laws this] show ?thesis
    by (auto simp: demo_upload_world_def demo_session_def mem_api_def)
qed

theorem upload_runs_refine_lifecycle_witness:
  "session_life (w_db (fold (exec_upload (demo_env None) (default_settings None None) (mem_api True))
      [Abort (demo_caller 7) 1, Complete (demo_caller 7) 1 \<lparr>uc_sha256 = None, uc_category_ids = None\<rparr> 5]
      (demo_upload_world SES_COMPLETED []))) 1 = Some SES_COMPLETED"
  by (rule upload_runs_refine_lifecycle [THEN conjunct2, rule_format])
    (simp add: session_life_def demo_upload_world_def demo_session_def)

theorem completion_exact_witness:
  "\<exists>public w'. complete_upload (demo_env (Some ''image/png'')) (default_settings (Some 3) None) (mem_api True)
     (demo_upload_world SES_INITIATED [1, 2, 3]) (demo_caller 7) 1 \<lparr>uc_sha256 = None, uc_category_ids = None\<rparr> 5 = (Inr public, w')"
proof -
  have "completable (demo_env (Some ''image/png'')) (default_settings (Some 3) None) (mem_api True)
     (demo_upload_world SES_INITIATED [1, 2, 3]) (demo_caller 7) 1 \<lparr>uc_sha256 = None, uc_category_ids = None\<rparr> 5
     (demo_session\<lparr>us_status := SES_INITIATED\<rparr>) [] \<lparr>stat_size = 3, stat_etag = None\<rparr>"
    by (simp add: completable_def demo_upload_world_def demo_session_def demo_caller_def demo_env_def filing_of_def
        categories_in_scope_def unique_ids_def content_as_declared_def mem_api_def default_settings_def empty_db_def
        row_free_def fits_quota_def within_quota_def quotas_of_def balance_def effective_quota_bytes_def
        effective_quota_objects_def max_size_for_category_def mime_consistent_def ALLOWED_DECLARED_MIME_def)
  then show ?thesis unfolding completion_exact by blast
qed

end
