(* ===== verification/Shares.thy ===== *)
theory Shares
  imports Objects
begin

text \<open>
  \<open>controllers/shares.py\<close>: signed share links. HMAC-SHA256 under the service's key and
  the UUID parser are parameters (\<open>share_env\<close>); base64 is defined here. The conditional
  UPDATE of \<open>_consume_use\<close> is one atomic step of the table, so concurrent resolves are
  interleavings of such steps: the relation \<open>share_step\<close>.
\<close>

section \<open>Tokens\<close>

record share_env =
  se_mac :: "blob \<Rightarrow> blob"               \<comment> \<open>HMAC-SHA256 under \<open>MEDIA_SHARE_SIGNING_SECRET\<close>\<close>
  se_uuid :: "ustr \<Rightarrow> uuid option"       \<comment> \<open>\<open>uuid.UUID(hex=_)\<close>, \<open>None\<close>: ValueError\<close>

text \<open>The URL-safe base64 alphabet and \<open>urlsafe_b64encode(raw).rstrip("=")\<close>.\<close>

definition b64_char :: "nat \<Rightarrow> nat" where
  "b64_char n = (if n < 26 then 65 + n else if n < 52 then 71 + n else if n < 62 then n - 4
     else if n = 62 then 45 else 95)"

fun b64 :: "blob \<Rightarrow> ustr" where
  "b64 [] = []"
| "b64 [a] = [b64_char (a div 4), b64_char ((a mod 4) * 16)]"
| "b64 [a, b] = [b64_char (a div 4), b64_char ((a mod 4) * 16 + b div 16), b64_char ((b mod 16) * 4)]"
| "b64 (a # b # c # r) = b64_char (a div 4) # b64_char ((a mod 4) * 16 + b div 16) #
     b64_char ((b mod 16) * 4 + c div 64) # b64_char (c mod 64) # b64 r"

definition sign :: "share_env \<Rightarrow> uuid \<Rightarrow> ustr" where
  "sign env token_id = uuid_hex token_id @ 46 # b64 (se_mac env (uuid_hex token_id))"

definition invalid_token :: err where
  "invalid_token = Http 404 (DText ''Share link not found.'')"

text \<open>
  \<open>secrets.compare_digest\<close> raises \<open>TypeError\<close> on a non-ASCII string; the signature is
  the caller's text.
\<close>

definition verify :: "share_env \<Rightarrow> ustr \<Rightarrow> uuid result" where
  "verify env token =
     (case split_on 46 token of
        [raw_id, signature] \<Rightarrow>
          (case se_uuid env raw_id of
             None \<Rightarrow> Inl invalid_token
           | Some token_id \<Rightarrow>
               if list_ex (\<lambda>c. c \<ge> 128) signature then Inl (Raised ''TypeError'')
               else if signature \<noteq> b64 (se_mac env (uuid_hex token_id)) then Inl invalid_token
               else Inr token_id)
      | _ \<Rightarrow> Inl invalid_token)"

section \<open>Handlers\<close>

record share_token_public =
  sp_share :: share_token
  sp_token :: ustr

definition to_public :: "share_env \<Rightarrow> share_token \<Rightarrow> share_token_public" where
  "to_public env share = \<lparr>sp_share = share, sp_token = sign env (sh_id share)\<rparr>"

record share_token_create =
  sc_expires_in :: "int option"
  sc_max_uses :: "int option"

definition share_create_valid :: "share_token_create \<Rightarrow> bool" where
  "share_create_valid body \<longleftrightarrow> (case sc_expires_in body of None \<Rightarrow> True | Some n \<Rightarrow> 1 \<le> n) \<and>
     (case sc_max_uses body of None \<Rightarrow> True | Some n \<Rightarrow> 1 \<le> n)"

definition create_share ::
  "share_env \<Rightarrow> settings \<Rightarrow> 's world \<Rightarrow> principal \<Rightarrow> uuid \<Rightarrow> share_token_create \<Rightarrow> uuid \<Rightarrow> datetime \<Rightarrow>
   share_token_public result \<times> 's world" where
  "create_share env cfg w p object_id body fresh now =
     (case load_object (w_db w) p object_id False of
        Inl e \<Rightarrow> (Inl e, w)
      | Inr obj \<Rightarrow>
          (let max_expires = MEDIA_SHARE_MAX_EXPIRES_SECONDS cfg
           in if (case sc_expires_in body of None \<Rightarrow> False | Some n \<Rightarrow> n > max_expires)
              then (Inl (Http 422 (DTextU (u ''expires_in must not exceed '' @ str_int max_expires @ u '' seconds.''))), w)
              else (let expires_in = (case sc_expires_in body of
                          None \<Rightarrow> MEDIA_SHARE_DEFAULT_EXPIRES_SECONDS cfg
                        | Some n \<Rightarrow> if n = 0 then MEDIA_SHARE_DEFAULT_EXPIRES_SECONDS cfg else n);
                        share = \<lparr>sh_id = fresh, sh_media_object_id = mo_id obj, sh_owner_user_id = mo_owner_user_id obj,
                          sh_tenant_id = mo_tenant_id obj, sh_expires_at = now + seconds expires_in,
                          sh_max_uses = sc_max_uses body, sh_uses = 0, sh_revoked = False, sh_created_at = now\<rparr>
                    in case tbl_insert sh_id (db_shares (w_db w)) share of
                         None \<Rightarrow> (Inl (Raised ''IntegrityError''), w)
                       | Some rows \<Rightarrow> (Inr (to_public env share), w\<lparr>w_db := (w_db w)\<lparr>db_shares := rows\<rparr>\<rparr>))))"

definition list_shares ::
  "share_env \<Rightarrow> 's world \<Rightarrow> principal \<Rightarrow> uuid \<Rightarrow> (share_token_public list \<times> nat) result" where
  "list_shares env w p object_id =
     (case load_object (w_db w) p object_id False of
        Inl e \<Rightarrow> Inl e
      | Inr _ \<Rightarrow>
          (let rows = sort_key sh_created_at (filter (\<lambda>s. sh_media_object_id s = object_id) (db_shares (w_db w)))
           in Inr (map (to_public env) rows, length rows)))"

definition load_owned_share :: "database \<Rightarrow> principal \<Rightarrow> uuid \<Rightarrow> share_token result" where
  "load_owned_share db p token_id =
     (case tbl_get sh_id (db_shares db) token_id of
        None \<Rightarrow> Inl invalid_token
      | Some share \<Rightarrow>
          if \<not> p_superuser p \<and> sh_owner_user_id share \<noteq> p_id p
          then Inl (Http 403 (DText ''Not enough permissions.'')) else Inr share)"

definition revoke_share :: "database \<Rightarrow> principal \<Rightarrow> uuid \<Rightarrow> unit result \<times> database" where
  "revoke_share db p token_id =
     (case load_owned_share db p token_id of
        Inl e \<Rightarrow> (Inl e, db)
      | Inr share \<Rightarrow>
          if sh_revoked share then (Inr (), db)
          else (Inr (), db\<lparr>db_shares := tbl_put sh_id (db_shares db) (share\<lparr>sh_revoked := True\<rparr>)\<rparr>))"

definition rejected_share :: "string \<Rightarrow> err" where
  "rejected_share reason = Http 403 (DText reason)"

definition load_active_share ::
  "share_env \<Rightarrow> 's world \<Rightarrow> ustr \<Rightarrow> datetime \<Rightarrow> share_token result \<times> 's world" where
  "load_active_share env w token now =
     (case verify env token of
        Inl (Http st d) \<Rightarrow> (Inl (Http st d), tick (M_share_resolve ''invalid_token'') w)
      | Inl e \<Rightarrow> (Inl e, w)
      | Inr token_id \<Rightarrow>
          (case tbl_get sh_id (db_shares (w_db w)) token_id of
             None \<Rightarrow> (Inl invalid_token, tick (M_share_resolve ''invalid_token'') w)
           | Some share \<Rightarrow>
               if sh_revoked share
               then (Inl (rejected_share ''Share link has been revoked.''), tick (M_share_resolve ''expired_or_revoked'') w)
               else if sh_expires_at share \<le> now
               then (Inl (rejected_share ''Share link has expired.''), tick (M_share_resolve ''expired_or_revoked'') w)
               else if (case sh_max_uses share of None \<Rightarrow> False | Some m \<Rightarrow> sh_uses share \<ge> m)
               then (Inl (rejected_share ''Share link has reached its usage limit.''),
                     tick (M_share_resolve ''max_uses_exhausted'') w)
               else (Inr share, w)))"

text \<open>The WHERE clause of the conditional UPDATE, and the UPDATE.\<close>

definition consumable :: "share_token \<Rightarrow> datetime \<Rightarrow> bool" where
  "consumable share now \<longleftrightarrow> \<not> sh_revoked share \<and> sh_expires_at share > now \<and>
     (case sh_max_uses share of None \<Rightarrow> True | Some m \<Rightarrow> sh_uses share < m)"

definition consume_use :: "database \<Rightarrow> uuid \<Rightarrow> datetime \<Rightarrow> bool \<times> database" where
  "consume_use db token_id now =
     (case tbl_get sh_id (db_shares db) token_id of
        None \<Rightarrow> (False, db)
      | Some share \<Rightarrow>
          if consumable share now
          then (True, db\<lparr>db_shares := tbl_put sh_id (db_shares db) (share\<lparr>sh_uses := sh_uses share + 1\<rparr>)\<rparr>)
          else (False, db))"

text \<open>\<open>now\<close>, \<open>now'\<close>, \<open>now''\<close>: the clock at the read check, at the update, at the answer.\<close>

definition resolve_share ::
  "share_env \<Rightarrow> settings \<Rightarrow> 's storage_api \<Rightarrow> 's world \<Rightarrow> ustr \<Rightarrow> datetime \<Rightarrow> datetime \<Rightarrow> datetime \<Rightarrow>
   (ustr \<times> datetime) result \<times> 's world" where
  "resolve_share env cfg api w token now now' now'' =
     (case load_active_share env w token now of
        (Inl e, w1) \<Rightarrow> (Inl e, w1)
      | (Inr share, w1) \<Rightarrow>
          (case tbl_get mo_id (db_objects (w_db w1)) (sh_media_object_id share) of
             None \<Rightarrow> (Inl invalid_token, tick (M_share_resolve ''invalid_token'') w1)
           | Some obj \<Rightarrow>
               if mo_deleted_at obj \<noteq> None
               then (Inl invalid_token, tick (M_share_resolve ''invalid_token'') w1)
               else if mo_scan_status obj \<noteq> SCAN_CLEAN
               then (Inl (Http 409 (DText ''Object is not available for download until it passes scanning.'')),
                     tick (M_share_resolve ''scan_pending'') w1)
               else (case consume_use (w_db w1) (sh_id share) now' of
                       (False, db') \<Rightarrow> (Inl (rejected_share ''Share link has reached its usage limit.''),
                          tick (M_share_resolve ''max_uses_exhausted'') (w1\<lparr>w_db := db'\<rparr>))
                     | (True, db') \<Rightarrow>
                         (let w2 = w1\<lparr>w_db := db'\<rparr>; expires = S3_PRESIGNED_URL_EXPIRE_SECONDS cfg
                          in case create_download_url api (mo_storage_bucket obj) (mo_object_key obj) expires
                                    (mo_original_filename obj) of
                               Inl e \<Rightarrow> (Inl e, w2)
                             | Inr url \<Rightarrow> (Inr (url, now'' + seconds expires), tick (M_share_resolve ''success'') w2)))))"

section \<open>What a token proves\<close>

lemma b64_char_ascii: "b64_char n \<noteq> 46 \<and> b64_char n < 128"
  by (auto simp: b64_char_def)

lemma b64_ascii: "c \<in> set (b64 raw) \<Longrightarrow> c \<noteq> 46 \<and> c < 128"
  by (induction raw rule: b64.induct) (auto simp: b64_char_ascii)

lemma dot_notin_hex: "46 \<notin> set (uuid_hex i)"
  using uuid_hex_range [of 46 i] by auto

lemma split_dot:
  "split_on 46 token = [a, b] \<longleftrightarrow> token = a @ 46 # b \<and> 46 \<notin> set a \<and> 46 \<notin> set b"
proof
  assume s: "split_on 46 token = [a, b]"
  have "a \<in> set (split_on 46 token)" "b \<in> set (split_on 46 token)" by (simp_all add: s)
  from split_no_sep [OF this(1)] split_no_sep [OF this(2)] join_split [of 46 token]
  show "token = a @ 46 # b \<and> 46 \<notin> set a \<and> 46 \<notin> set b" by (simp add: s)
qed (auto simp: split_on_append split_on_single)

lemma verify_Inr:
  "verify env token = Inr i \<longleftrightarrow>
     (\<exists>raw. token = raw @ 46 # b64 (se_mac env (uuid_hex i)) \<and> 46 \<notin> set raw \<and> se_uuid env raw = Some i)"
proof
  assume v: "verify env token = Inr i"
  then obtain raw sg where s: "split_on 46 token = [raw, sg]"
    by (auto simp: verify_def split: list.splits)
  with v have "se_uuid env raw = Some i" "sg = b64 (se_mac env (uuid_hex i))"
    by (auto simp: verify_def split: option.splits if_splits)
  with s show "\<exists>raw. token = raw @ 46 # b64 (se_mac env (uuid_hex i)) \<and> 46 \<notin> set raw \<and> se_uuid env raw = Some i"
    unfolding split_dot by blast
next
  assume "\<exists>raw. token = raw @ 46 # b64 (se_mac env (uuid_hex i)) \<and> 46 \<notin> set raw \<and> se_uuid env raw = Some i"
  then obtain raw where r: "token = raw @ 46 # b64 (se_mac env (uuid_hex i))" "46 \<notin> set raw" "se_uuid env raw = Some i"
    by blast
  have "46 \<notin> set (b64 (se_mac env (uuid_hex i)))" using b64_ascii by blast
  with r have "split_on 46 token = [raw, b64 (se_mac env (uuid_hex i))]" by (simp add: split_dot)
  moreover have "\<not> list_ex (\<lambda>c. c \<ge> 128) (b64 (se_mac env (uuid_hex i)))"
    using b64_ascii by (fastforce simp: list_ex_iff)
  ultimately show "verify env token = Inr i" using r(3) by (simp add: verify_def)
qed

text \<open>
  C37. A token opens a share exactly when it carries the MAC of that share's id: the token
  minted for an id verifies to that id, and whatever text verifies to an id is some
  rendering of it followed by the very signature the service computes for it, so nobody
  without the key can present one.
\<close>

theorem token_authenticates_share:
  assumes "\<And>i. se_uuid env (uuid_hex i) = Some i"
  shows "verify env (sign env i) = Inr i \<and>
    (verify env token = Inr j \<longleftrightarrow>
      (\<exists>raw. token = raw @ 46 # b64 (se_mac env (uuid_hex j)) \<and> 46 \<notin> set raw \<and> se_uuid env raw = Some j))"
  unfolding verify_Inr using assms dot_notin_hex by (auto simp: sign_def)

definition demo_share_env :: share_env where
  "demo_share_env = \<lparr>se_mac = (\<lambda>m. [length m]), se_uuid = (\<lambda>s. if length s = 32 then Some (uuid_of_hex s) else None)\<rparr>"

theorem token_authenticates_share_witness: "verify demo_share_env (sign demo_share_env 9) = Inr 9"
  by (rule token_authenticates_share [THEN conjunct1]) (simp add: demo_share_env_def uuid_of_hex)

text \<open>
  The uniform 404 has a gap: a signature with a non-ASCII character is not refused but
  raises, so the endpoint answers 500 for it.
\<close>

lemma non_ascii_signature_raises:
  "se_uuid env (uuid_hex i) = Some i \<Longrightarrow>
   resolve_share env cfg api w (uuid_hex i @ [46, 233]) now now' now'' = (Inl (Raised ''TypeError''), w)"
proof -
  assume u: "se_uuid env (uuid_hex i) = Some i"
  have "split_on 46 (uuid_hex i @ [46, 233]) = [uuid_hex i, [233]]"
    unfolding split_dot using dot_notin_hex by simp
  then have "verify env (uuid_hex i @ [46, 233]) = Inl (Raised ''TypeError'')"
    by (simp add: verify_def u)
  then show ?thesis by (simp add: resolve_share_def load_active_share_def)
qed

section \<open>What a resolution proves\<close>

lemma load_active_share_Inr:
  "load_active_share env w token now = (Inr share, w') \<longleftrightarrow> w' = w \<and>
     (\<exists>i. verify env token = Inr i \<and> tbl_get sh_id (db_shares (w_db w)) i = Some share) \<and> consumable share now"
  by (auto simp: load_active_share_def consumable_def not_le
      split: sum.splits err.splits option.splits if_splits)

lemma load_active_share_db: "w_db (snd (load_active_share env w token now)) = w_db w"
  by (auto simp: load_active_share_def split: sum.split err.split option.split)

text \<open>
  C12. A share link hands out a URL only for what it was minted for and only while it is
  live: the token authenticates an existing share that is neither revoked, expired nor
  used up, at the check and again at the update; its object is not deleted and scanned
  CLEAN; the URL is a presigned GET of exactly that object's bytes; and exactly one use of
  exactly that share is recorded.
\<close>

theorem resolved_share_is_live:
  assumes "resolve_share env cfg api w token now now' now'' = (Inr (url, expires_at), w')"
  shows "\<exists>share obj. verify env token = Inr (sh_id share) \<and>
    tbl_get sh_id (db_shares (w_db w)) (sh_id share) = Some share \<and> consumable share now \<and> consumable share now' \<and>
    tbl_get mo_id (db_objects (w_db w)) (sh_media_object_id share) = Some obj \<and> mo_deleted_at obj = None \<and>
    mo_scan_status obj = SCAN_CLEAN \<and>
    create_download_url api (mo_storage_bucket obj) (mo_object_key obj) (S3_PRESIGNED_URL_EXPIRE_SECONDS cfg)
      (mo_original_filename obj) = Inr url \<and>
    w_db w' = (w_db w)\<lparr>db_shares := tbl_put sh_id (db_shares (w_db w)) (share\<lparr>sh_uses := sh_uses share + 1\<rparr>)\<rparr>"
proof -
  obtain r w1 where l: "load_active_share env w token now = (r, w1)" by fastforce
  with assms obtain share where r: "r = Inr share" by (auto simp: resolve_share_def split: sum.splits)
  from l [unfolded r load_active_share_Inr] obtain i where i: "w1 = w" "verify env token = Inr i"
    "tbl_get sh_id (db_shares (w_db w)) i = Some share" "consumable share now" by blast
  have "sh_id share = i" using i(3) by (rule tbl_get_key)
  then show ?thesis
    using assms i
    by (auto simp: resolve_share_def l r consume_use_def Let_def intro!: exI [of _ share]
        split: option.splits if_splits sum.splits)
qed

section \<open>Concurrent use\<close>

text \<open>
  The atomic steps that touch the table of shares, with the list of granted uses.
\<close>

inductive share_step :: "share_env \<Rightarrow> settings \<Rightarrow> database \<times> uuid list \<Rightarrow> database \<times> uuid list \<Rightarrow> bool"
  for env cfg where
  granted: "consume_use db i now = (True, db') \<Longrightarrow> share_step env cfg (db, grants) (db', i # grants)"
| refused: "consume_use db i now = (False, db') \<Longrightarrow> share_step env cfg (db, grants) (db', grants)"
| revoked: "revoke_share db p i = (r, db') \<Longrightarrow> share_step env cfg (db, grants) (db', grants)"
| created: "share_create_valid body \<Longrightarrow> create_share env cfg \<lparr>w_db = db, w_sto = (), w_metrics = ms\<rparr> p obj body fresh now = (r, w') \<Longrightarrow>
    share_step env cfg (db, grants) (w_db w', grants)"
| elsewhere: "db_shares db' = db_shares db \<Longrightarrow> share_step env cfg (db, grants) (db', grants)"

text \<open>Every resolution, whatever it answers, is one such step.\<close>

lemma resolve_share_step:
  assumes "resolve_share env cfg api w token now now' now'' = (res, w')"
  obtains grants' where "share_step env cfg (w_db w, grants) (w_db w', grants')"
    "(\<exists>x. res = Inr x) \<Longrightarrow> \<exists>i. verify env token = Inr i \<and> grants' = i # grants"
proof -
  obtain r w1 where l: "load_active_share env w token now = (r, w1)" by fastforce
  have db: "w_db w1 = w_db w" using load_active_share_db [of env w token now] by (simp add: l)
  show thesis
  proof (cases "w_db w' = w_db w \<and> (\<forall>x. res \<noteq> Inr x)")
    case True
    then show ?thesis using that [of grants] share_step.elsewhere [of "w_db w'" "w_db w"] by auto
  next
    case False
    with assms obtain share obj where s: "r = Inr share" "tbl_get mo_id (db_objects (w_db w)) (sh_media_object_id share) = Some obj"
        "mo_deleted_at obj = None" "mo_scan_status obj = SCAN_CLEAN"
      using db by (auto simp: resolve_share_def l split: sum.splits option.splits if_splits)
    from l [unfolded s(1) load_active_share_Inr] have v: "verify env token = Inr (sh_id share)"
      by (auto dest: tbl_get_key)
    obtain ok db' where c: "consume_use (w_db w) (sh_id share) now' = (ok, db')" by fastforce
    show ?thesis
    proof (cases ok)
      case ok: True
      have "w_db w' = db'"
        using assms s c ok db by (auto simp: resolve_share_def l Let_def split: sum.splits)
      then show ?thesis using that [of "sh_id share # grants"] share_step.granted c ok v by auto
    next
      case False
      have "w_db w' = db'" "\<forall>x. res \<noteq> Inr x"
        using assms s c False db by (auto simp: resolve_share_def l)
      then show ?thesis using that [of grants] share_step.refused c False by auto
    qed
  qed
qed

definition uses_counted :: "database \<times> uuid list \<Rightarrow> bool" where
  "uses_counted s \<longleftrightarrow> (case s of (db, grants) \<Rightarrow>
     (\<forall>i. tbl_get sh_id (db_shares db) i = None \<longrightarrow> i \<notin> set grants) \<and>
     (\<forall>i share. tbl_get sh_id (db_shares db) i = Some share \<longrightarrow> sh_uses share = int (count_list grants i) \<and>
        (\<forall>m. sh_max_uses share = Some m \<longrightarrow> int (count_list grants i) \<le> m)))"

lemma share_step_counted: "share_step env cfg s t \<Longrightarrow> uses_counted s \<Longrightarrow> uses_counted t"
proof (induction rule: share_step.induct)
  case (granted db i now db' grants)
  then obtain share where s: "tbl_get sh_id (db_shares db) i = Some share" "consumable share now"
    and db': "db_shares db' = tbl_put sh_id (db_shares db) (share\<lparr>sh_uses := sh_uses share + 1\<rparr>)"
    by (auto simp: consume_use_def split: option.splits if_splits)
  have "sh_id share = i" using s(1) by (rule tbl_get_key)
  then show ?case
    using granted.prems s by (auto simp: uses_counted_def db' table_simps consumable_def)
next
  case (refused db i now db' grants)
  then have "db' = db" by (auto simp: consume_use_def split: option.splits if_splits)
  then show ?case using refused.prems by simp
next
  case (revoked db p i r db' grants)
  then have "db' = db \<or> (\<exists>share. tbl_get sh_id (db_shares db) i = Some share \<and> sh_id share = i \<and>
      db_shares db' = tbl_put sh_id (db_shares db) (share\<lparr>sh_revoked := True\<rparr>))"
    by (auto simp: revoke_share_def load_owned_share_def split: option.splits if_splits dest: tbl_get_key)
  then show ?case
    using revoked.prems by (auto simp: uses_counted_def table_simps split: if_splits)
next
  case (created body db ms p obj fresh now r w' grants)
  then have "db_shares (w_db w') = db_shares db \<or> (\<exists>share. tbl_get sh_id (db_shares db) (sh_id share) = None \<and>
      sh_uses share = 0 \<and> sh_max_uses share = sc_max_uses body \<and> db_shares (w_db w') = db_shares db @ [share])"
    by (auto simp: create_share_def Let_def tbl_insert_def split: sum.splits option.splits if_splits)
  then show ?case
    using created by (auto simp: uses_counted_def tbl_get_append share_create_valid_def count_list_0_iff
        split: option.splits if_splits)
next
  case (elsewhere db' db grants)
  then show ?case by (simp add: uses_counted_def)
qed

text \<open>
  C11. Under any interleaving of resolutions, revocations, creations and other work, a
  share's counter is exactly the number of uses granted, and a bounded link is never
  granted more uses than its \<open>max_uses\<close>: two racing callers cannot both win the last one.
\<close>

theorem share_uses_never_overshoot:
  assumes "(share_step env cfg)\<^sup>*\<^sup>* (db0, []) (db, grants)" and "db_shares db0 = []"
    and "tbl_get sh_id (db_shares db) i = Some share"
  shows "sh_uses share = int (count_list grants i) \<and>
    (case sh_max_uses share of None \<Rightarrow> True | Some m \<Rightarrow> int (count_list grants i) \<le> m)"
proof -
  have "uses_counted (db0, [])" using assms(2) by (simp add: uses_counted_def)
  with assms(1) have "uses_counted (db, grants)"
    by (induction rule: rtranclp_induct) (auto intro: share_step_counted)
  with assms(3) show ?thesis by (auto simp: uses_counted_def split: option.split)
qed

section \<open>A concrete link\<close>

definition demo_shared :: database where
  "demo_shared = empty_db\<lparr>db_objects := [demo_row 1 7 VIS_PRIVATE 3]\<rparr>"

definition demo_share :: share_token where
  "demo_share = \<lparr>sh_id = 3, sh_media_object_id = 1, sh_owner_user_id = 7, sh_tenant_id = None,
     sh_expires_at = seconds 60, sh_max_uses = Some 1, sh_uses = 0, sh_revoked = False, sh_created_at = 0\<rparr>"

lemma demo_share_created:
  "share_step demo_share_env (default_settings None None) (demo_shared, []) (demo_shared\<lparr>db_shares := [demo_share]\<rparr>, [])"
proof -
  have "create_share demo_share_env (default_settings None None) \<lparr>w_db = demo_shared, w_sto = (), w_metrics = []\<rparr>
      (demo_caller 7) 1 \<lparr>sc_expires_in = Some 60, sc_max_uses = Some 1\<rparr> 3 0 =
    (Inr (to_public demo_share_env demo_share), \<lparr>w_db = demo_shared\<lparr>db_shares := [demo_share]\<rparr>, w_sto = (), w_metrics = []\<rparr>)"
    by (simp add: create_share_def load_object_def fetch_object_def demo_shared_def demo_row_def demo_caller_def
        empty_db_def default_settings_def tbl_insert_def demo_share_def Let_def)
  from share_step.created [OF _ this] show ?thesis by (simp add: share_create_valid_def)
qed

lemma demo_share_used:
  "share_step demo_share_env (default_settings None None) (demo_shared\<lparr>db_shares := [demo_share]\<rparr>, [])
     (demo_shared\<lparr>db_shares := [demo_share\<lparr>sh_uses := 1\<rparr>]\<rparr>, [3])"
  by (rule share_step.granted [of _ _ 5]) (simp add: consume_use_def demo_share_def consumable_def seconds_def)

theorem share_uses_never_overshoot_witness:
  "(share_step demo_share_env (default_settings None None))\<^sup>*\<^sup>* (demo_shared, [])
     (demo_shared\<lparr>db_shares := [demo_share\<lparr>sh_uses := 1\<rparr>]\<rparr>, [3]) \<and> int (count_list [3] (3 :: uuid)) \<le> 1"
proof -
  have run: "(share_step demo_share_env (default_settings None None))\<^sup>*\<^sup>* (demo_shared, [])
     (demo_shared\<lparr>db_shares := [demo_share\<lparr>sh_uses := 1\<rparr>]\<rparr>, [3])"
    using demo_share_created demo_share_used by (meson converse_rtranclp_into_rtranclp r_into_rtranclp)
  have none: "db_shares demo_shared = []" by (simp add: demo_shared_def empty_db_def)
  have "tbl_get sh_id (db_shares (demo_shared\<lparr>db_shares := [demo_share\<lparr>sh_uses := 1\<rparr>]\<rparr>)) 3 = Some (demo_share\<lparr>sh_uses := 1\<rparr>)"
    by (simp add: demo_share_def)
  from share_uses_never_overshoot [OF run none this] run show ?thesis by (simp add: demo_share_def)
qed

theorem resolved_share_is_live_witness:
  "\<exists>url w'. resolve_share demo_share_env (default_settings None None) (mem_api True)
      \<lparr>w_db = demo_shared\<lparr>db_shares := [demo_share]\<rparr>, w_sto = (\<lambda>_. None), w_metrics = []\<rparr> (sign demo_share_env 3) 1 2 3 = (Inr url, w') \<and>
    w_db w' = demo_shared\<lparr>db_shares := [demo_share\<lparr>sh_uses := 1\<rparr>]\<rparr>"
proof -
  let ?w = "\<lparr>w_db = demo_shared\<lparr>db_shares := [demo_share]\<rparr>, w_sto = (\<lambda>_. None), w_metrics = []\<rparr> :: (location \<Rightarrow> blob option) world"
  have v: "verify demo_share_env (sign demo_share_env 3) = Inr 3"
    unfolding verify_Inr using dot_notin_hex by (auto simp: sign_def demo_share_env_def uuid_of_hex)
  have "\<exists>url w'. resolve_share demo_share_env (default_settings None None) (mem_api True) ?w (sign demo_share_env 3) 1 2 3 = (Inr url, w')"
    by (simp add: resolve_share_def load_active_share_def v demo_share_def demo_shared_def demo_row_def empty_db_def
        consume_use_def consumable_def seconds_def create_download_url_def Let_def)
  then obtain url t w' where r: "resolve_share demo_share_env (default_settings None None) (mem_api True) ?w (sign demo_share_env 3) 1 2 3 = (Inr (url, t), w')"
    by auto
  from resolved_share_is_live [OF r] v r show ?thesis by (auto simp: demo_share_def)
qed

end
