(* ===== verification/Variants.thy ===== *)
theory Variants
  imports Objects Presets Validation
begin

text \<open>
  \<open>controllers/variants.py\<close>: the producer side of image variants. \<open>generate\<close> gates and
  records a job, the worker's callbacks register variants and advance jobs. A commit fails
  when it would break one of the table's two unique constraints, (object, variant name)
  and (bucket, key), or reuse an id.
\<close>

section \<open>Requests\<close>

text \<open>\<open>VariantGenerateRequest\<close>: 1 to 16 names as sent, then de-duplicated in order.\<close>

definition validate_generate :: "ustr list \<Rightarrow> ustr list result" where
  "validate_generate presets =
     (if presets = [] \<or> length presets > MAX_PRESETS_PER_REQUEST
      then Inl (Http 422 (DText ''Validation error'')) else Inr (dedup presets))"

record variant_register_request =
  vr_variant_name :: ustr
  vr_storage_bucket :: string
  vr_object_key :: ustr
  vr_width :: "int option"
  vr_height :: "int option"
  vr_size_bytes :: int
  vr_format :: string

record variant_job_update =
  vu_status :: job_status
  vu_variants_created :: "int option"
  vu_error :: "ustr option"

record variant_job_payload =
  vp_job_id :: uuid
  vp_media_object_id :: uuid
  vp_source_bucket :: string
  vp_source_object_key :: ustr
  vp_specs :: "variant_spec list"

section \<open>Handlers\<close>

definition load_variant_job :: "database \<Rightarrow> uuid \<Rightarrow> uuid \<Rightarrow> variant_job result" where
  "load_variant_job db object_id job_id =
     (case tbl_get vj_id (db_variant_jobs db) job_id of
        None \<Rightarrow> Inl (Http 404 (DText ''Variant job not found.''))
      | Some job \<Rightarrow>
          if vj_media_object_id job \<noteq> object_id then Inl (Http 404 (DText ''Variant job not found.''))
          else Inr job)"

definition generate ::
  "unicode_db \<Rightarrow> database \<Rightarrow> principal \<Rightarrow> uuid \<Rightarrow> ustr list \<Rightarrow> uuid \<Rightarrow> datetime \<Rightarrow>
   (variant_job \<times> variant_job_payload) result \<times> database" where
  "generate U db p object_id presets fresh now =
     (case load_object db p object_id False of
        Inl e \<Rightarrow> (Inl e, db)
      | Inr obj \<Rightarrow>
          if mo_status obj \<noteq> OBJ_READY \<or> mo_scan_status obj \<noteq> SCAN_CLEAN
          then (Inl (Http 409 (DText ''Object must be scanned and READY before generating variants.'')), db)
          else if \<not> is_processable_image (mo_mime_type obj)
          then (Inl (Http 422 (DText ''Object is not a processable image.'')), db)
          else (case resolve_presets U db p presets obj of
                  Inl e \<Rightarrow> (Inl e, db)
                | Inr specs \<Rightarrow>
                    (let job = \<lparr>vj_id = fresh, vj_media_object_id = mo_id obj, vj_owner_user_id = mo_owner_user_id obj,
                           vj_tenant_id = mo_tenant_id obj, vj_status = JOB_QUEUED, vj_requested_presets = presets,
                           vj_variants_expected = int (length specs), vj_variants_created = 0, vj_error = None,
                           vj_created_at = now, vj_updated_at = now\<rparr>
                     in case tbl_insert vj_id (db_variant_jobs db) job of
                          None \<Rightarrow> (Inl (Raised ''IntegrityError''), db)
                        | Some rows \<Rightarrow>
                            (Inr (job, \<lparr>vp_job_id = vj_id job, vp_media_object_id = mo_id obj,
                                        vp_source_bucket = mo_storage_bucket obj, vp_source_object_key = mo_object_key obj,
                                        vp_specs = specs\<rparr>),
                             db\<lparr>db_variant_jobs := rows\<rparr>))))"

definition get_job :: "database \<Rightarrow> principal \<Rightarrow> uuid \<Rightarrow> uuid \<Rightarrow> variant_job result" where
  "get_job db p object_id job_id =
     (case load_object db p object_id False of
        Inl e \<Rightarrow> Inl e
      | Inr _ \<Rightarrow> load_variant_job db object_id job_id)"

definition list_variants :: "database \<Rightarrow> principal option \<Rightarrow> uuid \<Rightarrow> (media_variant list \<times> nat) result" where
  "list_variants db current_user object_id =
     (case load_object_for_read db current_user object_id of
        Inl e \<Rightarrow> Inl e
      | Inr _ \<Rightarrow>
          (let rows = filter (\<lambda>v. mv_media_object_id v = object_id) (db_variants db) in Inr (rows, length rows)))"

definition delete_variant :: "'s storage_api \<Rightarrow> 's world \<Rightarrow> principal \<Rightarrow> uuid \<Rightarrow> uuid \<Rightarrow> unit result \<times> 's world" where
  "delete_variant api w p object_id variant_id =
     (case load_object (w_db w) p object_id False of
        Inl e \<Rightarrow> (Inl e, w)
      | Inr _ \<Rightarrow>
          (case tbl_get mv_id (db_variants (w_db w)) variant_id of
             None \<Rightarrow> (Inl (Http 404 (DText ''Variant not found.'')), w)
           | Some variant \<Rightarrow>
               if mv_media_object_id variant \<noteq> object_id
               then (Inl (Http 404 (DText ''Variant not found.'')), w)
               else (Inr (), best_effort_remove api (mv_storage_bucket variant) (mv_object_key variant)
                       (w\<lparr>w_db := (w_db w)\<lparr>db_variants := tbl_del mv_id (db_variants (w_db w)) variant_id\<rparr>\<rparr>))))"

text \<open>The unique constraints of \<open>media_variant\<close>, as the database checks a written row.\<close>

definition variant_clash :: "media_variant list \<Rightarrow> media_variant \<Rightarrow> bool" where
  "variant_clash rows v \<longleftrightarrow> list_ex (\<lambda>x. mv_id x \<noteq> mv_id v \<and>
     ((mv_media_object_id x = mv_media_object_id v \<and> mv_variant_name x = mv_variant_name v) \<or>
      (mv_storage_bucket x = mv_storage_bucket v \<and> mv_object_key x = mv_object_key v))) rows"

definition find_variant :: "media_variant list \<Rightarrow> uuid \<Rightarrow> ustr \<Rightarrow> media_variant option" where
  "find_variant rows object_id name = find (\<lambda>v. mv_media_object_id v = object_id \<and> mv_variant_name v = name) rows"

definition variant_of :: "variant_register_request \<Rightarrow> media_variant \<Rightarrow> media_variant" where
  "variant_of req v = v\<lparr>mv_storage_bucket := vr_storage_bucket req, mv_object_key := vr_object_key req,
     mv_width := vr_width req, mv_height := vr_height req, mv_size_bytes := vr_size_bytes req,
     mv_format := vr_format req\<rparr>"

definition register_variant ::
  "database \<Rightarrow> uuid \<Rightarrow> variant_register_request \<Rightarrow> uuid \<Rightarrow> uuid \<Rightarrow> datetime \<Rightarrow> media_variant result \<times> database" where
  "register_variant db object_id req fresh event_id now =
     (case fetch_object db object_id True of
        Inl e \<Rightarrow> (Inl e, db)
      | Inr _ \<Rightarrow>
          (let existing = find_variant (db_variants db) object_id (vr_variant_name req);
               base = (case existing of
                  Some v \<Rightarrow> v
                | None \<Rightarrow> \<lparr>mv_id = fresh, mv_media_object_id = object_id, mv_variant_name = vr_variant_name req,
                    mv_storage_bucket = vr_storage_bucket req, mv_object_key = vr_object_key req, mv_width = None,
                    mv_height = None, mv_size_bytes = 0, mv_format = vr_format req, mv_created_at = now\<rparr>);
               variant = variant_of req base
           in if variant_clash (db_variants db) variant \<or>
                 (existing = None \<and> tbl_get mv_id (db_variants db) fresh \<noteq> None)
              then (Inl (Raised ''IntegrityError''), db)
              else (Inr variant,
                    record_event (db\<lparr>db_variants := tbl_put mv_id (db_variants db) variant\<rparr>) EVENT_VARIANT_READY object_id
                      [(''variant_name'', mv_variant_name variant), (''format'', u (mv_format variant))] event_id now)))"

definition update_job_status ::
  "database \<Rightarrow> uuid \<Rightarrow> variant_job_update \<Rightarrow> datetime \<Rightarrow> variant_job result \<times> database" where
  "update_job_status db job_id req now =
     (case tbl_get vj_id (db_variant_jobs db) job_id of
        None \<Rightarrow> (Inl (Http 404 (DText ''Variant job not found.'')), db)
      | Some job \<Rightarrow>
          (let row = job\<lparr>vj_status := vu_status req,
                 vj_variants_created := (case vu_variants_created req of Some n \<Rightarrow> n | None \<Rightarrow> vj_variants_created job),
                 vj_error := (case vu_error req of Some x \<Rightarrow> Some x | None \<Rightarrow> vj_error job), vj_updated_at := now\<rparr>
           in (Inr row, db\<lparr>db_variant_jobs := tbl_put vj_id (db_variant_jobs db) row\<rparr>)))"

section \<open>Generation is gated\<close>

text \<open>What a job needs: an owned, live, READY and CLEAN image and presets that resolve.\<close>

definition can_generate :: "unicode_db \<Rightarrow> database \<Rightarrow> principal \<Rightarrow> uuid \<Rightarrow> ustr list \<Rightarrow> media_object \<Rightarrow> variant_spec list \<Rightarrow> bool" where
  "can_generate U db p object_id presets obj specs \<longleftrightarrow>
     tbl_get mo_id (db_objects db) object_id = Some obj \<and> mo_deleted_at obj = None \<and>
     (p_superuser p \<or> mo_owner_user_id obj = p_id p) \<and>
     mo_status obj = OBJ_READY \<and> mo_scan_status obj = SCAN_CLEAN \<and> is_processable_image (mo_mime_type obj) \<and>
     resolve_presets U db p presets obj = Inr specs"

lemma generate_gate:
  "generate U db p object_id presets fresh now = (Inr (job, payload), db') \<longleftrightarrow>
   (\<exists>obj specs. can_generate U db p object_id presets obj specs \<and> tbl_get vj_id (db_variant_jobs db) fresh = None \<and>
      job = \<lparr>vj_id = fresh, vj_media_object_id = mo_id obj, vj_owner_user_id = mo_owner_user_id obj,
        vj_tenant_id = mo_tenant_id obj, vj_status = JOB_QUEUED, vj_requested_presets = presets,
        vj_variants_expected = int (length specs), vj_variants_created = 0, vj_error = None,
        vj_created_at = now, vj_updated_at = now\<rparr> \<and>
      payload = \<lparr>vp_job_id = fresh, vp_media_object_id = mo_id obj, vp_source_bucket = mo_storage_bucket obj,
        vp_source_object_key = mo_object_key obj, vp_specs = specs\<rparr> \<and>
      db' = db\<lparr>db_variant_jobs := db_variant_jobs db @ [job]\<rparr>)"
proof (cases "load_object db p object_id False")
  case (Inl e)
  then have "\<not> can_generate U db p object_id presets obj specs" for obj specs
    using load_object_Inr [of db p object_id False obj] by (auto simp: can_generate_def)
  with Inl show ?thesis by (simp add: generate_def)
next
  case (Inr obj)
  then have here: "can_generate U db p object_id presets obj' specs \<longleftrightarrow> obj' = obj \<and> mo_status obj = OBJ_READY \<and>
      mo_scan_status obj = SCAN_CLEAN \<and> is_processable_image (mo_mime_type obj) \<and>
      resolve_presets U db p presets obj = Inr specs" for obj' specs
    by (auto simp: can_generate_def load_object_Inr)
  show ?thesis
    unfolding here by (auto simp: generate_def Inr Let_def tbl_insert_def split: sum.splits if_splits)
qed

text \<open>
  C13. A job is queued exactly for an owned, live, READY and scanned-CLEAN image whose
  presets resolve, under a fresh job id. It then has never more than 32 outputs, the summed
  area bound of the requested presets stays within the budget, the payload names that
  object's bytes and the resolved units, the job expects that many, and the one appended job
  row is the whole change of the database. In every other case, whatever the refusal,
  nothing is written.
\<close>

theorem generated_job_gated:
  "case generate U db p object_id presets fresh now of
     (Inl _, db') \<Rightarrow> db' = db \<and>
       (\<nexists>obj specs. can_generate U db p object_id presets obj specs \<and> tbl_get vj_id (db_variant_jobs db) fresh = None)
   | (Inr (job, payload), db') \<Rightarrow> \<exists>obj specs catalog. can_generate U db p object_id presets obj specs \<and>
       length specs \<le> MAX_OUTPUTS_PER_JOB \<and>
       merged_presets db p = Inr catalog \<and> job_cost catalog presets \<le> MAX_JOB_PIXEL_AREA \<and>
       vp_specs payload = specs \<and> vp_source_bucket payload = mo_storage_bucket obj \<and>
       vp_source_object_key payload = mo_object_key obj \<and> vp_job_id payload = fresh \<and> vj_id job = fresh \<and>
       vj_media_object_id job = mo_id obj \<and> vj_owner_user_id job = mo_owner_user_id obj \<and>
       vj_status job = JOB_QUEUED \<and> vj_variants_expected job = int (length specs) \<and>
       tbl_get vj_id (db_variant_jobs db) fresh = None \<and> db' = db\<lparr>db_variant_jobs := db_variant_jobs db @ [job]\<rparr>"
proof (cases "generate U db p object_id presets fresh now")
  case g: (Pair res db')
  show ?thesis
  proof (cases res)
    case (Inl e)
    then have "db' = db"
      using g by (auto simp: generate_def Let_def split: sum.splits if_splits option.splits)
    moreover have "\<nexists>job payload db'. generate U db p object_id presets fresh now = (Inr (job, payload), db')"
      using g Inl by simp
    ultimately show ?thesis using Inl unfolding generate_gate by (simp add: g)
  next
    case (Inr jp)
    obtain job payload where jp: "jp = (job, payload)" by fastforce
    from g obtain obj specs where gate: "can_generate U db p object_id presets obj specs"
      and rest: "tbl_get vj_id (db_variant_jobs db) fresh = None" "db' = db\<lparr>db_variant_jobs := db_variant_jobs db @ [job]\<rparr>"
        "vp_specs payload = specs \<and> vp_source_bucket payload = mo_storage_bucket obj \<and>
         vp_source_object_key payload = mo_object_key obj \<and> vp_job_id payload = fresh \<and> vj_id job = fresh \<and>
         vj_media_object_id job = mo_id obj \<and> vj_owner_user_id job = mo_owner_user_id obj \<and>
         vj_status job = JOB_QUEUED \<and> vj_variants_expected job = int (length specs)"
      unfolding Inr jp generate_gate by auto
    have "resolve_presets U db p presets obj = Inr specs" using gate by (simp add: can_generate_def)
    from resolve_presets_Inr [OF this] gate rest show ?thesis by (auto simp: g Inr jp)
  qed
qed

section \<open>The table of variants stays well formed\<close>

definition variants_wf :: "database \<Rightarrow> bool" where
  "variants_wf db \<longleftrightarrow> distinct (map mv_id (db_variants db)) \<and>
     distinct (map (\<lambda>v. (mv_media_object_id v, mv_variant_name v)) (db_variants db)) \<and>
     distinct (map (\<lambda>v. (mv_storage_bucket v, mv_object_key v)) (db_variants db))"

lemma variants_wf_put:
  assumes "variants_wf db" and "\<not> variant_clash (db_variants db) v"
  shows "variants_wf (db\<lparr>db_variants := tbl_put mv_id (db_variants db) v\<rparr>)"
proof -
  have free: "mv_id x \<noteq> mv_id v \<Longrightarrow> x \<in> set (db_variants db) \<Longrightarrow>
      (mv_media_object_id x, mv_variant_name x) \<noteq> (mv_media_object_id v, mv_variant_name v) \<and>
      (mv_storage_bucket x, mv_object_key x) \<noteq> (mv_storage_bucket v, mv_object_key v)" for x
    using assms(2) by (auto simp: variant_clash_def list_ex_iff)
  show ?thesis
    using assms(1) free by (auto simp: variants_wf_def distinct_tbl_put intro!: distinct_put)
qed

lemma variants_wf_cong: "db_variants db' = db_variants db \<Longrightarrow> variants_wf db' = variants_wf db"
  by (simp add: variants_wf_def)

lemma find_variant_Some:
  "find_variant rows i n = Some v \<Longrightarrow> v \<in> set rows \<and> mv_media_object_id v = i \<and> mv_variant_name v = n"
  by (auto simp: find_variant_def find_Some_iff)

text \<open>
  The row a registration is to leave, from the request alone: everything the worker reported,
  under the id and the creation time of the row it replaces, if there is one.
\<close>

definition registered :: "uuid \<Rightarrow> variant_register_request \<Rightarrow> media_variant option \<Rightarrow> uuid \<Rightarrow> datetime \<Rightarrow> media_variant" where
  "registered object_id req old fresh now = \<lparr>
     mv_id = (case old of Some v \<Rightarrow> mv_id v | None \<Rightarrow> fresh), mv_media_object_id = object_id,
     mv_variant_name = vr_variant_name req, mv_storage_bucket = vr_storage_bucket req,
     mv_object_key = vr_object_key req, mv_width = vr_width req, mv_height = vr_height req,
     mv_size_bytes = vr_size_bytes req, mv_format = vr_format req,
     mv_created_at = (case old of Some v \<Rightarrow> mv_created_at v | None \<Rightarrow> now)\<rparr>"

lemma register_variant_row:
  assumes "register_variant db object_id req fresh event_id now = (Inr v, db')"
  shows "v = registered object_id req (find_variant (db_variants db) object_id (vr_variant_name req)) fresh now \<and>
    db' = record_event (db\<lparr>db_variants := tbl_put mv_id (db_variants db) v\<rparr>) EVENT_VARIANT_READY object_id
      [(''variant_name'', vr_variant_name req), (''format'', u (vr_format req))] event_id now \<and>
    \<not> variant_clash (db_variants db) v \<and>
    (find_variant (db_variants db) object_id (vr_variant_name req) = None \<longrightarrow> tbl_get mv_id (db_variants db) fresh = None)"
  using assms
  by (cases "find_variant (db_variants db) object_id (vr_variant_name req)")
    (auto simp: register_variant_def Let_def variant_of_def registered_def intro!: media_variant.equality
      split: sum.splits if_splits dest: find_variant_Some)

lemma find_unique:
  "distinct (map f rows) \<Longrightarrow> v \<in> set rows \<Longrightarrow> find (\<lambda>x. f x = f v) rows = Some v"
  by (induction rows) (auto simp: rev_image_eqI)

lemma find_variant_unique:
  assumes "variants_wf db" and "v \<in> set (db_variants db)"
  shows "find_variant (db_variants db) (mv_media_object_id v) (mv_variant_name v) = Some v"
  using find_unique [of "\<lambda>v. (mv_media_object_id v, mv_variant_name v)" "db_variants db" v] assms
  by (simp add: find_variant_def variants_wf_def)

text \<open>
  C14. The worker's registration is an upsert on (object, variant name): the row it leaves
  and answers has the bucket, key, dimensions, size and format of the request, whatever was
  registered before, with the id and the creation time of the row it overwrites, or the fresh
  id and the present time. Afterwards that pair has exactly this row, every other row
  stands, one variant.ready event is recorded and nothing else changes; the invariant of
  unique ids, names and storage keys is kept. Repeating the call, with whatever new id,
  finds the same row again and leaves the table as it is.
\<close>

theorem register_variant_upserts:
  assumes wf: "variants_wf db"
    and reg: "register_variant db object_id req fresh event_id now = (Inr v, db')"
  shows "(let old = find_variant (db_variants db) object_id (vr_variant_name req) in
      v = \<lparr>mv_id = (case old of Some x \<Rightarrow> mv_id x | None \<Rightarrow> fresh), mv_media_object_id = object_id,
        mv_variant_name = vr_variant_name req, mv_storage_bucket = vr_storage_bucket req,
        mv_object_key = vr_object_key req, mv_width = vr_width req, mv_height = vr_height req,
        mv_size_bytes = vr_size_bytes req, mv_format = vr_format req,
        mv_created_at = (case old of Some x \<Rightarrow> mv_created_at x | None \<Rightarrow> now)\<rparr>) \<and>
    variants_wf db' \<and> find_variant (db_variants db') object_id (vr_variant_name req) = Some v \<and>
    (\<forall>i. i = mv_id v \<or> tbl_get mv_id (db_variants db') i = tbl_get mv_id (db_variants db) i) \<and>
    db' = record_event (db\<lparr>db_variants := db_variants db'\<rparr>) EVENT_VARIANT_READY object_id
      [(''variant_name'', vr_variant_name req), (''format'', u (vr_format req))] event_id now \<and>
    (\<exists>db''. register_variant db' object_id req fresh' event_id' now' = (Inr v, db'') \<and> db_variants db'' = db_variants db')"
proof -
  note row = register_variant_row [OF reg, THEN conjunct1] register_variant_row [OF reg, THEN conjunct2, THEN conjunct1]
  note no_clash = register_variant_row [OF reg, THEN conjunct2, THEN conjunct2, THEN conjunct1]
  have vs: "db_variants db' = tbl_put mv_id (db_variants db) v" and obj: "db_objects db' = db_objects db"
    by (simp_all add: row(2) record_event_def)
  have key: "mv_media_object_id v = object_id" "mv_variant_name v = vr_variant_name req"
    by (simp_all add: row(1) registered_def)
  have wf': "variants_wf db'"
    using variants_wf_put [OF wf no_clash] by (simp add: variants_wf_def vs)
  have mem: "v \<in> set (db_variants db')"
    using vs tbl.get_put_same [of mv_id "db_variants db" v] by (auto dest: tbl_get_mem)
  have found: "find_variant (db_variants db') object_id (vr_variant_name req) = Some v"
    using find_variant_unique [OF wf' mem] key by simp
  have "distinct (map mv_id t) \<Longrightarrow> v \<in> set t \<Longrightarrow> tbl_put mv_id t v = t" for t
    by (induction t) (auto simp: rev_image_eqI)
  then have same: "tbl_put mv_id (db_variants db') v = db_variants db'"
    using wf' mem by (simp add: variants_wf_def)
  have clash: "\<not> variant_clash (db_variants db') v"
    using wf' mem by (auto simp: variant_clash_def list_ex_iff variants_wf_def distinct_map dest!: inj_onD)
  obtain x where "fetch_object db object_id True = Inr x" using reg by (auto simp: register_variant_def split: sum.splits)
  then have f': "fetch_object db' object_id True = Inr x" by (simp add: fetch_object_def obj)
  have v: "variant_of req v = v" by (simp add: row(1) registered_def variant_of_def)
  have "\<exists>db''. register_variant db' object_id req fresh' event_id' now' = (Inr v, db'') \<and> db_variants db'' = db_variants db'"
    by (simp add: register_variant_def f' found v clash same record_event_def)
  moreover have "\<forall>i. i = mv_id v \<or> tbl_get mv_id (db_variants db') i = tbl_get mv_id (db_variants db) i"
    by (simp add: vs table_simps)
  moreover have "db' = record_event (db\<lparr>db_variants := db_variants db'\<rparr>) EVENT_VARIANT_READY object_id
      [(''variant_name'', vr_variant_name req), (''format'', u (vr_format req))] event_id now"
    unfolding vs by (rule row(2))
  ultimately show ?thesis using wf' found row(1) unfolding registered_def Let_def by blast
qed

section \<open>Concrete jobs and variants\<close>

definition demo_image_db :: database where
  "demo_image_db = empty_db\<lparr>db_objects := [demo_object]\<rparr>"

definition demo_register :: variant_register_request where
  "demo_register = \<lparr>vr_variant_name = u ''thumb_webp'', vr_storage_bucket = ''private-media'', vr_object_key = u ''v'',
     vr_width = Some 64, vr_height = None, vr_size_bytes = 9, vr_format = ''webp''\<rparr>"

text \<open>A first registration left another key, size and format: the second overwrites them.\<close>

definition demo_old_variant :: media_variant where
  "demo_old_variant = \<lparr>mv_id = 3, mv_media_object_id = 5, mv_variant_name = u ''thumb_webp'', mv_storage_bucket = ''old'',
     mv_object_key = u ''o'', mv_width = None, mv_height = Some 9, mv_size_bytes = 1, mv_format = ''png'', mv_created_at = 0\<rparr>"

theorem register_variant_upserts_witness:
  "\<exists>v db'. register_variant (demo_image_db\<lparr>db_variants := [demo_old_variant]\<rparr>) 5 demo_register 8 9 4 = (Inr v, db') \<and>
     mv_id v = 3 \<and> mv_created_at v = 0 \<and> mv_object_key v = u ''v'' \<and> mv_size_bytes v = 9 \<and> mv_format v = ''webp'' \<and>
     find_variant (db_variants db') 5 (u ''thumb_webp'') = Some v"
proof -
  let ?db = "demo_image_db\<lparr>db_variants := [demo_old_variant]\<rparr>"
  have wf: "variants_wf ?db" by (simp add: variants_wf_def)
  obtain v db' where r: "register_variant ?db 5 demo_register 8 9 4 = (Inr v, db')"
    by (simp add: register_variant_def fetch_object_def demo_image_db_def demo_object_def find_variant_def
        variant_clash_def empty_db_def Let_def variant_of_def demo_old_variant_def demo_register_def)
  have "find_variant [demo_old_variant] 5 (vr_variant_name demo_register) = Some demo_old_variant"
    by (simp add: find_variant_def demo_old_variant_def demo_register_def)
  with register_variant_upserts [OF wf r] r show ?thesis by (auto simp: demo_register_def demo_old_variant_def)
qed

theorem generated_job_gated_witness:
  "\<exists>job payload db'. generate \<lparr>uc_nfc = id, uc_other = (\<lambda>_. False), uc_lower = id\<rparr> demo_image_db demo_principal 5 [u ''thumb''] 7 0 =
      (Inr (job, payload), db') \<and> length (vp_specs payload) \<le> MAX_OUTPUTS_PER_JOB \<and> vp_source_bucket payload = ''private-media''"
proof -
  let ?U = "\<lparr>uc_nfc = id, uc_other = (\<lambda>_. False), uc_lower = id\<rparr>"
  have obj: "load_object demo_image_db demo_principal 5 False = Inr demo_object"
    by (simp add: load_object_def fetch_object_def demo_image_db_def demo_object_def demo_principal_def)
  have gates: "mo_status demo_object = OBJ_READY" "mo_scan_status demo_object = SCAN_CLEAN"
    "is_processable_image (mo_mime_type demo_object)" "db_variant_jobs demo_image_db = []"
    by (simp_all add: demo_object_def demo_image_db_def empty_db_def is_processable_image_def PROCESSABLE_IMAGE_MIMES_def)
  obtain specs where specs: "resolve_presets ?U demo_image_db demo_principal [u ''thumb''] demo_object = Inr specs"
    by (simp add: resolve_presets_def merged_presets_def user_presets_def demo_image_db_def empty_db_def dict_of_def
        BUILTIN_PRESETS_def u_def dict_get_def webp_def expand_def geometry_cost_def py_or_def preset_bounds)
  obtain job payload db' where g: "generate ?U demo_image_db demo_principal 5 [u ''thumb''] 7 0 = (Inr (job, payload), db')"
    by (simp add: generate_def obj tbl_insert_def gates specs Let_def)
  from generated_job_gated [where U = ?U and db = demo_image_db and p = demo_principal and object_id = 5 and
      presets = "[u ''thumb'']" and fresh = 7 and now = 0] g show ?thesis
    by (auto simp: can_generate_def demo_image_db_def demo_object_def split: if_splits)
qed

end
