(* ===== verification/Admin.thy ===== *)
theory Admin
  imports Uploads Ssrf
begin

text \<open>
  \<open>controllers/admin.py\<close>: storage statistics, quota overrides, stale uploads and webhook
  subscriptions. A grouped query answers its groups in an order of the database's choice;
  here it is the order of first appearance. The stale-upload queries bind a clock reading
  without time zone; what the database layer does with it is their first argument.
\<close>

section \<open>Statistics\<close>

record 'k stats_row =
  sr_key :: 'k
  sr_count :: int
  sr_total_bytes :: int

definition group_stats :: "(media_object \<Rightarrow> 'k) \<Rightarrow> media_object list \<Rightarrow> 'k stats_row list" where
  "group_stats key rows =
     map (\<lambda>k. let g = filter (\<lambda>o'. key o' = k) rows
           in \<lparr>sr_key = k, sr_count = int (length g), sr_total_bytes = sum_list (map mo_size_bytes g)\<rparr>)
       (dedup (map key rows))"

record storage_usage_public =
  sup_usage :: storage_usage
  sup_effective_quota_bytes :: "int option"
  sup_effective_quota_objects :: "int option"

definition usage_public :: "settings \<Rightarrow> storage_usage \<Rightarrow> storage_usage_public" where
  "usage_public cfg usage = \<lparr>sup_usage = usage,
     sup_effective_quota_bytes = effective_quota_bytes cfg (Some usage),
     sup_effective_quota_objects = effective_quota_objects cfg (Some usage)\<rparr>"

record storage_stats =
  ss_by_status :: "media_object_status stats_row list"
  ss_by_category :: "media_category stats_row list"
  ss_total_objects :: int
  ss_total_bytes :: int
  ss_deleted_objects :: int
  ss_usage :: "storage_usage_public list"

definition get_storage_stats :: "settings \<Rightarrow> database \<Rightarrow> storage_stats" where
  "get_storage_stats cfg db =
     (let live = filter (\<lambda>o'. mo_deleted_at o' = None) (db_objects db);
          by_status = group_stats mo_status live;
          by_category = group_stats mo_category live;
          deleted_count = length (filter (\<lambda>o'. mo_deleted_at o' \<noteq> None) (db_objects db))
      in \<lparr>ss_by_status = by_status, ss_by_category = by_category,
          ss_total_objects = sum_list (map sr_count by_status),
          ss_total_bytes = sum_list (map sr_total_bytes by_status),
          ss_deleted_objects = int deleted_count,
          ss_usage = map (usage_public cfg) (sort_key su_owner_user_id (db_usage db))\<rparr>)"

section \<open>Quota overrides\<close>

record quota_update =
  qu_quota_bytes :: "int option option"      \<comment> \<open>\<open>None\<close>: unset; \<open>Some None\<close>: clear the override\<close>
  qu_quota_objects :: "int option option"

definition get_quota :: "settings \<Rightarrow> database \<Rightarrow> uuid \<Rightarrow> uuid option \<Rightarrow> datetime \<Rightarrow> storage_usage_public \<times> database" where
  "get_quota cfg db owner tenant now =
     (let (usage, us) = get_or_create_usage (db_usage db) owner tenant now
      in (usage_public cfg usage, db\<lparr>db_usage := us\<rparr>))"

definition set_quota ::
  "settings \<Rightarrow> database \<Rightarrow> uuid \<Rightarrow> quota_update \<Rightarrow> uuid option \<Rightarrow> datetime \<Rightarrow> storage_usage_public \<times> database" where
  "set_quota cfg db owner update tenant now =
     (let (usage, us) = get_or_create_usage (db_usage db) owner tenant now;
          row = usage\<lparr>
            su_quota_bytes := (case qu_quota_bytes update of None \<Rightarrow> su_quota_bytes usage | Some q \<Rightarrow> q),
            su_quota_objects := (case qu_quota_objects update of None \<Rightarrow> su_quota_objects usage | Some q \<Rightarrow> q),
            su_updated_at := now\<rparr>
      in (usage_public cfg row, db\<lparr>db_usage := tbl_put su_scope us row\<rparr>))"

section \<open>Stale uploads\<close>

definition stale_session :: "datetime \<Rightarrow> upload_session \<Rightarrow> bool" where
  "stale_session now s \<longleftrightarrow> us_status s = SES_INITIATED \<and> us_expires_at s < now"

text \<open>Both queries bind \<open>datetime.utcnow()\<close>, which is naive, against \<open>expires_at\<close>.\<close>

definition get_stale_uploads :: "bool \<Rightarrow> database \<Rightarrow> datetime \<Rightarrow> (nat \<times> upload_session list) result" where
  "get_stale_uploads takes_naive db now =
     (case bind_timestamp takes_naive (Naive now) of
        Inl e \<Rightarrow> Inl e
      | Inr t \<Rightarrow> (let sessions = filter (stale_session t) (db_sessions db) in Inr (length sessions, sessions)))"

fun expire_all :: "'s storage_api \<Rightarrow> upload_session list \<Rightarrow> 's world \<Rightarrow> 's world" where
  "expire_all api [] w = w"
| "expire_all api (stale # sessions) w =
     (let w1 = best_effort_remove api (us_storage_bucket stale) (us_object_key stale) w
      in expire_all api sessions (w1\<lparr>w_db := put_session (w_db w1) (stale\<lparr>us_status := SES_EXPIRED\<rparr>)\<rparr>))"

definition purge_stale_uploads :: "bool \<Rightarrow> 's storage_api \<Rightarrow> 's world \<Rightarrow> datetime \<Rightarrow> nat result \<times> 's world" where
  "purge_stale_uploads takes_naive api w now =
     (case bind_timestamp takes_naive (Naive now) of
        Inl e \<Rightarrow> (Inl e, w)
      | Inr t \<Rightarrow> (let sessions = filter (stale_session t) (db_sessions (w_db w))
                 in (Inr (length sessions), expire_all api sessions w)))"

section \<open>Subscriptions\<close>

record subscription_create =
  sq_url :: ustr
  sq_secret :: ustr
  sq_event_types :: "string list"

definition starts_with :: "ustr \<Rightarrow> ustr \<Rightarrow> bool" where
  "starts_with p s \<longleftrightarrow> take (length p) s = p"

definition validate_subscription :: "subscription_create \<Rightarrow> subscription_create result" where
  "validate_subscription req =
     (if 1 \<le> length (sq_url req) \<and> length (sq_url req) \<le> 2048 \<and>
         16 \<le> length (sq_secret req) \<and> length (sq_secret req) \<le> 255 \<and>
         (starts_with (u ''http://'') (sq_url req) \<or> starts_with (u ''https://'') (sq_url req))
      then Inr req else Inl (Http 422 (DText ''Validation error'')))"

text \<open>\<open>SubscriptionPublic\<close>: the row without its secret.\<close>

record subscription_public =
  sbp_id :: uuid
  sbp_url :: ustr
  sbp_event_types :: "string list"
  sbp_active :: bool
  sbp_created_at :: datetime

definition to_subscription_public :: "subscription \<Rightarrow> subscription_public" where
  "to_subscription_public sub = \<lparr>sbp_id = sub_id sub, sbp_url = sub_url sub, sbp_event_types = sub_event_types sub,
     sbp_active = sub_active sub, sbp_created_at = sub_created_at sub\<rparr>"

text \<open>\<open>show_error\<close> renders a guard error's message.\<close>

definition create_subscription ::
  "unicode_db \<Rightarrow> (ustr \<Rightarrow> ustr) \<Rightarrow> webhook_policy \<Rightarrow> (target_error \<Rightarrow> ustr) \<Rightarrow> database \<Rightarrow> subscription_create \<Rightarrow>
   uuid \<Rightarrow> datetime \<Rightarrow> subscription_public result \<times> database" where
  "create_subscription U nfkc policy show_error db req fresh now =
     (case check_webhook_url U nfkc policy None (sq_url req) of
        Inl (WebhookTargetError x) \<Rightarrow> (Inl (Http 400 (DTextU (show_error x))), db)
      | Inl (Escapes n) \<Rightarrow> (Inl (Raised n), db)
      | Inr _ \<Rightarrow>
          (let sub = \<lparr>sub_id = fresh, sub_url = sq_url req, sub_secret = sq_secret req,
                 sub_event_types = sq_event_types req, sub_active = True, sub_created_at = now\<rparr>
           in case tbl_insert sub_id (db_subscriptions db) sub of
                None \<Rightarrow> (Inl (Raised ''IntegrityError''), db)
              | Some rows \<Rightarrow> (Inr (to_subscription_public sub), db\<lparr>db_subscriptions := rows\<rparr>)))"

definition list_subscriptions :: "database \<Rightarrow> nat \<times> subscription_public list" where
  "list_subscriptions db =
     (let subs = sort_key sub_created_at (db_subscriptions db)
      in (length subs, map to_subscription_public subs))"

definition delete_subscription :: "database \<Rightarrow> uuid \<Rightarrow> unit result \<times> database" where
  "delete_subscription db subscription_id =
     (case tbl_get sub_id (db_subscriptions db) subscription_id of
        None \<Rightarrow> (Inl (Http 404 (DText ''Subscription not found.'')), db)
      | Some _ \<Rightarrow> (Inr (), db\<lparr>db_subscriptions := tbl_del sub_id (db_subscriptions db) subscription_id\<rparr>))"

section \<open>Statistics add up\<close>

lemma sum_groups:
  fixes f :: "'a \<Rightarrow> int"
  assumes "distinct ks" and "key ` set rows \<subseteq> set ks"
  shows "(\<Sum>k\<leftarrow>ks. \<Sum>x\<leftarrow>filter (\<lambda>x. key x = k) rows. f x) = (\<Sum>x\<leftarrow>rows. f x)"
  using assms(2)
proof (induction rows)
  case (Cons x rows)
  have one: "(\<Sum>k\<leftarrow>ks. if key x = k then f x else 0) = f x"
    using assms(1) Cons.prems by (simp add: sum_list_distinct_conv_sum_set)
  have "(\<Sum>k\<leftarrow>ks. \<Sum>y\<leftarrow>filter (\<lambda>y. key y = k) (x # rows). f y) =
      (\<Sum>k\<leftarrow>ks. (if key x = k then f x else 0) + (\<Sum>y\<leftarrow>filter (\<lambda>y. key y = k) rows. f y))"
    by (intro arg_cong [where f = sum_list] map_cong) auto
  also have "\<dots> = f x + (\<Sum>y\<leftarrow>rows. f y)"
    using Cons by (simp add: sum_list_addf one)
  finally show ?case by simp
qed simp

lemma group_stats_totals:
  "sum_list (map sr_count (group_stats key rows)) = int (length rows)"
  "sum_list (map sr_total_bytes (group_stats key rows)) = sum_list (map mo_size_bytes rows)"
proof -
  have len: "(\<Sum>x\<leftarrow>xs. 1 :: int) = int (length xs)" for xs :: "'b list" by (induction xs) auto
  show "sum_list (map sr_count (group_stats key rows)) = int (length rows)"
    using sum_groups [of "dedup (map key rows)" key rows "\<lambda>_. 1"]
    by (simp add: group_stats_def Let_def comp_def len)
  show "sum_list (map sr_total_bytes (group_stats key rows)) = sum_list (map mo_size_bytes rows)"
    using sum_groups [of "dedup (map key rows)" key rows mo_size_bytes]
    by (simp add: group_stats_def Let_def comp_def)
qed

text \<open>
  The statistics partition the live objects: both break-downs, by status and by
  category, name each group once and add up to the same totals, which are the number and
  the bytes of exactly the objects not deleted; deleted objects are counted apart.
\<close>

theorem storage_stats_add_up:
  "let s = get_storage_stats cfg db; live = filter (\<lambda>o'. mo_deleted_at o' = None) (db_objects db) in
     ss_total_objects s = int (length live) \<and> ss_total_bytes s = sum_list (map mo_size_bytes live) \<and>
     sum_list (map sr_count (ss_by_category s)) = ss_total_objects s \<and>
     sum_list (map sr_total_bytes (ss_by_category s)) = ss_total_bytes s \<and>
     distinct (map sr_key (ss_by_status s)) \<and> distinct (map sr_key (ss_by_category s)) \<and>
     ss_total_objects s + ss_deleted_objects s = int (length (db_objects db))"
proof -
  have keys: "map sr_key (group_stats key rows) = dedup (map key rows)" for key :: "media_object \<Rightarrow> 'k" and rows
    by (simp add: group_stats_def Let_def comp_def)
  have "length (filter P xs) + length (filter (\<lambda>x. \<not> P x) xs) = length xs" for P and xs :: "media_object list"
    by (rule sum_length_filter_compl)
  from this [of "\<lambda>o'. mo_deleted_at o' = None" "db_objects db"] show ?thesis
    by (simp add: get_storage_stats_def Let_def group_stats_totals keys)
qed

section \<open>Overrides do not touch the accounting\<close>

lemma set_quota_balance: "balance (db_usage (snd (set_quota cfg db owner update tenant now))) k = balance (db_usage db) k"
proof -
  obtain r us where c: "get_or_create_usage (db_usage db) owner tenant now = (r, us)" by fastforce
  note row = get_or_create_row [OF c] get_or_create_balance [OF c]
  show ?thesis
    using row(1,3) row(5) [of k] by (auto simp: set_quota_def Let_def c balance_put su_scope_def split: option.split)
qed

section \<open>Expiring stale uploads\<close>

lemma expire_all_other_tables:
  "db_objects (w_db (expire_all api stale w)) = db_objects (w_db w) \<and> db_usage (w_db (expire_all api stale w)) = db_usage (w_db w)"
  by (induction api stale w rule: expire_all.induct) (simp_all add: Let_def put_session_def)

definition expired_in :: "upload_session set \<Rightarrow> upload_session \<Rightarrow> upload_session" where
  "expired_in S x = (if x \<in> S then x\<lparr>us_status := SES_EXPIRED\<rparr> else x)"

lemma put_expired:
  assumes "distinct (map us_id t)" "s \<in> set t"
  shows "tbl_put us_id t (s\<lparr>us_status := SES_EXPIRED\<rparr>) = map (expired_in {s}) t"
  using assms
proof (induction t)
  case (Cons x t)
  show ?case
  proof (cases "x = s")
    case True
    then have "map (expired_in {s}) t = t"
      using Cons.prems(1) by (intro map_idI) (auto simp: image_iff expired_in_def)
    moreover have "expired_in {s} s = s\<lparr>us_status := SES_EXPIRED\<rparr>" by (simp add: expired_in_def)
    ultimately show ?thesis using True by simp
  next
    case False
    then have "s \<in> set t" "us_id x \<noteq> us_id s" using Cons.prems by (auto simp: image_iff)
    with False Cons show ?thesis by (simp add: expired_in_def)
  qed
qed simp

lemma expire_all_sessions:
  "distinct (map us_id stale) \<Longrightarrow> distinct (map us_id (db_sessions (w_db w))) \<Longrightarrow>
   set stale \<subseteq> set (db_sessions (w_db w)) \<Longrightarrow>
   db_sessions (w_db (expire_all api stale w)) = map (expired_in (set stale)) (db_sessions (w_db w))"
proof (induction stale arbitrary: w)
  case (Cons s stale)
  let ?t = "db_sessions (w_db w)"
  let ?w = "(best_effort_remove api (us_storage_bucket s) (us_object_key s) w)\<lparr>w_db :=
     put_session (w_db w) (s\<lparr>us_status := SES_EXPIRED\<rparr>)\<rparr>"
  have t: "db_sessions (w_db ?w) = map (expired_in {s}) ?t"
    using Cons.prems by (simp add: put_session_def put_expired)
  have "map us_id (map (expired_in {s}) ?t) = map us_id ?t" by (simp add: expired_in_def)
  moreover have "set stale \<subseteq> set (map (expired_in {s}) ?t)"
  proof
    fix x assume "x \<in> set stale"
    with Cons.prems have "x \<in> set ?t" "x = expired_in {s} x" by (auto simp: expired_in_def)
    then show "x \<in> set (map (expired_in {s}) ?t)" unfolding set_map by (rule rev_image_eqI)
  qed
  ultimately have "db_sessions (w_db (expire_all api stale ?w)) = map (expired_in (set stale)) (map (expired_in {s}) ?t)"
    using Cons.IH [of ?w] Cons.prems(1,2) t by (metis distinct.simps(2) list.simps(9))
  then show ?case by (auto simp: Let_def expired_in_def)
qed (simp add: expired_in_def map_idI)

definition staging :: "upload_session \<Rightarrow> location" where
  "staging s = (us_storage_bucket s, us_object_key s)"

lemma expire_all_storage: "w_sto (expire_all api stale w) = w_sto (remove_all api (map staging stale) w)"
  by (induction api stale w rule: expire_all.induct) (simp_all add: Let_def staging_def remove_all_with_db)

text \<open>
  C15. Stale uploads, by what the database layer does with the naive clock both queries bind.
  Where it takes it, the listing answers the initiated sessions whose deadline has passed and
  a purge expires exactly these and answers their number: every other session row keeps its
  content, none is left for a second run, objects and quota accounting are untouched, and
  the storage has gone through the removal of exactly their staging locations, so that each
  of these is empty unless the storage refused its removal and no other bytes changed. Where
  it rejects it, as the repository documents for the version it pins, both raise and nothing
  at all is expired or removed.
\<close>

theorem stale_purge_exact:
  assumes laws: "storage_laws api view" and keys: "distinct (map us_id (db_sessions (w_db w)))"
    and run: "purge_stale_uploads takes_naive api w now = (res, w')"
  shows "let stale = filter (stale_session now) (db_sessions (w_db w)) in
    if takes_naive then
      res = Inr (length stale) \<and> get_stale_uploads takes_naive (w_db w) now = Inr (length stale, stale) \<and>
      get_stale_uploads takes_naive (w_db w') now = Inr (0, []) \<and>
      (\<forall>i. tbl_get us_id (db_sessions (w_db w')) i =
         map_option (\<lambda>s. if us_status s = SES_INITIATED \<and> us_expires_at s < now then s\<lparr>us_status := SES_EXPIRED\<rparr> else s)
           (tbl_get us_id (db_sessions (w_db w)) i)) \<and>
      db_objects (w_db w') = db_objects (w_db w) \<and> db_usage (w_db w') = db_usage (w_db w) \<and>
      w_sto w' = w_sto (remove_all api (map staging stale) w) \<and>
      (\<forall>l. l \<in> set (map staging stale) \<and> l \<notin> refused api (map staging stale) (w_sto w) \<longrightarrow> view (w_sto w') l = None) \<and>
      (\<forall>l. l \<notin> set (map staging stale) \<longrightarrow> view (w_sto w') l = view (w_sto w) l)
    else
      res = Inl no_timezone \<and> w' = w \<and> get_stale_uploads takes_naive (w_db w) now = Inl no_timezone"
proof (cases takes_naive)
  case True
  let ?t = "db_sessions (w_db w)" let ?stale = "filter (stale_session now) ?t"
  let ?f = "\<lambda>s. if us_status s = SES_INITIATED \<and> us_expires_at s < now then s\<lparr>us_status := SES_EXPIRED\<rparr> else s"
  have w': "w' = expire_all api ?stale w" and n: "res = Inr (length ?stale)"
    using run True by (simp_all add: purge_stale_uploads_def Let_def)
  have sess: "db_sessions (w_db w') = map ?f ?t"
    unfolding w' by (subst expire_all_sessions) (auto simp: keys distinct_map_filter expired_in_def stale_session_def)
  have get: "tbl_get us_id (map ?f t) i = map_option ?f (tbl_get us_id t i)" for t i
    by (induction t) auto
  have "filter (stale_session now) (map ?f ?t) = []"
    by (auto simp: filter_empty_conv stale_session_def)
  then have none: "get_stale_uploads takes_naive (w_db w') now = Inr (0, [])"
    using True by (simp add: get_stale_uploads_def sess)
  have sto: "w_sto w' = w_sto (remove_all api (map staging ?stale) w)"
    by (simp add: w' expire_all_storage)
  have list: "get_stale_uploads takes_naive (w_db w) now = Inr (length ?stale, ?stale)"
    using True by (simp add: get_stale_uploads_def Let_def)
  show ?thesis
    unfolding Let_def if_P [OF True]
    using n list none sto expire_all_other_tables [of api ?stale w, folded w'] remove_all_bytes [OF laws, of _ "map staging ?stale" w]
      remove_all_gone [OF laws, of _ "map staging ?stale" w]
    by (simp only: sess get) blast
next
  case False
  then show ?thesis using run by (simp add: purge_stale_uploads_def get_stale_uploads_def Let_def)
qed

definition demo_stale_world :: "(location \<Rightarrow> blob option) world" where
  "demo_stale_world = \<lparr>w_db = empty_db\<lparr>db_sessions := [demo_session\<lparr>us_status := SES_INITIATED\<rparr>]\<rparr>, w_sto = (\<lambda>_. Some [1]), w_metrics = []\<rparr>"

text \<open>The overdue session is expired and its bytes go, or everything stays, by the database layer.\<close>

theorem stale_purge_exact_witness:
  "let now = us_expires_at demo_session + 1; w' = snd (purge_stale_uploads True (mem_api True) demo_stale_world now) in
     get_stale_uploads True (w_db w') now = Inr (0, []) \<and> w_sto w' (staging demo_session) = None \<and>
     snd (purge_stale_uploads False (mem_api True) demo_stale_world now) = demo_stale_world"
proof -
  let ?now = "us_expires_at demo_session + 1"
  have "distinct (map us_id (db_sessions (w_db demo_stale_world)))" by (simp add: demo_stale_world_def)
  note all = stale_purge_exact [OF mem_api_laws [of True] this surjective_pairing, where now = ?now, unfolded Let_def]
  have "staging demo_session \<in> set (map staging (filter (stale_session ?now) (db_sessions (w_db demo_stale_world))))"
    by (simp add: demo_stale_world_def stale_session_def staging_def)
  with all [where takes_naive = True, unfolded if_True]
  have "w_sto (snd (purge_stale_uploads True (mem_api True) demo_stale_world ?now)) (staging demo_session) = None"
    by (elim conjE) (simp only: mem_api_refuses empty_iff simp_thms)
  moreover from all [where takes_naive = True, unfolded if_True]
  have "get_stale_uploads True (w_db (snd (purge_stale_uploads True (mem_api True) demo_stale_world ?now))) ?now = Inr (0, [])"
    by (elim conjE)
  moreover from all [where takes_naive = False, unfolded if_False]
  have "snd (purge_stale_uploads False (mem_api True) demo_stale_world ?now) = demo_stale_world" by (elim conjE)
  ultimately show ?thesis by (simp add: Let_def)
qed

end
