(* ===== verification/Maintenance.thy ===== *)
theory Maintenance
  imports Variants Admin
begin

text \<open>
  \<open>controllers/maintenance.py\<close> and the cron bodies of \<open>maintenance_worker.py\<close>: the hard
  purge of expired soft-deleted objects and the reconciliation of stored bytes with rows.
  A bucket listing is read when its loop begins. The log records are left out.
\<close>

section \<open>Hard purge\<close>

definition expired_deletion :: "datetime \<Rightarrow> media_object \<Rightarrow> bool" where
  "expired_deletion cutoff obj \<longleftrightarrow> mo_status obj = OBJ_DELETED \<and>
     (case mo_deleted_at obj of None \<Rightarrow> False | Some t \<Rightarrow> t < cutoff)"

definition deletion_time :: "media_object \<Rightarrow> datetime" where
  "deletion_time obj = (case mo_deleted_at obj of None \<Rightarrow> 0 | Some t \<Rightarrow> t)"

definition purge_candidates :: "database \<Rightarrow> datetime \<Rightarrow> nat \<Rightarrow> media_object list" where
  "purge_candidates db cutoff limit =
     take limit (sort_key deletion_time (filter (expired_deletion cutoff) (db_objects db)))"

fun purge_variants :: "'s storage_api \<Rightarrow> media_variant list \<Rightarrow> 's world \<Rightarrow> 's world" where
  "purge_variants api [] w = w"
| "purge_variants api (variant # variants) w =
     (let w1 = best_effort_remove api (mv_storage_bucket variant) (mv_object_key variant) w
      in purge_variants api variants
           (w1\<lparr>w_db := (w_db w1)\<lparr>db_variants := tbl_del mv_id (db_variants (w_db w1)) (mv_id variant)\<rparr>\<rparr>))"

fun purge_jobs :: "variant_job list \<Rightarrow> database \<Rightarrow> database" where
  "purge_jobs [] db = db"
| "purge_jobs (job # jobs) db = purge_jobs jobs (db\<lparr>db_variant_jobs := tbl_del vj_id (db_variant_jobs db) (vj_id job)\<rparr>)"

text \<open>Deleting an object row: its share tokens and filings go by \<open>ON DELETE CASCADE\<close>.\<close>

definition delete_object_row :: "uuid \<Rightarrow> database \<Rightarrow> database" where
  "delete_object_row i db = db\<lparr>
     db_objects := tbl_del mo_id (db_objects db) i,
     db_shares := filter (\<lambda>t. sh_media_object_id t \<noteq> i) (db_shares db),
     db_links := filter (\<lambda>l. fst l \<noteq> i) (db_links db)\<rparr>"

definition purge_object :: "'s storage_api \<Rightarrow> media_object \<Rightarrow> 's world \<Rightarrow> 's world" where
  "purge_object api obj w =
     (let w1 = best_effort_remove api (mo_storage_bucket obj) (mo_object_key obj) w;
          variants = filter (\<lambda>v. mv_media_object_id v = mo_id obj) (db_variants (w_db w1));
          w2 = purge_variants api variants w1;
          jobs = filter (\<lambda>j. vj_media_object_id j = mo_id obj) (db_variant_jobs (w_db w2))
      in w2\<lparr>w_db := delete_object_row (mo_id obj) (purge_jobs jobs (w_db w2))\<rparr>)"

fun purge_all :: "'s storage_api \<Rightarrow> media_object list \<Rightarrow> nat \<times> 's world \<Rightarrow> nat \<times> 's world" where
  "purge_all api [] acc = acc"
| "purge_all api (obj # candidates) (purged, w) =
     (if mo_status obj \<noteq> OBJ_DELETED \<or> mo_deleted_at obj = None
      then purge_all api candidates (purged, w)
      else purge_all api candidates (purged + 1, purge_object api obj w))"

definition hard_purge_expired :: "'s storage_api \<Rightarrow> 's world \<Rightarrow> datetime \<Rightarrow> int \<Rightarrow> nat \<Rightarrow> nat \<times> 's world" where
  "hard_purge_expired api w now older_than limit =
     purge_all api (purge_candidates (w_db w) (now - older_than) limit) (0, w)"

section \<open>Reconciliation\<close>

record orphan_record =
  or_bucket :: string
  or_object_key :: ustr
  or_object_id :: "uuid option"
  or_owner_user_id :: "uuid option"

record orphan_report =
  rep_db_orphans :: "orphan_record list"
  rep_storage_orphans :: "orphan_record list"
  rep_db_orphan_count :: nat
  rep_storage_orphan_count :: nat
  rep_repaired :: nat

definition find_db_orphans :: "'s storage_api \<Rightarrow> 's world \<Rightarrow> datetime \<Rightarrow> nat \<Rightarrow> orphan_record list" where
  "find_db_orphans api w cutoff limit =
     (let live_rows = take limit (sort_key mo_created_at
            (filter (\<lambda>obj. mo_deleted_at obj = None \<and> mo_created_at obj < cutoff) (db_objects (w_db w))))
      in map (\<lambda>obj. \<lparr>or_bucket = mo_storage_bucket obj, or_object_key = mo_object_key obj,
                or_object_id = Some (mo_id obj), or_owner_user_id = Some (mo_owner_user_id obj)\<rparr>)
           (filter (\<lambda>obj. api_stat api (w_sto w) (mo_storage_bucket obj) (mo_object_key obj) = None) live_rows))"

text \<open>\<open>str(None)\<close> is the text \<open>None\<close>.\<close>

definition live_export_keys :: "database \<Rightarrow> datetime \<Rightarrow> location list" where
  "live_export_keys db now =
     map (\<lambda>row. (case ej_storage_bucket row of None \<Rightarrow> ''None'' | Some b \<Rightarrow> b,
                 case ej_object_key row of None \<Rightarrow> u ''None'' | Some k \<Rightarrow> k))
       (filter (\<lambda>row. ej_status row = JOB_COMPLETED \<and> (case ej_expires_at row of None \<Rightarrow> False | Some t \<Rightarrow> t > now))
          (db_export_jobs db))"

definition pending_keys :: "database \<Rightarrow> datetime \<Rightarrow> location set" where
  "pending_keys db now =
     set (map (\<lambda>s. (us_storage_bucket s, us_object_key s))
            (filter (\<lambda>s. us_status s = SES_INITIATED) (db_sessions db))) \<union> set (live_export_keys db now)"

definition row_at :: "database \<Rightarrow> location \<Rightarrow> media_object option" where
  "row_at db l = find (\<lambda>obj. mo_storage_bucket obj = fst l \<and> mo_object_key obj = snd l) (db_objects db)"

definition storage_orphan :: "location \<Rightarrow> orphan_record" where
  "storage_orphan l = \<lparr>or_bucket = fst l, or_object_key = snd l, or_object_id = None, or_owner_user_id = None\<rparr>"

text \<open>The loop over one bucket: what is found and removed so far is carried along.\<close>

fun scan_keys ::
  "'s storage_api \<Rightarrow> location set \<Rightarrow> nat \<Rightarrow> bool \<Rightarrow> string \<Rightarrow> ustr list \<Rightarrow> orphan_record list \<times> nat \<times> 's world \<Rightarrow>
   orphan_record list \<times> nat \<times> 's world" where
  "scan_keys api pending limit repair bucket [] acc = acc"
| "scan_keys api pending limit repair bucket (key # keys) (found, repaired, w) =
     (if length found \<ge> limit then (found, repaired, w)
      else if (bucket, key) \<in> pending then scan_keys api pending limit repair bucket keys (found, repaired, w)
      else if row_at (w_db w) (bucket, key) \<noteq> None then scan_keys api pending limit repair bucket keys (found, repaired, w)
      else (let found' = found @ [storage_orphan (bucket, key)]
            in if repair
               then scan_keys api pending limit repair bucket keys (found', repaired + 1, best_effort_remove api bucket key w)
               else scan_keys api pending limit repair bucket keys (found', repaired, w)))"

text \<open>A listing that fails is not caught: the request fails, what was removed stays removed.\<close>

fun scan_buckets ::
  "'s storage_api \<Rightarrow> location set \<Rightarrow> nat \<Rightarrow> bool \<Rightarrow> string list \<Rightarrow> orphan_record list \<times> nat \<times> 's world \<Rightarrow>
   (orphan_record list \<times> nat) result \<times> 's world" where
  "scan_buckets api pending limit repair [] (found, repaired, w) = (Inr (found, repaired), w)"
| "scan_buckets api pending limit repair (bucket # buckets) (found, repaired, w) =
     (case api_list api (w_sto w) bucket of
        None \<Rightarrow> (Inl (Raised ''StorageError''), w)
      | Some keys \<Rightarrow> scan_buckets api pending limit repair buckets
          (scan_keys api pending limit repair bucket keys (found, repaired, w)))"

definition find_storage_orphans ::
  "'s storage_api \<Rightarrow> 's world \<Rightarrow> datetime \<Rightarrow> string list \<Rightarrow> nat \<Rightarrow> bool \<Rightarrow> (orphan_record list \<times> nat) result \<times> 's world" where
  "find_storage_orphans api w now buckets limit repair =
     scan_buckets api (pending_keys (w_db w) now) limit repair buckets ([], 0, w)"

definition reconcile_orphans ::
  "'s storage_api \<Rightarrow> 's world \<Rightarrow> datetime \<Rightarrow> string list \<Rightarrow> int \<Rightarrow> nat \<Rightarrow> bool \<Rightarrow> orphan_report result \<times> 's world" where
  "reconcile_orphans api w now buckets grace limit repair =
     (let db_orphans = find_db_orphans api w (now - grace) limit
      in case find_storage_orphans api w now buckets limit repair of
           (Inl x, w') \<Rightarrow> (Inl x, w')
         | (Inr (storage_orphans, repaired), w') \<Rightarrow>
             (Inr \<lparr>rep_db_orphans = db_orphans, rep_storage_orphans = storage_orphans,
                rep_db_orphan_count = length db_orphans, rep_storage_orphan_count = length storage_orphans,
                rep_repaired = repaired\<rparr>, w'))"

section \<open>The cron bodies\<close>

definition all_buckets :: "settings \<Rightarrow> string list" where
  "all_buckets cfg = [S3_BUCKET_PUBLIC cfg, S3_BUCKET_PRIVATE cfg, S3_BUCKET_SENSITIVE cfg, S3_BUCKET_TEMP cfg, S3_BUCKET_ARCHIVE cfg]"

definition cron_hard_purge :: "settings \<Rightarrow> 's storage_api \<Rightarrow> 's world \<Rightarrow> datetime \<Rightarrow> nat \<times> 's world" where
  "cron_hard_purge cfg api w now =
     hard_purge_expired api w now (seconds (86400 * MEDIA_RETENTION_PURGE_DAYS cfg)) (nat (MEDIA_PURGE_BATCH_LIMIT cfg))"

definition cron_expire_stale :: "bool \<Rightarrow> 's storage_api \<Rightarrow> 's world \<Rightarrow> datetime \<Rightarrow> nat result \<times> 's world" where
  "cron_expire_stale takes_naive api w now = purge_stale_uploads takes_naive api w now"

definition cron_reconcile :: "settings \<Rightarrow> 's storage_api \<Rightarrow> 's world \<Rightarrow> datetime \<Rightarrow> nat result \<times> 's world" where
  "cron_reconcile cfg api w now =
     (case reconcile_orphans api w now (all_buckets cfg) (seconds (60 * MEDIA_RECONCILE_GRACE_MINUTES cfg))
             (nat (MEDIA_RECONCILE_BATCH_LIMIT cfg)) False of
        (Inl x, w') \<Rightarrow> (Inl x, w')
      | (Inr report, w') \<Rightarrow> (Inr (rep_db_orphan_count report + rep_storage_orphan_count report), w'))"

section \<open>What a purge forgets\<close>

text \<open>The specification of a purge: the objects with these ids and all that hangs on them.\<close>

definition forget :: "uuid set \<Rightarrow> database \<Rightarrow> database" where
  "forget ids db = db\<lparr>
     db_objects := filter (\<lambda>obj. mo_id obj \<notin> ids) (db_objects db),
     db_shares := filter (\<lambda>t. sh_media_object_id t \<notin> ids) (db_shares db),
     db_variants := filter (\<lambda>v. mv_media_object_id v \<notin> ids) (db_variants db),
     db_variant_jobs := filter (\<lambda>j. vj_media_object_id j \<notin> ids) (db_variant_jobs db),
     db_links := filter (\<lambda>l. fst l \<notin> ids) (db_links db)\<rparr>"

definition ids_unique :: "database \<Rightarrow> bool" where
  "ids_unique db \<longleftrightarrow> distinct (map mo_id (db_objects db)) \<and> distinct (map mv_id (db_variants db)) \<and>
     distinct (map vj_id (db_variant_jobs db))"

text \<open>Where an object's bytes are: its own and those of its variants.\<close>

definition object_locations :: "database \<Rightarrow> media_object \<Rightarrow> location list" where
  "object_locations db obj = (mo_storage_bucket obj, mo_object_key obj) #
     map (\<lambda>v. (mv_storage_bucket v, mv_object_key v)) (filter (\<lambda>v. mv_media_object_id v = mo_id obj) (db_variants db))"

lemma forget_forget: "forget A (forget B db) = forget (A \<union> B) db"
  by (simp add: forget_def conj_commute)

lemma forget_none: "forget {} db = db"
  by (simp add: forget_def)

lemma ids_unique_forget: "ids_unique db \<Longrightarrow> ids_unique (forget A db)"
  by (simp add: ids_unique_def forget_def distinct_map_filter)

lemma filter_selected_keys:
  "distinct (map key xs) \<Longrightarrow> filter (\<lambda>x. key x \<notin> key ` set (filter P xs)) xs = filter (\<lambda>x. \<not> P x) xs"
  by (rule filter_cong) (auto simp: distinct_map inj_on_def)

lemma purge_variants_db:
  "w_db (purge_variants api vs w) = (w_db w)\<lparr>db_variants := filter (\<lambda>v. mv_id v \<notin> mv_id ` set vs) (db_variants (w_db w))\<rparr>"
  by (induction api vs w rule: purge_variants.induct) (simp_all add: Let_def tbl_del_def conj_commute)

lemma purge_jobs_db:
  "purge_jobs js db = db\<lparr>db_variant_jobs := filter (\<lambda>j. vj_id j \<notin> vj_id ` set js) (db_variant_jobs db)\<rparr>"
  by (induction js db rule: purge_jobs.induct) (simp_all add: tbl_del_def conj_commute)

lemma purge_variants_storage:
  "w_sto (purge_variants api vs w) = w_sto (remove_all api (map (\<lambda>v. (mv_storage_bucket v, mv_object_key v)) vs) w)"
  by (induction api vs w rule: purge_variants.induct) (simp_all add: Let_def remove_all_with_db)

lemma purge_object_db:
  assumes "ids_unique (w_db w)"
  shows "w_db (purge_object api obj w) = forget {mo_id obj} (w_db w)"
  using assms filter_selected_keys [of mv_id "db_variants (w_db w)" "\<lambda>v. mv_media_object_id v = mo_id obj"]
    filter_selected_keys [of vj_id "db_variant_jobs (w_db w)" "\<lambda>j. vj_media_object_id j = mo_id obj"]
  by (simp add: purge_object_def Let_def purge_variants_db purge_jobs_db delete_object_row_def forget_def
      ids_unique_def tbl_del_def)

lemma purge_object_storage: "w_sto (purge_object api obj w) = w_sto (remove_all api (object_locations (w_db w) obj) w)"
  by (simp add: purge_object_def Let_def object_locations_def purge_variants_storage)

lemma object_locations_forget: "mo_id obj \<notin> A \<Longrightarrow> object_locations (forget A db) obj = object_locations db obj"
  by (auto simp: object_locations_def forget_def intro!: arg_cong [where f = "map _"] filter_cong)

lemma remove_all_same_storage: "w_sto w = w_sto w2 \<Longrightarrow> w_sto (remove_all api ls w) = w_sto (remove_all api ls w2)"
  by (induction ls arbitrary: w w2) (auto simp: best_effort_remove_def)

lemma purge_all_effect:
  "ids_unique (w_db w) \<Longrightarrow> distinct (map mo_id objs) \<Longrightarrow>
    list_all (\<lambda>obj. mo_status obj = OBJ_DELETED \<and> mo_deleted_at obj \<noteq> None) objs \<Longrightarrow>
    purge_all api objs (n, w) = (n', w') \<Longrightarrow>
    n' = n + length objs \<and> w_db w' = forget (mo_id ` set objs) (w_db w) \<and>
    w_sto w' = w_sto (remove_all api (concat (map (object_locations (w_db w)) objs)) w)"
proof (induction objs arbitrary: n w)
  case (Cons obj objs)
  let ?w = "purge_object api obj w"
  have db: "w_db ?w = forget {mo_id obj} (w_db w)" by (rule purge_object_db) fact
  have run: "purge_all api objs (n + 1, ?w) = (n', w')" and ok: "ids_unique (w_db ?w)"
    using Cons.prems by (auto simp: db ids_unique_forget)
  from Cons.IH [OF ok _ _ run] Cons.prems(2,3)
  have ih: "n' = n + 1 + length objs" "w_db w' = forget (mo_id ` set objs) (w_db ?w)"
    "w_sto w' = w_sto (remove_all api (concat (map (object_locations (w_db ?w)) objs)) ?w)" by auto
  have "map (object_locations (w_db ?w)) objs = map (object_locations (w_db w)) objs"
    using Cons.prems(2) by (intro map_cong refl) (auto simp: db image_iff intro!: object_locations_forget)
  with ih(3) purge_object_storage [of api obj w]
  have "w_sto w' = w_sto (remove_all api (concat (map (object_locations (w_db w)) (obj # objs))) w)"
    by (simp add: remove_all_append) (rule remove_all_same_storage)
  then show ?case using ih(1,2) by (simp add: db forget_forget)
qed (simp add: forget_none)

lemma purge_candidates_expired:
  "set (purge_candidates db cutoff limit) \<subseteq> set (filter (expired_deletion cutoff) (db_objects db))"
  "length (purge_candidates db cutoff limit) = min limit (length (filter (expired_deletion cutoff) (db_objects db)))"
  "distinct (map mo_id (db_objects db)) \<Longrightarrow> distinct (map mo_id (purge_candidates db cutoff limit))"
proof -
  let ?k = deletion_time and ?e = "filter (expired_deletion cutoff) (db_objects db)"
  show "set (purge_candidates db cutoff limit) \<subseteq> set ?e"
    by (auto simp: purge_candidates_def dest: in_set_takeD)
  show "length (purge_candidates db cutoff limit) = min limit (length ?e)"
    by (simp add: purge_candidates_def min.commute)
  assume d: "distinct (map mo_id (db_objects db))"
  have "inj_on mo_id (set ?e)" using d by (auto simp: distinct_map inj_on_def)
  moreover have "distinct (sort_key ?k ?e)" using d by (simp add: distinct_map)
  ultimately have "distinct (map mo_id (sort_key ?k ?e))" by (simp add: distinct_map)
  then show "distinct (map mo_id (purge_candidates db cutoff limit))"
    unfolding purge_candidates_def take_map [symmetric] by (rule distinct_take)
qed

lemma purge_candidates_oldest:
  assumes "a \<in> set (purge_candidates db cutoff limit)" "b \<in> set (db_objects db)" "expired_deletion cutoff b"
    and "b \<notin> set (purge_candidates db cutoff limit)"
  shows "deletion_time a \<le> deletion_time b"
proof -
  let ?s = "sort_key deletion_time (filter (expired_deletion cutoff) (db_objects db))"
  have "sorted (map deletion_time (take limit ?s) @ map deletion_time (drop limit ?s))"
    by (simp flip: map_append)
  moreover have "b \<in> set (take limit ?s) \<union> set (drop limit ?s)"
    using assms(2,3) by (simp flip: set_append)
  ultimately show ?thesis using assms(1,4) by (auto simp: purge_candidates_def sorted_append)
qed

lemma length_filter_without:
  assumes "distinct (map key xs)" "distinct ys" "set ys \<subseteq> set (filter P xs)"
  shows "length (filter P (filter (\<lambda>x. key x \<notin> key ` set ys) xs)) = length (filter P xs) - length ys"
proof -
  have inj: "inj_on key (set xs)" and d: "distinct xs" using assms(1) by (simp_all add: distinct_map)
  have "set (filter P (filter (\<lambda>x. key x \<notin> key ` set ys) xs)) = set (filter P xs) - set ys"
    using inj assms(3) by (auto simp: inj_on_def)
  moreover have "card (set (filter P xs) - set ys) = card (set (filter P xs)) - card (set ys)"
    using assms(3) by (intro card_Diff_subset) auto
  ultimately show ?thesis using d assms(2) by (metis distinct_card distinct_filter)
qed

text \<open>
  C16. The hard purge removes the oldest-deleted expired objects, as many as there are up to
  the limit, and answers their number; nothing that was not soft-deleted before the cutoff
  goes. With an object go exactly its variants, jobs, share tokens and filings, so none of
  them is left dangling, and every other row, the quota accounting included, is unchanged.
  The storage goes through the removal of exactly the locations of these objects and of all
  their variants: each is empty afterwards unless the storage refused its removal, and no
  other bytes change. The backlog shrinks by the number answered: runs with a positive limit
  drain it.
\<close>

theorem hard_purge_exact:
  assumes laws: "storage_laws api view" and ids: "ids_unique (w_db w)"
    and run: "hard_purge_expired api w now older_than limit = (n, w')"
  shows "let cutoff = now - older_than; gone = purge_candidates (w_db w) cutoff limit;
       backlog = (\<lambda>db. length (filter (expired_deletion cutoff) (db_objects db)));
       places = concat (map (object_locations (w_db w)) gone) in
     n = min limit (backlog (w_db w)) \<and> set gone \<subseteq> set (filter (expired_deletion cutoff) (db_objects (w_db w))) \<and>
     w_db w' = forget (mo_id ` set gone) (w_db w) \<and> backlog (w_db w') = backlog (w_db w) - n \<and>
     (\<forall>a b. a \<in> set gone \<longrightarrow> b \<in> set (db_objects (w_db w')) \<longrightarrow> expired_deletion cutoff b \<longrightarrow> deletion_time a \<le> deletion_time b) \<and>
     w_sto w' = w_sto (remove_all api places w) \<and>
     (\<forall>l. l \<in> set places \<and> l \<notin> refused api places (w_sto w) \<longrightarrow> view (w_sto w') l = None) \<and>
     (\<forall>l. l \<notin> set places \<longrightarrow> view (w_sto w') l = view (w_sto w) l)"
proof -
  define gone where "gone = purge_candidates (w_db w) (now - older_than) limit"
  define places where "places = concat (map (object_locations (w_db w)) gone)"
  note gone = purge_candidates_expired [of "w_db w" "now - older_than" limit, folded gone_def]
  have ok: "list_all (\<lambda>obj. mo_status obj = OBJ_DELETED \<and> mo_deleted_at obj \<noteq> None) gone"
    using gone(1) by (fastforce simp: list_all_iff expired_deletion_def split: option.splits)
  have d: "distinct (map mo_id (db_objects (w_db w)))" using ids by (simp add: ids_unique_def)
  have "purge_all api gone (0, w) = (n, w')" using run by (simp add: hard_purge_expired_def gone_def)
  from purge_all_effect [OF ids gone(3) [OF d] ok this]
  have eff: "n = length gone" "w_db w' = forget (mo_id ` set gone) (w_db w)" "w_sto w' = w_sto (remove_all api places w)"
    by (simp_all add: places_def)
  have bytes: "\<forall>l. l \<in> set places \<and> l \<notin> refused api places (w_sto w) \<longrightarrow> view (w_sto w') l = None"
    "\<forall>l. l \<notin> set places \<longrightarrow> view (w_sto w') l = view (w_sto w) l"
    using remove_all_gone [OF laws, of _ places w] remove_all_bytes [OF laws, of _ places w] eff(3) by simp_all
  have "distinct gone" using gone(3) [OF d] by (simp add: distinct_map)
  from length_filter_without [OF d this gone(1)]
  have backlog: "length (filter (expired_deletion (now - older_than)) (db_objects (w_db w'))) =
      length (filter (expired_deletion (now - older_than)) (db_objects (w_db w))) - length gone"
    by (simp add: eff(2) forget_def)
  have oldest: "deletion_time a \<le> deletion_time b"
    if "a \<in> set gone" "b \<in> set (db_objects (w_db w'))" "expired_deletion (now - older_than) b" for a b
    using purge_candidates_oldest [of a "w_db w" "now - older_than" limit b, folded gone_def] that
    by (auto simp: eff(2) forget_def)
  show ?thesis
    unfolding Let_def gone_def [symmetric] places_def [symmetric]
    using gone(1,2) eff backlog bytes oldest by (intro conjI) simp_all
qed

section \<open>What reconciliation reports and removes\<close>

text \<open>A location is owned when a row, an open upload or a live export accounts for it.\<close>

definition owned :: "database \<Rightarrow> datetime \<Rightarrow> location \<Rightarrow> bool" where
  "owned db now l \<longleftrightarrow> l \<in> pending_keys db now \<or> row_at db l \<noteq> None"

lemma owned_object: "obj \<in> set (db_objects db) \<Longrightarrow> owned db now (mo_storage_bucket obj, mo_object_key obj)"
  by (auto simp: owned_def row_at_def find_None_iff)

definition unowned_keys :: "database \<Rightarrow> datetime \<Rightarrow> string \<Rightarrow> ustr list \<Rightarrow> location list" where
  "unowned_keys db now b keys = filter (\<lambda>l. \<not> owned db now l) (map (Pair b) keys)"

text \<open>The loop over one bucket in closed form: what it reports does not depend on the repairs.\<close>

lemma scan_keys_closed:
  assumes "pending = pending_keys (w_db w) now"
  shows "scan_keys api pending limit repair b keys (found, r, w) =
    (let new = take (limit - length found) (unowned_keys (w_db w) now b keys)
     in (found @ map storage_orphan new, if repair then r + length new else r, if repair then remove_all api new w else w))"
  using assms
proof (induction keys arbitrary: found r w)
  case (Cons k keys)
  show ?case
  proof (cases "limit \<le> length found")
    case False
    then obtain m where m: "limit - length found = Suc m" "limit - Suc (length found) = m"
      by (metis Suc_diff_Suc not_le)
    show ?thesis
      using False Cons.prems Cons.IH [of w "found @ [storage_orphan (b, k)]" r]
        Cons.IH [of w found r] Cons.IH [of "best_effort_remove api b k w" "found @ [storage_orphan (b, k)]" "r + 1"]
      by (auto simp: Let_def unowned_keys_def owned_def m)
  qed simp
qed (simp add: unowned_keys_def)

text \<open>The same for the sweep of the buckets: the removed locations are the reported ones.\<close>

lemma scan_buckets_effect:
  assumes "pending = pending_keys (w_db w) now" and "length found \<le> limit"
    and "scan_buckets api pending limit repair buckets (found, r, w) = (res, w')"
  shows "\<exists>ls. list_all (\<lambda>l. \<not> owned (w_db w) now l \<and> fst l \<in> set buckets) ls \<and> length found + length ls \<le> limit \<and>
    w' = (if repair then remove_all api ls w else w) \<and>
    (\<forall>found' r'. res = Inr (found', r') \<longrightarrow> found' = found @ map storage_orphan ls \<and> r' = (if repair then r + length ls else r))"
  using assms
proof (induction buckets arbitrary: found r w)
  case (Cons b buckets)
  show ?case
  proof (cases "api_list api (w_sto w) b")
    case None
    with Cons.prems show ?thesis by (intro exI [of _ "[]"]) auto
  next
    case (Some keys)
    define new where "new = take (limit - length found) (unowned_keys (w_db w) now b keys)"
    let ?w = "if repair then remove_all api new w else w" and ?found = "found @ map storage_orphan new"
    have db: "w_db ?w = w_db w" by simp
    have new: "list_all (\<lambda>l. \<not> owned (w_db w) now l \<and> fst l = b) new"
      by (auto simp: new_def unowned_keys_def list_all_iff dest!: in_set_takeD)
    have "length ?found \<le> limit" using Cons.prems(2) by (simp add: new_def)
    moreover have "scan_buckets api pending limit repair buckets (?found, if repair then r + length new else r, ?w) = (res, w')"
      using Cons.prems(3) Some by (simp add: scan_keys_closed [OF Cons.prems(1)] Let_def flip: new_def)
    ultimately obtain ls where ls: "list_all (\<lambda>l. \<not> owned (w_db w) now l \<and> fst l \<in> set buckets) ls"
      "length ?found + length ls \<le> limit" "w' = (if repair then remove_all api ls ?w else ?w)"
      "\<forall>found' r'. res = Inr (found', r') \<longrightarrow> found' = ?found @ map storage_orphan ls \<and>
         r' = (if repair then (if repair then r + length new else r) + length ls else (if repair then r + length new else r))"
      using Cons.IH [of ?w ?found] Cons.prems(1) unfolding db by blast
    have "remove_all api (new @ ls) w = remove_all api ls (remove_all api new w)" for w
      by (induction api new w rule: remove_all.induct) simp_all
    with ls new show ?thesis
      by (intro exI [of _ "new @ ls"]) (auto simp: list_all_iff)
  qed
qed (intro exI [of _ "[]"], auto)

lemma reconcile_effect:
  assumes laws: "storage_laws api view"
    and run: "reconcile_orphans api w now buckets grace limit repair = (res, w')"
  shows "w_db w' = w_db w \<and>
    (\<forall>l. owned (w_db w) now l \<or> \<not> repair \<or> fst l \<notin> set buckets \<longrightarrow> view (w_sto w') l = view (w_sto w) l) \<and>
    (\<forall>report. res = Inr report \<longrightarrow>
       rep_storage_orphan_count report \<le> limit \<and> rep_repaired report = (if repair then rep_storage_orphan_count report else 0) \<and>
       (\<exists>ls. rep_storage_orphans report = map storage_orphan ls \<and>
          list_all (\<lambda>l. \<not> owned (w_db w) now l \<and> fst l \<in> set buckets) ls))"
proof -
  obtain r where sweep: "scan_buckets api (pending_keys (w_db w) now) limit repair buckets ([], 0, w) = (r, w')"
    and res: "\<And>report. res = Inr report \<Longrightarrow> r = Inr (rep_storage_orphans report, rep_repaired report) \<and>
       rep_storage_orphan_count report = length (rep_storage_orphans report)"
    using run by (auto simp: reconcile_orphans_def find_storage_orphans_def Let_def split: prod.splits sum.splits)
  have "\<exists>ls. list_all (\<lambda>l. \<not> owned (w_db w) now l \<and> fst l \<in> set buckets) ls \<and> length ls \<le> limit \<and>
      w' = (if repair then remove_all api ls w else w) \<and>
      (\<forall>found' r'. r = Inr (found', r') \<longrightarrow> found' = map storage_orphan ls \<and> r' = (if repair then length ls else 0))"
    using scan_buckets_effect [OF refl _ sweep]
    unfolding list.size(3) append_Nil add_0 by blast
  then obtain ls where ls:
    "list_all (\<lambda>l. \<not> owned (w_db w) now l \<and> fst l \<in> set buckets) ls" "length ls \<le> limit"
    "w' = (if repair then remove_all api ls w else w)"
    "\<forall>found' r'. r = Inr (found', r') \<longrightarrow> found' = map storage_orphan ls \<and> r' = (if repair then length ls else 0)"
    by (elim exE conjE)
  have "view (w_sto w') l = view (w_sto w) l" if "owned (w_db w) now l \<or> \<not> repair \<or> fst l \<notin> set buckets" for l
    using that ls(1,3) remove_all_bytes [OF laws, of l ls w] by (auto simp: list_all_iff)
  with ls res show ?thesis by auto
qed

text \<open>
  C17. Reconciliation never writes a row, and it removes stored bytes only under \<open>repair\<close>
  and only at locations no object row, no open upload session and no live export accounts
  for: the bytes of every object, deleted ones included, of every upload on its way in and of
  every collectable export survive any sweep, completed or broken off. A report names only
  unowned locations of the swept buckets, at most the limit, and as many repairs as it made.
\<close>

theorem reconcile_spares_owned:
  assumes laws: "storage_laws api view"
    and run: "reconcile_orphans api w now buckets grace limit repair = (res, w')"
  shows "w_db w' = w_db w \<and>
    (\<forall>l. owned (w_db w) now l \<or> \<not> repair \<or> fst l \<notin> set buckets \<longrightarrow> view (w_sto w') l = view (w_sto w) l) \<and>
    (\<forall>report. res = Inr report \<longrightarrow>
       rep_storage_orphan_count report \<le> limit \<and> rep_repaired report = (if repair then rep_storage_orphan_count report else 0) \<and>
       (\<exists>ls. rep_storage_orphans report = map storage_orphan ls \<and>
          list_all (\<lambda>l. \<not> owned (w_db w) now l \<and> fst l \<in> set buckets) ls))"
  using reconcile_effect [OF laws run] .

text \<open>A report-only sweep reports the unowned keys of the buckets in listing order, cut at the limit.\<close>

lemma report_only_exact:
  assumes "pending = pending_keys (w_db w) now" and "length found \<le> limit"
  shows "list_all (\<lambda>b. api_list api (w_sto w) b \<noteq> None) buckets \<Longrightarrow>
    scan_buckets api pending limit False buckets (map storage_orphan found, r, w) =
      (Inr (map storage_orphan (take limit
         (found @ concat (map (\<lambda>b. unowned_keys (w_db w) now b (the (api_list api (w_sto w) b))) buckets))), r), w)"
  using assms(2)
proof (induction buckets arbitrary: found)
  case (Cons b buckets)
  then obtain keys where k: "api_list api (w_sto w) b = Some keys" by auto
  let ?new = "take (limit - length found) (unowned_keys (w_db w) now b keys)"
  have "scan_buckets api pending limit False (b # buckets) (map storage_orphan found, r, w) =
      scan_buckets api pending limit False buckets (map storage_orphan (found @ ?new), r, w)"
    by (simp add: k scan_keys_closed [OF assms(1)] Let_def)
  also have "length (found @ ?new) \<le> limit" using Cons.prems(2) by simp
  note Cons.IH [OF _ this]
  finally show ?case using Cons.prems by (auto simp: k take_append min_def)
qed simp

section \<open>Variant bytes are not owned\<close>

text \<open>
  Only object rows, upload sessions and exports are consulted: the bytes of a registered
  variant of a live object count as an orphan, and a repair removes them while the variant's
  row stays.
\<close>

definition listing_api :: "ustr list \<Rightarrow> (location \<Rightarrow> blob option) storage_api" where
  "listing_api keys = (mem_api True)\<lparr>api_list := (\<lambda>s b. Some (filter (\<lambda>k. s (b, k) \<noteq> None) keys))\<rparr>"

lemma listing_api_laws: "storage_laws (listing_api keys) (\<lambda>s. s)"
  using mem_api_laws [of True] by (simp add: storage_laws_def listing_api_def)

definition demo_variant :: media_variant where
  "demo_variant = \<lparr>mv_id = 8, mv_media_object_id = 5, mv_variant_name = u ''thumb'', mv_storage_bucket = ''private-media'',
     mv_object_key = u ''v'', mv_width = Some 64, mv_height = None, mv_size_bytes = 2, mv_format = ''webp'', mv_created_at = 0\<rparr>"

definition demo_variant_world :: "(location \<Rightarrow> blob option) world" where
  "demo_variant_world = \<lparr>w_db = empty_db\<lparr>db_objects := [demo_object], db_variants := [demo_variant]\<rparr>,
     w_sto = [(''private-media'', u ''v'') \<mapsto> [1, 2]], w_metrics = []\<rparr>"

lemma repair_removes_variant_bytes:
  "let w' = snd (reconcile_orphans (listing_api [u ''v'']) demo_variant_world 0 [''private-media''] 0 10 True) in
     db_variants (w_db w') = [demo_variant] \<and> db_objects (w_db w') = [demo_object] \<and> mo_deleted_at demo_object = None \<and>
     w_sto demo_variant_world (''private-media'', u ''v'') = Some [1, 2] \<and> w_sto w' (''private-media'', u ''v'') = None"
proof -
  have "mo_object_key demo_object \<noteq> u ''v''" by (simp add: demo_object_def u_def)
  then show ?thesis
    by (simp add: reconcile_orphans_def find_storage_orphans_def demo_variant_world_def pending_keys_def live_export_keys_def
        empty_db_def listing_api_def row_at_def best_effort_remove_def mem_api_def demo_object_def Let_def)
qed

section \<open>Concrete runs\<close>

definition demo_purge_world :: "(location \<Rightarrow> blob option) world" where
  "demo_purge_world = demo_variant_world\<lparr>w_db := (w_db demo_variant_world)\<lparr>
     db_objects := [demo_object\<lparr>mo_status := OBJ_DELETED, mo_deleted_at := Some 5\<rparr>]\<rparr>\<rparr>"

theorem hard_purge_exact_witness:
  "let w' = snd (hard_purge_expired (mem_api True) demo_purge_world 100 10 3) in
     db_objects (w_db w') = [] \<and> db_variants (w_db w') = [] \<and> w_sto w' (''private-media'', u ''v'') = None"
proof -
  have "ids_unique (w_db demo_purge_world)"
    by (simp add: ids_unique_def demo_purge_world_def demo_variant_world_def empty_db_def)
  note all = hard_purge_exact [OF mem_api_laws [of True] this surjective_pairing, of 100 10 3, unfolded Let_def]
  have gone: "purge_candidates (w_db demo_purge_world) (100 - 10) 3 = db_objects (w_db demo_purge_world)"
    by (simp add: purge_candidates_def demo_purge_world_def expired_deletion_def)
  have "(''private-media'', u ''v'') \<in> set (concat (map (object_locations (w_db demo_purge_world)) (db_objects (w_db demo_purge_world))))"
    by (simp add: object_locations_def demo_purge_world_def demo_variant_world_def demo_variant_def demo_object_def)
  with all have "w_sto (snd (hard_purge_expired (mem_api True) demo_purge_world 100 10 3)) (''private-media'', u ''v'') = None"
    unfolding gone by (elim conjE) (simp only: mem_api_refuses empty_iff simp_thms)
  with all [THEN conjunct2, THEN conjunct2, THEN conjunct1] gone show ?thesis
    by (simp add: Let_def forget_def demo_purge_world_def demo_variant_world_def demo_variant_def demo_object_def)
qed

theorem reconcile_spares_owned_witness:
  "w_sto (snd (reconcile_orphans (listing_api [u ''k'', u ''v'']) (demo_variant_world\<lparr>w_sto := \<lambda>_. Some [7]\<rparr>) 0
     [''private-media''] 0 10 True)) (''private-media'', u ''k'') = Some [7]"
proof -
  let ?w = "demo_variant_world\<lparr>w_sto := \<lambda>_. Some [7]\<rparr>"
  have own: "owned (w_db ?w) 0 (''private-media'', u ''k'')"
    by (simp add: owned_def row_at_def demo_variant_world_def demo_object_def)
  have "(\<lambda>s. s) (w_sto (snd (reconcile_orphans (listing_api [u ''k'', u ''v'']) ?w 0 [''private-media''] 0 10 True)))
      (''private-media'', u ''k'') = (\<lambda>s. s) (w_sto ?w) (''private-media'', u ''k'')"
    using reconcile_spares_owned [OF listing_api_laws surjective_pairing, of "[u ''k'', u ''v'']" ?w 0 "[''private-media'']" 0 10 True] own
    by blast
  then show ?thesis by simp
qed

end
