(* ===== verification/TransferExport.thy ===== *)
theory TransferExport
  imports Maintenance ObjectAccess
begin

text \<open>
  \<open>controllers/transfer.py\<close> and the export half of \<open>schemas/transfer.py\<close> and
  \<open>app/routes/transfer.py\<close>: manifest exports, archive export jobs and their lifecycle.
  Pydantic's rendering of one tree node and of one entry is a parameter, and so is the
  queue (whether the enqueue got through). A queued job's JSON snapshot of its filters,
  which nothing reads back, is left out.
\<close>

section \<open>Schemas\<close>

datatype transfer_format = FMT_manifest | FMT_archive

record export_request =
  xr_format :: transfer_format
  xr_filters :: "object_list_params option"

record manifest_object_entry =
  me_id :: uuid
  me_filename :: "ustr option"
  me_category :: media_category
  me_category_paths :: "ustr list"
  me_visibility :: media_visibility
  me_size_bytes :: int
  me_sha256 :: "string option"
  me_mime_type :: string
  me_status :: media_object_status
  me_scan_status :: scan_status
  me_created_at :: datetime
  me_updated_at :: datetime

record export_job_public =
  xp_id :: uuid
  xp_status :: job_status
  xp_object_count :: int
  xp_total_size_bytes :: int
  xp_size_bytes :: "int option"
  xp_expires_at :: "datetime option"
  xp_error :: "ustr option"
  xp_created_at :: datetime
  xp_updated_at :: datetime
  xp_download_url :: "ustr option"

definition job_public :: "export_job \<Rightarrow> export_job_public" where
  "job_public job = \<lparr>xp_id = ej_id job, xp_status = ej_status job, xp_object_count = ej_object_count job,
     xp_total_size_bytes = ej_total_size_bytes job, xp_size_bytes = ej_size_bytes job, xp_expires_at = ej_expires_at job,
     xp_error = ej_error job, xp_created_at = ej_created_at job, xp_updated_at = ej_updated_at job, xp_download_url = None\<rparr>"

record export_job_update =
  eu_status :: job_status
  eu_storage_bucket :: "string option"
  eu_object_key :: "ustr option"
  eu_size_bytes :: "int option"
  eu_download_url :: "ustr option"
  eu_error :: "ustr option"

text \<open>The field bounds and \<open>_require_status_fields\<close>; \<open>within_length\<close> is \<open>min_length\<close>/\<open>max_length\<close>.\<close>

definition within_length :: "nat \<Rightarrow> 'a list option \<Rightarrow> bool" where
  "within_length n x = (case x of None \<Rightarrow> True | Some xs \<Rightarrow> 1 \<le> length xs \<and> length xs \<le> n)"

definition export_update_valid :: "export_job_update \<Rightarrow> bool" where
  "export_update_valid body \<longleftrightarrow> eu_status body \<noteq> JOB_QUEUED \<and>
     within_length 63 (eu_storage_bucket body) \<and> within_length 1024 (eu_object_key body) \<and>
     (case eu_size_bytes body of None \<Rightarrow> True | Some n \<Rightarrow> 0 \<le> n) \<and>
     within_length 4096 (eu_download_url body) \<and> within_length 500 (eu_error body) \<and>
     (eu_status body = JOB_COMPLETED \<longrightarrow> eu_storage_bucket body \<noteq> None \<and> eu_object_key body \<noteq> None \<and>
        eu_size_bytes body \<noteq> None \<and> eu_download_url body \<noteq> None) \<and>
     (eu_status body = JOB_FAILED \<longrightarrow> eu_error body \<noteq> None)"

section \<open>Selecting the collection\<close>

definition default_list_params :: object_list_params where
  "default_list_params = \<lparr>lp_category = None, lp_visibility = None, lp_status = None, lp_mime_prefix = None,
     lp_created_from = None, lp_created_to = None, lp_q = None, lp_sort_by = SORT_original_filename,
     lp_descending = False, lp_limit = 50, lp_cursor = None, lp_owner_user_id = None, lp_include_deleted = False,
     lp_category_id = None, lp_include_descendants = True, lp_uncategorized = False\<rparr>"

definition resolved_filters :: "object_list_params option \<Rightarrow> object_list_params" where
  "resolved_filters filters = (case filters of Some f \<Rightarrow> f | None \<Rightarrow> default_list_params)"

definition export_statement ::
  "text_db \<Rightarrow> database \<Rightarrow> principal \<Rightarrow> object_list_params \<Rightarrow> media_object list result" where
  "export_statement td db current_user params =
     apply_category_filter db (Some current_user) params
       (apply_filters td params (scoped_objects params (Some current_user) (db_objects db)))"

definition with_bytes_only :: "media_object list \<Rightarrow> media_object list" where
  "with_bytes_only rows =
     filter (\<lambda>obj. mo_scan_status obj = SCAN_CLEAN \<and> mo_status obj = OBJ_READY \<and> mo_deleted_at obj = None) rows"

section \<open>The manifest\<close>

record manifest_codec =
  mc_node :: "category_node \<Rightarrow> ustr"                 \<comment> \<open>\<open>node.model_dump_json()\<close>\<close>
  mc_entry :: "manifest_object_entry \<Rightarrow> ustr"        \<comment> \<open>\<open>entry.model_dump_json()\<close>\<close>

definition manifest_objects :: "text_db \<Rightarrow> database \<Rightarrow> principal \<Rightarrow> object_list_params \<Rightarrow> media_object list result" where
  "manifest_objects td db current_user params =
     (case export_statement td db current_user params of
        Inl e \<Rightarrow> Inl e
      | Inr rows \<Rightarrow> Inr (sort_key mo_id rows))"

definition manifest_entry :: "media_object \<Rightarrow> ustr list \<Rightarrow> manifest_object_entry" where
  "manifest_entry obj category_paths = \<lparr>me_id = mo_id obj, me_filename = mo_original_filename obj,
     me_category = mo_category obj, me_category_paths = category_paths, me_visibility = mo_visibility obj,
     me_size_bytes = mo_size_bytes obj, me_sha256 = mo_sha256 obj, me_mime_type = mo_mime_type obj,
     me_status = mo_status obj, me_scan_status = mo_scan_status obj, me_created_at = mo_created_at obj,
     me_updated_at = mo_updated_at obj\<rparr>"

text \<open>\<open>",".join(...)\<close>.\<close>

definition category_tree_json :: "unicode_db \<Rightarrow> manifest_codec \<Rightarrow> database \<Rightarrow> principal \<Rightarrow> ustr" where
  "category_tree_json U mc db current_user =
     u ''['' @ join_with 44 (map (mc_node mc) (fst (get_category_tree U db current_user))) @ u '']''"

fun stream_entries :: "manifest_codec \<Rightarrow> (uuid \<Rightarrow> category_ref list) \<Rightarrow> media_object list \<Rightarrow> bool \<Rightarrow> ustr list" where
  "stream_entries mc refs [] is_first = []"
| "stream_entries mc refs (obj # objs) is_first =
     ((if is_first then [] else u '','') @ mc_entry mc (manifest_entry obj (map cr_path (refs (mo_id obj)))))
       # stream_entries mc refs objs False"

definition stream_manifest ::
  "manifest_codec \<Rightarrow> ustr \<Rightarrow> media_object list \<Rightarrow> (uuid \<Rightarrow> category_ref list) \<Rightarrow> ustr list" where
  "stream_manifest mc tree_json objs refs_by_object =
     (123 # 34 # u ''category_tree'' @ 34 # 58 # tree_json @ 44 # 34 # u ''objects'' @ 34 # 58 # u ''['')
       # stream_entries mc refs_by_object objs True @ [u '']'' @ [125]]"

definition build_manifest_stream ::
  "unicode_db \<Rightarrow> text_db \<Rightarrow> manifest_codec \<Rightarrow> database \<Rightarrow> principal \<Rightarrow> object_list_params \<Rightarrow> ustr list result" where
  "build_manifest_stream U td mc db current_user params =
     (case manifest_objects td db current_user params of
        Inl e \<Rightarrow> Inl e
      | Inr objs \<Rightarrow> Inr (stream_manifest mc (category_tree_json U mc db current_user) objs
          (category_refs_by_object db (Some current_user) (map mo_id objs))))"

definition export_manifest ::
  "unicode_db \<Rightarrow> text_db \<Rightarrow> manifest_codec \<Rightarrow> database \<Rightarrow> principal \<Rightarrow> object_list_params option \<Rightarrow> ustr list result" where
  "export_manifest U td mc db current_user filters = build_manifest_stream U td mc db current_user (resolved_filters filters)"

section \<open>Archive jobs\<close>

definition export_totals :: "media_object list \<Rightarrow> int \<times> int" where
  "export_totals rows = (int (length rows), sum_list (map mo_size_bytes (with_bytes_only rows)))"

definition assert_within_export_ceilings :: "settings \<Rightarrow> int \<Rightarrow> int \<Rightarrow> unit result" where
  "assert_within_export_ceilings cfg matched total_bytes =
     (if matched > MEDIA_EXPORT_MAX_OBJECTS cfg
      then Inl (Http 422 (DTextU (u ''Archive export matches '' @ str_int matched @ u '' objects, above the '' @
        str_int (MEDIA_EXPORT_MAX_OBJECTS cfg) @ u '' ceiling; narrow the filters.'')))
      else if total_bytes > MEDIA_EXPORT_MAX_TOTAL_BYTES cfg
      then Inl (Http 422 (DTextU (u ''Archive export would carry '' @ str_int total_bytes @ u '' bytes, above the '' @
        str_int (MEDIA_EXPORT_MAX_TOTAL_BYTES cfg) @ u '' ceiling; narrow the filters.'')))
      else Inr ())"

definition export_active :: "export_job \<Rightarrow> bool" where
  "export_active job \<longleftrightarrow> ej_status job = JOB_QUEUED \<or> ej_status job = JOB_PROCESSING"

definition active_export_job :: "database \<Rightarrow> uuid \<Rightarrow> export_job option" where
  "active_export_job db owner = find (\<lambda>j. ej_owner_user_id j = owner \<and> export_active j) (db_export_jobs db)"

definition load_export_job :: "database \<Rightarrow> principal \<Rightarrow> uuid \<Rightarrow> export_job result" where
  "load_export_job db current_user job_id =
     (case tbl_get ej_id (db_export_jobs db) job_id of
        None \<Rightarrow> Inl (Http 404 (DText ''Export job not found.''))
      | Some job \<Rightarrow>
          if \<not> p_superuser current_user \<and> ej_owner_user_id job \<noteq> p_id current_user
          then Inl (Http 403 (DText ''Not enough permissions.'')) else Inr job)"

definition archive_is_expired :: "export_job \<Rightarrow> datetime \<Rightarrow> bool" where
  "archive_is_expired job now = (case ej_expires_at job of None \<Rightarrow> False | Some t \<Rightarrow> t \<le> now)"

record archive_entry =
  ae_object_id :: uuid
  ae_source_bucket :: string
  ae_source_object_key :: ustr
  ae_archive_path :: ustr
  ae_size_bytes :: int

record export_payload =
  xl_job_id :: uuid
  xl_manifest_json :: ustr
  xl_objects :: "archive_entry list"
  xl_target_bucket :: string
  xl_target_object_key :: ustr
  xl_stream_chunk_size :: int
  xl_presigned_expire_seconds :: int

definition archive_payload ::
  "unicode_db \<Rightarrow> text_db \<Rightarrow> manifest_codec \<Rightarrow> settings \<Rightarrow> database \<Rightarrow> principal \<Rightarrow> object_list_params \<Rightarrow> export_job \<Rightarrow>
   export_payload result" where
  "archive_payload U td mc cfg db current_user params job =
     (case export_statement td db current_user params of
        Inl e \<Rightarrow> Inl e
      | Inr rows \<Rightarrow>
          (let entries = map (\<lambda>obj. \<lparr>ae_object_id = mo_id obj, ae_source_bucket = mo_storage_bucket obj,
                 ae_source_object_key = mo_object_key obj, ae_archive_path = archive_entry_name obj,
                 ae_size_bytes = mo_size_bytes obj\<rparr>) (sort_key mo_id (with_bytes_only rows))
           in case build_manifest_stream U td mc db current_user params of
                Inl e \<Rightarrow> Inl e
              | Inr chunks \<Rightarrow> Inr \<lparr>xl_job_id = ej_id job, xl_manifest_json = concat chunks, xl_objects = entries,
                  xl_target_bucket = bucket_for_storage_class cfg SC_TEMP,
                  xl_target_object_key = build_export_archive_key (ej_owner_user_id job) (ej_id job) (ej_tenant_id job),
                  xl_stream_chunk_size = MEDIA_EXPORT_STREAM_CHUNK_SIZE cfg,
                  xl_presigned_expire_seconds = S3_PRESIGNED_URL_EXPIRE_SECONDS cfg\<rparr>))"

definition start_archive_export ::
  "unicode_db \<Rightarrow> text_db \<Rightarrow> manifest_codec \<Rightarrow> settings \<Rightarrow> database \<Rightarrow> principal \<Rightarrow> object_list_params option \<Rightarrow> uuid \<Rightarrow>
   datetime \<Rightarrow> (export_job_public \<times> export_payload) result \<times> database" where
  "start_archive_export U td mc cfg db current_user filters fresh now =
     (let params = resolved_filters filters
      in if active_export_job db (p_id current_user) \<noteq> None
         then (Inl (Http 409 (DText ''An archive export is already in progress; collect or wait for it before starting another.'')), db)
         else case export_statement td db current_user params of
           Inl e \<Rightarrow> (Inl e, db)
         | Inr rows \<Rightarrow>
             (let (matched, total_bytes) = export_totals rows
              in case assert_within_export_ceilings cfg matched total_bytes of
                   Inl e \<Rightarrow> (Inl e, db)
                 | Inr _ \<Rightarrow>
                     (let job = \<lparr>ej_id = fresh, ej_owner_user_id = p_id current_user, ej_tenant_id = user_tenant_id current_user,
                            ej_is_superuser = p_superuser current_user, ej_status = JOB_QUEUED, ej_object_count = matched,
                            ej_total_size_bytes = total_bytes, ej_storage_bucket = None, ej_object_key = None,
                            ej_size_bytes = None, ej_expires_at = None, ej_error = None, ej_created_at = now, ej_updated_at = now\<rparr>
                      in case archive_payload U td mc cfg db current_user params job of
                           Inl e \<Rightarrow> (Inl e, db)
                         | Inr payload \<Rightarrow>
                             (case tbl_insert ej_id (db_export_jobs db) job of
                                None \<Rightarrow> (Inl (Raised ''IntegrityError''), db)
                              | Some rows' \<Rightarrow> (Inr (job_public job, payload), db\<lparr>db_export_jobs := rows'\<rparr>)))))"

definition put_job :: "database \<Rightarrow> export_job \<Rightarrow> database" where
  "put_job db job = db\<lparr>db_export_jobs := tbl_put ej_id (db_export_jobs db) job\<rparr>"

definition fail_unqueued_export :: "database \<Rightarrow> uuid \<Rightarrow> datetime \<Rightarrow> database" where
  "fail_unqueued_export db job_id now =
     (case tbl_get ej_id (db_export_jobs db) job_id of
        None \<Rightarrow> db
      | Some job \<Rightarrow>
          if ej_status job \<noteq> JOB_QUEUED then db
          else put_job db (job\<lparr>ej_status := JOB_FAILED, ej_error := Some (u ''Export could not be queued.''), ej_updated_at := now\<rparr>))"

text \<open>What a callback makes of a job row; \<open>updated_at\<close> is stamped afterwards.\<close>

definition callback_row :: "settings \<Rightarrow> export_job \<Rightarrow> export_job_update \<Rightarrow> datetime \<Rightarrow> export_job result" where
  "callback_row cfg job body now =
     (let terminal = Inl (Http 409 (DText ''Export job is already terminal.''))
      in if eu_status body = JOB_PROCESSING
         then (if ej_status job = JOB_QUEUED then Inr (job\<lparr>ej_status := JOB_PROCESSING\<rparr>)
               else if ej_status job \<noteq> JOB_PROCESSING then terminal else Inr job)
         else if eu_status body = JOB_FAILED
         then (if export_active job then Inr (job\<lparr>ej_status := JOB_FAILED, ej_error := eu_error body\<rparr>)
               else if ej_status job \<noteq> JOB_FAILED then terminal else Inr job)
         else if eu_storage_bucket body \<noteq> Some (bucket_for_storage_class cfg SC_TEMP) \<or>
            eu_object_key body \<noteq> Some (build_export_archive_key (ej_owner_user_id job) (ej_id job) (ej_tenant_id job))
         then Inl (Http 422 (DText ''Export result location does not match the commissioned job.''))
         else if export_active job
         then Inr (job\<lparr>ej_status := JOB_COMPLETED, ej_storage_bucket := eu_storage_bucket body,
                 ej_object_key := eu_object_key body, ej_size_bytes := eu_size_bytes body,
                 ej_expires_at := Some (now + seconds (MEDIA_EXPORT_ARCHIVE_TTL_SECONDS cfg))\<rparr>)
         else if ej_status job \<noteq> JOB_COMPLETED then terminal else Inr job)"

definition update_export_job ::
  "settings \<Rightarrow> database \<Rightarrow> uuid \<Rightarrow> export_job_update \<Rightarrow> datetime \<Rightarrow> export_job_public result \<times> database" where
  "update_export_job cfg db job_id body now =
     (case tbl_get ej_id (db_export_jobs db) job_id of
        None \<Rightarrow> (Inl (Http 404 (DText ''Export job not found.'')), db)
      | Some job \<Rightarrow>
          (case callback_row cfg job body now of
             Inl e \<Rightarrow> (Inl e, db)
           | Inr row \<Rightarrow> (let row' = row\<lparr>ej_updated_at := now\<rparr> in (Inr (job_public row'), put_job db row'))))"

definition get_export_job ::
  "settings \<Rightarrow> 's storage_api \<Rightarrow> database \<Rightarrow> principal \<Rightarrow> uuid \<Rightarrow> datetime \<Rightarrow> export_job_public result" where
  "get_export_job cfg api db current_user job_id now =
     (case load_export_job db current_user job_id of
        Inl e \<Rightarrow> Inl e
      | Inr job \<Rightarrow>
          (case (ej_status job, ej_storage_bucket job) of
             (JOB_COMPLETED, Some bucket) \<Rightarrow>
               if archive_is_expired job now
               then Inl (Http 410 (DText ''The exported archive has expired; start a new export.''))
               else (case create_download_url api bucket (case ej_object_key job of None \<Rightarrow> u ''None'' | Some k \<Rightarrow> k)
                         (S3_PRESIGNED_URL_EXPIRE_SECONDS cfg) (Some (u ''export-'' @ uuid_str (ej_id job) @ u ''.zip'')) of
                       Inl e \<Rightarrow> Inl e
                     | Inr url \<Rightarrow> Inr ((job_public job)\<lparr>xp_download_url := Some url\<rparr>))
           | _ \<Rightarrow> Inr (job_public job)))"

text \<open>The route: an archive whose enqueue fails is settled as failed before the 503.\<close>

datatype export_answer = Accepted export_job_public | Streaming "ustr list"

definition export_media ::
  "unicode_db \<Rightarrow> text_db \<Rightarrow> manifest_codec \<Rightarrow> settings \<Rightarrow> (export_payload \<Rightarrow> bool) \<Rightarrow> database \<Rightarrow> principal \<Rightarrow> export_request \<Rightarrow>
   uuid \<Rightarrow> datetime \<Rightarrow> export_answer result \<times> database" where
  "export_media U td mc cfg enqueue db current_user body fresh now =
     (case xr_format body of
        FMT_archive \<Rightarrow>
          (case start_archive_export U td mc cfg db current_user (xr_filters body) fresh now of
             (Inl e, db') \<Rightarrow> (Inl e, db')
           | (Inr (job, payload), db') \<Rightarrow>
               if enqueue payload then (Inr (Accepted job), db')
               else (Inl (Http 503 (DText ''Export could not be queued; try again shortly.'')),
                     fail_unqueued_export db' (xp_id job) now))
      | FMT_manifest \<Rightarrow>
          (case export_manifest U td mc db current_user (xr_filters body) of
             Inl e \<Rightarrow> (Inl e, db) | Inr chunks \<Rightarrow> (Inr (Streaming chunks), db)))"

section \<open>What an archive carries\<close>

lemma export_statement_rows:
  assumes "export_statement td db p params = Inr rows"
  shows "set rows \<subseteq> {obj \<in> set (db_objects db). may_list params (Some p) obj}"
    and "distinct (map mo_id (db_objects db)) \<Longrightarrow> distinct (map mo_id rows)"
proof -
  note a = assms [unfolded export_statement_def]
  show "set rows \<subseteq> {obj \<in> set (db_objects db). may_list params (Some p) obj}"
    using apply_category_filter_subset [OF a] apply_filters_subset [of td params] object_scope.listing_iff by blast
  show "distinct (map mo_id (db_objects db)) \<Longrightarrow> distinct (map mo_id rows)"
    by (rule apply_category_filter_distinct [OF a apply_filters_distinct [OF scoped_objects_distinct]])
qed

lemma start_archive_export_cases:
  assumes "start_archive_export U td mc cfg db p filters fresh now = (Inr (job, payload), db')"
  obtains rows row where "export_statement td db p (resolved_filters filters) = Inr rows"
    and "active_export_job db (p_id p) = None" and "tbl_get ej_id (db_export_jobs db) fresh = None"
    and "job = job_public row" and "ej_id row = fresh" "ej_owner_user_id row = p_id p" "ej_status row = JOB_QUEUED"
      "ej_storage_bucket row = None" "ej_object_key row = None" "ej_expires_at row = None"
    and "ej_object_count row = int (length rows)" "ej_total_size_bytes row = sum_list (map mo_size_bytes (with_bytes_only rows))"
    and "int (length rows) \<le> MEDIA_EXPORT_MAX_OBJECTS cfg"
      "sum_list (map mo_size_bytes (with_bytes_only rows)) \<le> MEDIA_EXPORT_MAX_TOTAL_BYTES cfg"
    and "xl_objects payload = map (\<lambda>obj. \<lparr>ae_object_id = mo_id obj, ae_source_bucket = mo_storage_bucket obj,
       ae_source_object_key = mo_object_key obj, ae_archive_path = archive_entry_name obj, ae_size_bytes = mo_size_bytes obj\<rparr>)
       (sort_key mo_id (with_bytes_only rows))"
    and "db' = db\<lparr>db_export_jobs := db_export_jobs db @ [row]\<rparr>"
  using assms
  by (auto simp: start_archive_export_def export_totals_def assert_within_export_ceilings_def archive_payload_def
      tbl_insert_def Let_def split: if_splits sum.splits)

text \<open>
  C19. An archive only carries bytes the caller could read and download: every entry is an
  object of the caller's listing scope that is READY, scanned CLEAN and not deleted, at the
  object's own location and under its own path in the archive, no path twice. The entries
  stay within both export ceilings, and the job row records exactly their bytes.
\<close>

theorem archive_carries_released_bytes:
  assumes ids: "distinct (map mo_id (db_objects db))"
    and start: "start_archive_export U td mc cfg db p filters fresh now = (Inr (job, payload), db')"
  shows "(\<forall>entry \<in> set (xl_objects payload). \<exists>obj \<in> set (db_objects db).
       require_visibility_access obj (Some p) = Inr () \<and> mo_scan_status obj = SCAN_CLEAN \<and> mo_status obj = OBJ_READY \<and>
       mo_deleted_at obj = None \<and> ae_object_id entry = mo_id obj \<and> ae_source_bucket entry = mo_storage_bucket obj \<and>
       ae_source_object_key entry = mo_object_key obj \<and> ae_archive_path entry = archive_entry_name obj) \<and>
    distinct (map ae_archive_path (xl_objects payload)) \<and>
    int (length (xl_objects payload)) \<le> MEDIA_EXPORT_MAX_OBJECTS cfg \<and>
    sum_list (map ae_size_bytes (xl_objects payload)) = xp_total_size_bytes job \<and>
    xp_total_size_bytes job \<le> MEDIA_EXPORT_MAX_TOTAL_BYTES cfg"
  using start
proof (rule start_archive_export_cases)
  fix rows row
  let ?rows = "with_bytes_only rows"
  assume stmt: "export_statement td db p (resolved_filters filters) = Inr rows"
    and job: "job = job_public row" "ej_total_size_bytes row = sum_list (map mo_size_bytes ?rows)"
    and max: "int (length rows) \<le> MEDIA_EXPORT_MAX_OBJECTS cfg" "sum_list (map mo_size_bytes ?rows) \<le> MEDIA_EXPORT_MAX_TOTAL_BYTES cfg"
    and entries: "xl_objects payload = map (\<lambda>obj. \<lparr>ae_object_id = mo_id obj, ae_source_bucket = mo_storage_bucket obj,
       ae_source_object_key = mo_object_key obj, ae_archive_path = archive_entry_name obj, ae_size_bytes = mo_size_bytes obj\<rparr>)
       (sort_key mo_id ?rows)"
  note rows = export_statement_rows(1) [OF stmt]
  have d: "distinct (map mo_id ?rows)"
    using export_statement_rows(2) [OF stmt ids] by (simp add: with_bytes_only_def distinct_map_filter)
  have "inj_on archive_entry_name (set ?rows)"
  proof (rule inj_onI)
    fix a b assume ab: "a \<in> set ?rows" "b \<in> set ?rows" "archive_entry_name a = archive_entry_name b"
    from ab(3) have "uuid_str (mo_id a) = uuid_str (mo_id b)" using archive_entry_parts [of a] archive_entry_parts [of b] by simp
    then have "mo_id a = mo_id b" by (rule uuid_str_inj)
    with d ab(1,2) show "a = b" by (auto simp: distinct_map inj_on_def)
  qed
  then have paths: "distinct (map archive_entry_name (sort_key mo_id ?rows))"
    using d by (auto simp: distinct_map)
  have "mset (map mo_size_bytes (sort_key mo_id ?rows)) = mset (map mo_size_bytes ?rows)" by simp
  then have total: "sum_list (map mo_size_bytes (sort_key mo_id ?rows)) = sum_list (map mo_size_bytes ?rows)"
    by (metis sum_mset_sum_list)
  have "length ?rows \<le> length rows" by (simp add: with_bytes_only_def)
  then have len: "int (length ?rows) \<le> MEDIA_EXPORT_MAX_OBJECTS cfg" using max(1) by simp
  have "obj \<in> set (db_objects db) \<and> require_visibility_access obj (Some p) = Inr () \<and> mo_scan_status obj = SCAN_CLEAN \<and>
      mo_status obj = OBJ_READY \<and> mo_deleted_at obj = None" if "obj \<in> set ?rows" for obj
    using that rows by (auto simp: with_bytes_only_def may_list_def)
  then show ?thesis
    using paths total len max(2) by (auto simp: entries job job_public_def comp_def)
qed

section \<open>The life of an export job\<close>

text \<open>A completed job has its commissioned location and a deadline, every other has neither.\<close>

definition job_wf :: "settings \<Rightarrow> export_job \<Rightarrow> bool" where
  "job_wf cfg job \<longleftrightarrow>
     (if ej_status job = JOB_COMPLETED
      then ej_storage_bucket job = Some (bucket_for_storage_class cfg SC_TEMP) \<and>
           ej_object_key job = Some (build_export_archive_key (ej_owner_user_id job) (ej_id job) (ej_tenant_id job)) \<and>
           ej_expires_at job \<noteq> None
      else ej_storage_bucket job = None \<and> ej_object_key job = None \<and> ej_expires_at job = None)"

definition jobs_wf :: "settings \<Rightarrow> export_job list \<Rightarrow> bool" where
  "jobs_wf cfg jobs \<longleftrightarrow> distinct (map ej_id jobs) \<and> list_all (job_wf cfg) jobs \<and>
     distinct (map ej_owner_user_id (filter export_active jobs))"

text \<open>One write to a row: a terminal job keeps everything but its time stamp.\<close>

definition job_move :: "settings \<Rightarrow> export_job \<Rightarrow> export_job \<Rightarrow> bool" where
  "job_move cfg job row \<longleftrightarrow> ej_id row = ej_id job \<and> ej_owner_user_id row = ej_owner_user_id job \<and>
     (job_wf cfg job \<longrightarrow> job_wf cfg row) \<and> (export_active row \<longrightarrow> export_active job) \<and>
     (\<not> export_active job \<longrightarrow> row = job\<lparr>ej_updated_at := ej_updated_at row\<rparr>)"

inductive jobs_change :: "settings \<Rightarrow> export_job list \<Rightarrow> export_job list \<Rightarrow> bool" for cfg where
  same: "jobs_change cfg jobs jobs"
| queued: "tbl_get ej_id jobs (ej_id row) = None \<Longrightarrow>
    find (\<lambda>j. ej_owner_user_id j = ej_owner_user_id row \<and> export_active j) jobs = None \<Longrightarrow>
    job_wf cfg row \<Longrightarrow> export_active row \<Longrightarrow> jobs_change cfg jobs (jobs @ [row])"
| moved: "tbl_get ej_id jobs (ej_id row) = Some job \<Longrightarrow> job_move cfg job row \<Longrightarrow>
    jobs_change cfg jobs (tbl_put ej_id jobs row)"

lemma start_changes_jobs:
  assumes "start_archive_export U td mc cfg db p filters fresh now = (r, db')"
  shows "jobs_change cfg (db_export_jobs db) (db_export_jobs db')"
proof (cases r)
  case (Inl e)
  with assms have "db' = db"
    by (auto simp: start_archive_export_def Let_def split: if_splits sum.splits option.splits prod.splits)
  then show ?thesis by (simp add: same)
next
  case (Inr x)
  obtain job payload where "x = (job, payload)" by fastforce
  with Inr assms have "start_archive_export U td mc cfg db p filters fresh now = (Inr (job, payload), db')" by simp
  then show ?thesis
  proof (rule start_archive_export_cases)
    fix row :: export_job
    assume row: "active_export_job db (p_id p) = None" "tbl_get ej_id (db_export_jobs db) fresh = None" "ej_id row = fresh"
      "ej_owner_user_id row = p_id p" "ej_status row = JOB_QUEUED" "ej_storage_bucket row = None" "ej_object_key row = None"
      "ej_expires_at row = None" "db' = db\<lparr>db_export_jobs := db_export_jobs db @ [row]\<rparr>"
    then have "jobs_change cfg (db_export_jobs db) (db_export_jobs db @ [row])"
      by (intro queued) (simp_all add: active_export_job_def job_wf_def export_active_def)
    then show ?thesis by (simp add: row(9))
  qed
qed

lemma fail_changes_jobs: "jobs_change cfg (db_export_jobs db) (db_export_jobs (fail_unqueued_export db job_id now))"
proof (cases "tbl_get ej_id (db_export_jobs db) job_id")
  case (Some job)
  let ?row = "job\<lparr>ej_status := JOB_FAILED, ej_error := Some (u ''Export could not be queued.''), ej_updated_at := now\<rparr>"
  have "job_move cfg job ?row" if "ej_status job = JOB_QUEUED"
    using that by (simp add: job_move_def job_wf_def export_active_def)
  then show ?thesis
    using Some tbl_get_key [OF Some] moved [of "db_export_jobs db" ?row job cfg]
    by (auto simp: fail_unqueued_export_def put_job_def same)
qed (simp add: fail_unqueued_export_def same)

lemma callback_moves:
  assumes "callback_row cfg job body now = Inr row" "eu_status body \<noteq> JOB_QUEUED"
  shows "job_move cfg job (row\<lparr>ej_updated_at := t\<rparr>)"
proof -
  have "row = job \<or> (export_active job \<and> ej_id row = ej_id job \<and> ej_owner_user_id row = ej_owner_user_id job \<and>
      (job_wf cfg job \<longrightarrow> job_wf cfg row))"
    using assms by (cases "eu_status body"; cases "ej_status job")
      (simp_all add: callback_row_def job_wf_def export_active_def split: if_splits, auto)
  then show ?thesis by (cases job) (auto simp: job_move_def job_wf_def export_active_def)
qed

lemma callback_changes_jobs:
  assumes "update_export_job cfg db job_id body now = (r, db')" and "export_update_valid body"
  shows "jobs_change cfg (db_export_jobs db) (db_export_jobs db')"
proof (cases "tbl_get ej_id (db_export_jobs db) job_id")
  case (Some job)
  show ?thesis
  proof (cases "callback_row cfg job body now")
    case (Inr row)
    have move: "job_move cfg job (row\<lparr>ej_updated_at := now\<rparr>)"
      using callback_moves [OF Inr] assms(2) by (simp add: export_update_valid_def)
    then have "ej_id row = job_id" using tbl_get_key [OF Some] by (simp add: job_move_def)
    then show ?thesis
      using assms(1) Some Inr moved [OF _ move, of "db_export_jobs db"]
      by (auto simp: update_export_job_def put_job_def Let_def)
  qed (use assms(1) Some in \<open>auto simp: update_export_job_def same\<close>)
qed (use assms(1) in \<open>auto simp: update_export_job_def same\<close>)

lemma put_filter_map:
  "tbl_get key xs (key r) = Some x \<Longrightarrow> distinct (map key xs) \<Longrightarrow> f r = f x \<Longrightarrow> (P r \<longrightarrow> P x) \<Longrightarrow>
   distinct (map f (filter P xs)) \<Longrightarrow> distinct (map f (filter P (tbl_put key xs r)))"
proof (induction xs)
  case (Cons y xs)
  show ?case
  proof (cases "key y = key r")
    case False
    have "f ` set (filter P (tbl_put key xs r)) \<subseteq> f ` set (filter P xs)"
      using Cons.prems False set_tbl_put_subset [of key xs r] by (fastforce dest: tbl_get_mem)
    then show ?thesis using Cons False by auto
  qed (use Cons.prems in \<open>auto split: if_splits\<close>)
qed simp

lemma jobs_change_wf:
  assumes "jobs_change cfg jobs jobs'" and "jobs_wf cfg jobs"
  shows "jobs_wf cfg jobs'"
  using assms
proof cases
  case (queued row)
  then show ?thesis using assms(2) by (auto simp: jobs_wf_def tbl_get_None find_None_iff)
next
  case (moved row job)
  have wf: "distinct (map ej_id jobs)" "list_all (job_wf cfg) jobs" "distinct (map ej_owner_user_id (filter export_active jobs))"
    using assms(2) by (simp_all add: jobs_wf_def)
  have "job_wf cfg row" using moved wf(2) tbl_get_mem [OF moved(2)] by (auto simp: job_move_def list_all_iff)
  then have "list_all (job_wf cfg) jobs'"
    using wf(2) set_tbl_put_subset [of ej_id jobs row] by (auto simp: moved(1) list_all_iff)
  moreover have "distinct (map ej_owner_user_id (filter export_active jobs'))"
    unfolding moved(1) using moved(3) by (intro put_filter_map [OF moved(2) wf(1) _ _ wf(3)]) (auto simp: job_move_def)
  ultimately show ?thesis using wf(1) by (simp add: jobs_wf_def moved(1) distinct_tbl_put)
qed simp

text \<open>What becomes of a row: it stays with its owner, and unless it is active it stays as it is.\<close>

definition job_kept :: "export_job \<Rightarrow> export_job \<Rightarrow> bool" where
  "job_kept job row \<longleftrightarrow> ej_id row = ej_id job \<and> ej_owner_user_id row = ej_owner_user_id job \<and>
     (\<not> export_active job \<longrightarrow> row = job\<lparr>ej_updated_at := ej_updated_at row\<rparr>)"

lemma job_kept_trans: "job_kept a b \<Longrightarrow> job_kept b c \<Longrightarrow> job_kept a c"
  by (cases a; cases b; cases c) (auto simp: job_kept_def export_active_def)

lemma jobs_change_kept:
  assumes "jobs_change cfg jobs jobs'" and "tbl_get ej_id jobs i = Some job"
  shows "\<exists>row. tbl_get ej_id jobs' i = Some row \<and> job_kept job row"
  using assms
proof cases
  case (moved row job')
  show ?thesis
  proof (cases "i = ej_id row")
    case True
    with moved assms(2) show ?thesis by (auto simp: table_simps job_kept_def job_move_def)
  qed (use moved assms(2) in \<open>auto simp: table_simps job_kept_def\<close>)
qed (auto simp: tbl_get_append job_kept_def assms(2))

text \<open>
  One step of the service as the export jobs see it: a request to start one (with whatever
  comes of its enqueue), a validated worker callback, or anything that leaves the jobs alone.
\<close>

inductive export_step ::
  "unicode_db \<Rightarrow> text_db \<Rightarrow> manifest_codec \<Rightarrow> settings \<Rightarrow> database \<Rightarrow> database \<Rightarrow> bool" for U td mc cfg where
  request: "export_media U td mc cfg enqueue db p body fresh now = (r, db') \<Longrightarrow> export_step U td mc cfg db db'"
| callback: "export_update_valid body \<Longrightarrow> update_export_job cfg db job_id body now = (r', db') \<Longrightarrow> export_step U td mc cfg db db'"
| elsewhere: "db_export_jobs db' = db_export_jobs db \<Longrightarrow> export_step U td mc cfg db db'"

lemma export_step_changes:
  assumes "export_step U td mc cfg db db'"
  shows "(jobs_change cfg)\<^sup>*\<^sup>* (db_export_jobs db) (db_export_jobs db')"
  using assms
proof cases
  case (request enqueue p body fresh now r)
  then consider "db' = db" | r' where "start_archive_export U td mc cfg db p (xr_filters body) fresh now = (r', db')"
    | r' db1 i where "start_archive_export U td mc cfg db p (xr_filters body) fresh now = (r', db1)"
        "db' = fail_unqueued_export db1 i now"
    by (auto simp: export_media_def split: transfer_format.splits sum.splits prod.splits if_splits)
  then show ?thesis
  proof cases
    case (3 r' db1 i)
    show ?thesis
      using start_changes_jobs [OF 3(1)] fail_changes_jobs [of cfg db1 i now] 3(2)
      by (metis (no_types) converse_rtranclp_into_rtranclp rtranclp.rtrancl_refl)
  qed (auto dest: start_changes_jobs)
next
  case (callback body job_id now r')
  then show ?thesis using callback_changes_jobs by blast
qed simp

text \<open>
  C18. The life of export jobs. Whatever requests, worker callbacks and other activity
  interleave, a caller never has two unfinished exports, exactly the completed jobs have a
  location, which is the commissioned one, and a deadline; no job row disappears or changes
  hands, and a completed or failed job keeps its outcome for good: repeated and late
  callbacks cannot extend a deadline, repoint an archive or revive a job.
\<close>

theorem export_job_lifecycle:
  assumes run: "(export_step U td mc cfg)\<^sup>*\<^sup>* db db'" and wf: "jobs_wf cfg (db_export_jobs db)"
  shows "jobs_wf cfg (db_export_jobs db') \<and>
    (\<forall>i job. tbl_get ej_id (db_export_jobs db) i = Some job \<longrightarrow>
       (\<exists>row. tbl_get ej_id (db_export_jobs db') i = Some row \<and> job_kept job row))"
proof -
  have "(jobs_change cfg)\<^sup>*\<^sup>* (db_export_jobs db) (db_export_jobs db')"
    using run by (induction rule: rtranclp_induct) (auto dest: export_step_changes intro: rtranclp_trans)
  then show ?thesis
  proof (induction rule: rtranclp_induct)
    case base
    show ?case using wf by (auto simp: job_kept_def)
  next
    case (step jobs jobs')
    then show ?case by (meson jobs_change_wf jobs_change_kept job_kept_trans)
  qed
qed

section \<open>A downloadable archive is not an orphan\<close>

lemma downloadable_owned:
  assumes wf: "jobs_wf cfg (db_export_jobs db)"
    and get: "get_export_job cfg api db p job_id now = Inr public" and url: "xp_download_url public \<noteq> None"
  shows "\<exists>job. tbl_get ej_id (db_export_jobs db) job_id = Some job \<and> owned db now
    (bucket_for_storage_class cfg SC_TEMP, build_export_archive_key (ej_owner_user_id job) job_id (ej_tenant_id job))"
proof -
  obtain job where job: "tbl_get ej_id (db_export_jobs db) job_id = Some job" "ej_status job = JOB_COMPLETED"
    "\<not> archive_is_expired job now"
    using get url by (auto simp: get_export_job_def load_export_job_def job_public_def
        split: option.splits if_splits sum.splits job_status.splits)
  have mem: "job \<in> set (db_export_jobs db)" and id: "ej_id job = job_id"
    using tbl_get_mem [OF job(1)] tbl_get_key [OF job(1)] by simp_all
  with wf job(2) have at: "ej_storage_bucket job = Some (bucket_for_storage_class cfg SC_TEMP)"
    "ej_object_key job = Some (build_export_archive_key (ej_owner_user_id job) job_id (ej_tenant_id job))"
    "ej_expires_at job \<noteq> None"
    by (auto simp: jobs_wf_def list_all_iff job_wf_def)
  have "(bucket_for_storage_class cfg SC_TEMP, build_export_archive_key (ej_owner_user_id job) job_id (ej_tenant_id job))
      \<in> set (live_export_keys db now)"
    unfolding live_export_keys_def set_map
    by (rule image_eqI [where x = job]) (use at mem job(2,3) in \<open>auto simp: archive_is_expired_def\<close>)
  then show ?thesis using job(1) by (auto simp: owned_def pending_keys_def)
qed

text \<open>
  C20. While the service hands out a download link for an archive, no reconciliation run,
  repairing or not, touches the archive's bytes: the reconciler's list of live exports and
  the download gate agree on the deadline.
\<close>

theorem downloadable_archive_survives_repair:
  assumes laws: "storage_laws api view" and wf: "jobs_wf cfg (db_export_jobs (w_db w))"
    and get: "get_export_job cfg api (w_db w) p job_id now = Inr public" and url: "xp_download_url public \<noteq> None"
    and run: "reconcile_orphans api w now buckets grace limit repair = (res, w')"
  shows "\<exists>job. tbl_get ej_id (db_export_jobs (w_db w)) job_id = Some job \<and>
    (let archive = (bucket_for_storage_class cfg SC_TEMP, build_export_archive_key (ej_owner_user_id job) job_id (ej_tenant_id job))
     in view (w_sto w') archive = view (w_sto w) archive)"
  using downloadable_owned [OF wf get url] reconcile_effect [OF laws run, THEN conjunct2, THEN conjunct1]
  by (auto simp: Let_def)

section \<open>The link of an export can always be named\<close>

lemma utf8_ascii: "list_all (\<lambda>c. c < 128) s \<Longrightarrow> utf8 s = Some s"
  by (induction s) (simp_all add: utf8_char_def)

lemma export_name_encodes: "safe_content_disposition (u ''export-'' @ uuid_str i @ u ''.zip'') \<noteq> None"
proof -
  let ?name = "u ''export-'' @ uuid_str i @ u ''.zip''"
  have "set ?name \<subseteq> {c. c < 128}"
  proof -
    have "set (u ''export-'') \<subseteq> {c. c < 128}" "set (u ''.zip'') \<subseteq> {c. c < 128}" by (simp_all add: u_def)
    moreover have "set (uuid_str i) \<subseteq> {c. c < 128}" using uuid_str_range [of _ i] by fastforce
    ultimately show ?thesis unfolding set_append by (intro Un_least)
  qed
  then have name: "c < 128" if "c \<in> set ?name" for c using that by blast
  have "c < 128" if "c \<in> set (path_base ?name)" for c
  proof -
    have "c \<in> set (replace_ch 92 47 (strip ?name))"
      by (rule subsetD [OF set_last_segment that [unfolded path_base_def]])
    then obtain d where "d \<in> set (strip ?name)" "c = (if d = 92 then 47 else d)" unfolding replace_ch_def set_map by blast
    moreover from this have "d < 128" using name set_strip by blast
    ultimately show ?thesis by simp
  qed
  then have "list_all (\<lambda>c. c < 128) (path_base ?name)" by (simp add: list_all_iff)
  from utf8_ascii [OF this] show ?thesis by (simp add: safe_content_disposition_def url_quote_def Let_def)
qed

section \<open>Concrete exports\<close>

definition demo_codec_json :: manifest_codec where
  "demo_codec_json = \<lparr>mc_node = (\<lambda>_. u ''n''), mc_entry = (\<lambda>_. u ''e'')\<rparr>"

definition demo_export_db :: database where
  "demo_export_db = empty_db\<lparr>db_objects := [demo_object]\<rparr>"

abbreviation demo_start :: "(export_job_public \<times> export_payload) result \<times> database" where
  "demo_start \<equiv> start_archive_export ascii_unicode plain_text demo_codec_json (default_settings None None) demo_export_db
     demo_principal None 9 100"

lemma demo_started: "\<exists>job payload db'. demo_start = (Inr (job, payload), db')"
  by (simp add: start_archive_export_def resolved_filters_def default_list_params_def export_statement_def
      apply_category_filter_def apply_filters_def when_given_def scoped_objects_def demo_export_db_def empty_db_def
      active_export_job_def demo_principal_def demo_object_def export_totals_def assert_within_export_ceilings_def
      default_settings_def archive_payload_def with_bytes_only_def build_manifest_stream_def manifest_objects_def
      user_tenant_id_def tbl_insert_def Let_def)

theorem archive_carries_released_bytes_witness:
  "\<exists>job payload db'. demo_start = (Inr (job, payload), db') \<and> distinct (map ae_archive_path (xl_objects payload)) \<and>
     int (length (xl_objects payload)) \<le> 5000"
proof -
  obtain job payload db' where start: "demo_start = (Inr (job, payload), db')" using demo_started by blast
  have "distinct (map mo_id (db_objects demo_export_db))" by (simp add: demo_export_db_def)
  note carried = archive_carries_released_bytes [OF this start]
  have "MEDIA_EXPORT_MAX_OBJECTS (default_settings None None) = 5000" by (simp add: default_settings_def)
  with carried show ?thesis using start by (intro exI [of _ job] exI [of _ payload] exI [of _ db']) simp
qed

theorem export_job_lifecycle_witness:
  "\<exists>db'. db' \<noteq> demo_export_db \<and> jobs_wf (default_settings None None) (db_export_jobs db')"
proof -
  let ?cfg = "default_settings None None" and ?body = "\<lparr>xr_format = FMT_archive, xr_filters = None\<rparr>"
  obtain job payload db' where start: "demo_start = (Inr (job, payload), db')" using demo_started by blast
  then obtain row where db': "db' = demo_export_db\<lparr>db_export_jobs := db_export_jobs demo_export_db @ [row]\<rparr>"
    by (rule start_archive_export_cases)
  have "export_media ascii_unicode plain_text demo_codec_json ?cfg (\<lambda>_. True) demo_export_db demo_principal ?body 9 100 =
      (Inr (Accepted job), db')"
    by (simp add: export_media_def start)
  then have "export_step ascii_unicode plain_text demo_codec_json ?cfg demo_export_db db'" by (rule request)
  moreover have "jobs_wf ?cfg (db_export_jobs demo_export_db)"
    by (simp add: jobs_wf_def demo_export_db_def empty_db_def)
  ultimately have "jobs_wf ?cfg (db_export_jobs db')"
    using export_job_lifecycle [OF r_into_rtranclp] by blast
  moreover have "db_export_jobs db' \<noteq> db_export_jobs demo_export_db" by (simp add: db')
  ultimately show ?thesis by metis
qed

definition demo_job :: export_job where
  "demo_job = \<lparr>ej_id = 9, ej_owner_user_id = 1, ej_tenant_id = None, ej_is_superuser = False, ej_status = JOB_COMPLETED,
     ej_object_count = 1, ej_total_size_bytes = 10, ej_storage_bucket = Some ''temp-media'',
     ej_object_key = Some (build_export_archive_key 1 9 None), ej_size_bytes = Some 40, ej_expires_at = Some 50,
     ej_error = None, ej_created_at = 0, ej_updated_at = 0\<rparr>"

definition demo_job_world :: "(location \<Rightarrow> blob option) world" where
  "demo_job_world = \<lparr>w_db = empty_db\<lparr>db_export_jobs := [demo_job]\<rparr>, w_sto = (\<lambda>_. Some [80, 75]), w_metrics = []\<rparr>"

theorem downloadable_archive_survives_repair_witness:
  "w_sto (snd (reconcile_orphans (listing_api [build_export_archive_key 1 9 None]) demo_job_world 20 [''temp-media''] 0 10 True))
     (''temp-media'', build_export_archive_key 1 9 None) = Some [80, 75]"
proof -
  let ?cfg = "default_settings None None" and ?api = "listing_api [build_export_archive_key 1 9 None]"
  have wf: "jobs_wf ?cfg (db_export_jobs (w_db demo_job_world))"
    by (simp add: jobs_wf_def job_wf_def demo_job_world_def demo_job_def default_settings_def)
  obtain h where h: "safe_content_disposition (u ''export-'' @ uuid_str 9 @ u ''.zip'') = Some h"
    using export_name_encodes by blast
  have ne: "u ''export-'' \<noteq> []" by (simp add: u_def)
  have get: "get_export_job ?cfg ?api (w_db demo_job_world) demo_principal 9 20 =
      Inr ((job_public demo_job)\<lparr>xp_download_url := Some (api_presign_get ?api ''temp-media'' (build_export_archive_key 1 9 None)
        (S3_PRESIGNED_URL_EXPIRE_SECONDS ?cfg) (Some h))\<rparr>)" (is "_ = Inr ?public")
    by (simp add: get_export_job_def load_export_job_def demo_job_world_def demo_job_def demo_principal_def
        archive_is_expired_def create_download_url_def h ne)
  have url: "xp_download_url ?public \<noteq> None" by simp
  have at: "S3_BUCKET_TEMP ?cfg = ''temp-media''" by (simp add: default_settings_def)
  show ?thesis
    using downloadable_archive_survives_repair [OF listing_api_laws wf get url surjective_pairing, of "[''temp-media'']" 0 10 True]
    by (simp add: at Let_def) (simp add: demo_job_world_def demo_job_def)
qed

end
