(* ===== verification/TransferImport.thy ===== *)
theory TransferImport
  imports TransferExport PyJson "HOL-Library.List_Lexorder" "HOL-Library.Product_Lexorder" "HOL-Library.AList"
begin

text \<open>
  \<open>controllers/transfer_import.py\<close>, the import half of \<open>schemas/transfer.py\<close> and of
  \<open>app/routes/transfer.py\<close>: reading an uploaded document within its ceilings, recreating
  the category tree, and importing row by row through the upload pipeline. The JSON parser,
  the model validation, \<open>slugify\<close> and the zip reader are parameters (\<open>import_env\<close>); an
  entry whose stream raises has no data.
\<close>

section \<open>Schemas\<close>

datatype import_category_node =
  ImportCategoryNode (in_name: ustr) (in_slug: ustr) (in_children: "import_category_node list")

record import_object_entry =
  ie_id :: uuid
  ie_filename :: "ustr option"
  ie_category :: media_category
  ie_category_paths :: "ustr list"
  ie_visibility :: media_visibility
  ie_size_bytes :: int
  ie_sha256 :: "string option"
  ie_mime_type :: string

record import_manifest_doc =
  im_category_tree :: "import_category_node list"
  im_objects :: "import_object_entry list"

datatype import_row_status = ROW_created | ROW_linked | ROW_skipped | ROW_failed

datatype import_row_reason =
    REASON_upload string   \<comment> \<open>a token of the upload-reject vocabulary\<close>
  | REASON_missing_bytes | REASON_already_exists | REASON_id_conflict
  | REASON_unsupported_mime | REASON_invalid_metadata | REASON_storage_error

record import_object_result =
  ir_source_id :: uuid
  ir_filename :: "ustr option"
  ir_status :: import_row_status
  ir_reason :: "import_row_reason option"
  ir_message :: "ustr option"
  ir_media_object_id :: "uuid option"
  ir_category_paths :: "ustr list"
  ir_scan_queued :: bool

record import_report =
  rp_categories_created :: int
  rp_categories_reused :: int
  rp_created :: nat
  rp_linked :: nat
  rp_skipped :: nat
  rp_failed :: nat
  rp_objects :: "import_object_result list"

record zip_entry =
  ze_filename :: ustr
  ze_is_dir :: bool
  ze_file_size :: int
  ze_data :: "blob option"

record import_env =
  en_upload :: upload_env
  en_loads :: "blob \<Rightarrow> json option"                      \<comment> \<open>\<open>json.loads(raw.decode())\<close>\<close>
  en_model :: "json \<Rightarrow> import_manifest_doc option"         \<comment> \<open>\<open>ImportManifest.model_validate\<close>\<close>
  en_slugify :: "ustr \<Rightarrow> ustr"
  en_unzip :: "blob \<Rightarrow> zip_entry list option"
  en_uuid :: "ustr \<Rightarrow> uuid option"                        \<comment> \<open>\<open>uuid.UUID(text)\<close>\<close>

definition reject_document :: "string \<Rightarrow> 'a result" where
  "reject_document message = Inl (Http 422 (DText message))"

section \<open>Reading the upload\<close>

text \<open>\<open>chunks\<close>: what successive reads return, up to the first empty one.\<close>

fun drain_from :: "blob list \<Rightarrow> int \<Rightarrow> blob \<Rightarrow> blob result" where
  "drain_from [] limit copied = Inr copied"
| "drain_from (chunk # chunks) limit copied =
     (if chunk = [] then Inr copied
      else if int (length (copied @ chunk)) > limit
      then Inl (Http 422 (DTextU (u ''Uploaded file exceeds the '' @ str_int limit @ u ''-byte import ceiling.'')))
      else drain_from chunks limit (copied @ chunk))"

definition drain_to_tempfile :: "blob list \<Rightarrow> int \<Rightarrow> blob result" where
  "drain_to_tempfile chunks limit = drain_from chunks limit []"

text \<open>Truth of a decoded value, and \<open>d.get(key) or []\<close> (a repeated key: the last one).\<close>

fun truthy :: "json \<Rightarrow> bool" where
  "truthy J_Null = False"
| "truthy (J_Bool b) = b"
| "truthy (J_Int i) = (i \<noteq> 0)"
| "truthy (J_Float f) = (f \<noteq> PF_Finite 0)"
| "truthy (J_Str s) = (s \<noteq> [])"
| "truthy (J_List xs) = (xs \<noteq> [])"
| "truthy (J_Obj kvs) = (kvs \<noteq> [])"

definition get_or_empty :: "(ustr \<times> json) list \<Rightarrow> ustr \<Rightarrow> json" where
  "get_or_empty kvs key = (case map_of (rev kvs) key of
     None \<Rightarrow> J_List [] | Some v \<Rightarrow> if truthy v then v else J_List [])"

text \<open>The explicit stack, its top first.\<close>

function walk_tree :: "settings \<Rightarrow> (json \<times> nat) list \<Rightarrow> nat \<Rightarrow> unit result" where
  "walk_tree cfg [] nodes = Inr ()"
| "walk_tree cfg ((node, depth) # pending) nodes =
     (case node of
        J_Obj kvs \<Rightarrow>
          if int (nodes + 1) > MEDIA_IMPORT_MAX_CATEGORIES cfg
          then Inl (Http 422 (DTextU (u ''Manifest carries more than '' @ str_int (MEDIA_IMPORT_MAX_CATEGORIES cfg) @ u '' categories.'')))
          else if int depth > MEDIA_IMPORT_MAX_CATEGORY_DEPTH cfg
          then Inl (Http 422 (DTextU (u ''Category tree nests deeper than the '' @
            str_int (MEDIA_IMPORT_MAX_CATEGORY_DEPTH cfg) @ u ''-level import ceiling.'')))
          else (case get_or_empty kvs (u ''children'') of
                  J_List children \<Rightarrow> walk_tree cfg (rev (map (\<lambda>c. (c, depth + 1)) children) @ pending) (nodes + 1)
                | _ \<Rightarrow> reject_document ''Category tree `children` must be an array.'')
      | _ \<Rightarrow> reject_document ''Every category tree node must be a JSON object.'')"
  by pat_completeness auto

text \<open>The ceiling bounds the walk: every round visits one more node.\<close>

termination walk_tree
  by (relation "measure (\<lambda>(cfg, pending, nodes). nat (MEDIA_IMPORT_MAX_CATEGORIES cfg) + 1 - nodes)") auto

definition assert_document_within_ceilings :: "settings \<Rightarrow> json \<Rightarrow> unit result" where
  "assert_document_within_ceilings cfg document =
     (case document of
        J_Obj kvs \<Rightarrow>
          (case (get_or_empty kvs (u ''objects''), get_or_empty kvs (u ''category_tree'')) of
             (J_List objs, J_List tree) \<Rightarrow>
               if int (length objs) > MEDIA_IMPORT_MAX_OBJECTS cfg
               then Inl (Http 422 (DTextU (u ''Manifest carries '' @ str_int (int (length objs)) @ u '' objects, above the '' @
                 str_int (MEDIA_IMPORT_MAX_OBJECTS cfg) @ u '' import ceiling.'')))
               else walk_tree cfg (rev (map (\<lambda>node. (node, 1)) tree)) 0
           | _ \<Rightarrow> reject_document ''Manifest `objects` and `category_tree` must be arrays.'')
      | _ \<Rightarrow> reject_document ''Manifest must be a JSON object.'')"

definition parse_manifest_document :: "import_env \<Rightarrow> settings \<Rightarrow> blob \<Rightarrow> import_manifest_doc result" where
  "parse_manifest_document env cfg raw =
     (case en_loads env raw of
        None \<Rightarrow> reject_document ''Manifest is not readable JSON.''
      | Some document \<Rightarrow>
          (case assert_document_within_ceilings cfg document of
             Inl e \<Rightarrow> Inl e
           | Inr _ \<Rightarrow>
               (case en_model env document of
                  None \<Rightarrow> reject_document ''Manifest does not match the expected export shape.''
                | Some manifest \<Rightarrow> Inr manifest)))"

section \<open>Recreating the tree\<close>

type_synonym chain = "(ustr \<times> ustr) list"

fun slug_of :: "import_env \<Rightarrow> ustr list \<Rightarrow> ustr result" where
  "slug_of env [] = reject_document ''A category has no usable name or slug.''"
| "slug_of env (candidate # candidates) =
     (let slug = take 50 (en_slugify env candidate) in if slug \<noteq> [] then Inr slug else slug_of env candidates)"

text \<open>Pre-order with an explicit stack, its top first.\<close>

function chains_from :: "import_env \<Rightarrow> (import_category_node \<times> chain) list \<Rightarrow> chain list result" where
  "chains_from env [] = Inr []"
| "chains_from env ((node, prefix) # stack) =
     (case slug_of env [in_slug node, in_name node] of
        Inl e \<Rightarrow> Inl e
      | Inr slug \<Rightarrow>
          (let chain = prefix @ [(in_name node, slug)]
           in case chains_from env (map (\<lambda>child. (child, chain)) (in_children node) @ stack) of
                Inl e \<Rightarrow> Inl e
              | Inr cs \<Rightarrow> Inr (chain # cs)))"
  by pat_completeness auto

lemma size_child: "c \<in> set (in_children n) \<Longrightarrow> size c < size n"
  by (cases n) (auto dest: size_list_estimation' [OF _ order.refl, where f = size])

lemma stack_size:
  "sum_list (map (\<lambda>c. Suc (size c)) (in_children n)) \<le> size n"
proof (cases n)
  case (ImportCategoryNode name slug children)
  have "sum_list (map (\<lambda>c. Suc (size c)) children) = size_list size children" by (induction children) auto
  with ImportCategoryNode show ?thesis by simp
qed

termination chains_from
proof (relation "measure (\<lambda>(env, stack). sum_list (map (\<lambda>(n, p). Suc (size n)) stack))")
qed (use stack_size in \<open>auto simp: comp_def split_def less_Suc_eq_le\<close>)

definition tree_chains :: "import_env \<Rightarrow> import_category_node list \<Rightarrow> chain list result" where
  "tree_chains env nodes = chains_from env (map (\<lambda>node. (node, [])) nodes)"

fun slug_all :: "import_env \<Rightarrow> ustr list \<Rightarrow> chain result" where
  "slug_all env [] = Inr []"
| "slug_all env (segment # segments) =
     (case slug_of env [segment] of
        Inl e \<Rightarrow> Inl e
      | Inr slug \<Rightarrow> (case slug_all env segments of Inl e \<Rightarrow> Inl e | Inr chain \<Rightarrow> Inr ((slug, slug) # chain)))"

definition path_chain :: "import_env \<Rightarrow> settings \<Rightarrow> ustr \<Rightarrow> chain result" where
  "path_chain env cfg path =
     (let segments = filter (\<lambda>s. strip s \<noteq> []) (split_on 47 path)
      in if segments = [] then reject_document ''A category path is empty.''
         else if int (length segments) > MEDIA_IMPORT_MAX_CATEGORY_DEPTH cfg
         then Inl (Http 422 (DTextU (u ''A category path nests deeper than the '' @
           str_int (MEDIA_IMPORT_MAX_CATEGORY_DEPTH cfg) @ u ''-level import ceiling.'')))
         else slug_all env segments)"

definition chain_key :: "chain \<Rightarrow> ustr" where
  "chain_key chain = join_with 47 (map snd chain)"

text \<open>A dictionary is the list of its items in insertion order; \<open>setdefault\<close> keeps the first.\<close>

definition setdefault :: "(ustr \<times> chain) list \<Rightarrow> ustr \<Rightarrow> chain \<Rightarrow> (ustr \<times> chain) list" where
  "setdefault d k v = (if map_of d k = None then d @ [(k, v)] else d)"

definition collect_chain :: "(ustr \<times> chain) list \<Rightarrow> chain \<Rightarrow> (ustr \<times> chain) list" where
  "collect_chain cs chain =
     fold (\<lambda>depth d. setdefault d (chain_key (take depth chain)) (take depth chain)) [1..<length chain + 1] cs"

fun collect_paths :: "import_env \<Rightarrow> settings \<Rightarrow> ustr list \<Rightarrow> (ustr \<times> chain) list \<Rightarrow> (ustr \<times> chain) list result" where
  "collect_paths env cfg [] cs = Inr cs"
| "collect_paths env cfg (path # paths) cs =
     (case path_chain env cfg path of
        Inl e \<Rightarrow> Inl e
      | Inr chain \<Rightarrow> collect_paths env cfg paths (collect_chain cs chain))"

record recreated_tree =
  rt_by_path :: "(ustr \<times> category) list"
  rt_created :: int
  rt_reused :: int

fun ensure_all ::
  "database \<Rightarrow> principal \<Rightarrow> (ustr \<times> chain) list \<Rightarrow> recreated_tree \<Rightarrow> recreated_tree result \<times> database" where
  "ensure_all db p [] tree = (Inr tree, db)"
| "ensure_all db p ((key, chain) # cs) tree =
     (case ensure_category_path db p chain of
        (Inl e, db') \<Rightarrow> (Inl e, db')
      | (Inr (row, created), db') \<Rightarrow>
          ensure_all db' p cs (tree\<lparr>rt_by_path := rt_by_path tree @ [(key, row)],
            rt_created := rt_created tree + int created, rt_reused := rt_reused tree + (1 - int created)\<rparr>))"

definition count_ch :: "nat \<Rightarrow> ustr \<Rightarrow> nat" where
  "count_ch c s = length (filter (\<lambda>x. x = c) s)"

definition manifest_chains :: "import_env \<Rightarrow> settings \<Rightarrow> import_manifest_doc \<Rightarrow> (ustr \<times> chain) list result" where
  "manifest_chains env cfg manifest =
     (case tree_chains env (im_category_tree manifest) of
        Inl e \<Rightarrow> Inl e
      | Inr cs \<Rightarrow> collect_paths env cfg (concat (map ie_category_paths (im_objects manifest))) (fold (\<lambda>c d. collect_chain d c) cs []))"

definition recreate_tree ::
  "import_env \<Rightarrow> settings \<Rightarrow> database \<Rightarrow> principal \<Rightarrow> import_manifest_doc \<Rightarrow> recreated_tree result \<times> database" where
  "recreate_tree env cfg db p manifest =
     (case manifest_chains env cfg manifest of
        Inl e \<Rightarrow> (Inl e, db)
      | Inr cs \<Rightarrow>
          if int (length cs) > MEDIA_IMPORT_MAX_CATEGORIES cfg
          then (Inl (Http 422 (DTextU (u ''Import names '' @ str_int (int (length cs)) @ u '' category paths, above the '' @
            str_int (MEDIA_IMPORT_MAX_CATEGORIES cfg) @ u '' ceiling.''))), db)
          else ensure_all db p (sort_key (\<lambda>(key, chain). (count_ch 47 key, key)) cs)
            \<lparr>rt_by_path = [], rt_created = 0, rt_reused = 0\<rparr>)"

text \<open>\<open>KeyError\<close> when a path was not recreated.\<close>

fun path_keys :: "import_env \<Rightarrow> settings \<Rightarrow> ustr list \<Rightarrow> ustr list result" where
  "path_keys env cfg [] = Inr []"
| "path_keys env cfg (path # paths) =
     (case path_chain env cfg path of
        Inl e \<Rightarrow> Inl e
      | Inr chain \<Rightarrow> (case path_keys env cfg paths of Inl e \<Rightarrow> Inl e | Inr keys \<Rightarrow> Inr (chain_key chain # keys)))"

fun rows_at :: "(ustr \<times> category) list \<Rightarrow> ustr list \<Rightarrow> category list result" where
  "rows_at by_path [] = Inr []"
| "rows_at by_path (key # keys) =
     (case map_of by_path key of
        None \<Rightarrow> Inl (Raised ''KeyError'')
      | Some row \<Rightarrow> (case rows_at by_path keys of Inl e \<Rightarrow> Inl e | Inr rows \<Rightarrow> Inr (row # rows)))"

fun distinct_rows :: "category list \<Rightarrow> int set \<Rightarrow> category list" where
  "distinct_rows [] seen = []"
| "distinct_rows (row # rows) seen =
     (if cat_id row \<in> seen then distinct_rows rows seen else row # distinct_rows rows (insert (cat_id row) seen))"

definition categories_for :: "import_env \<Rightarrow> settings \<Rightarrow> recreated_tree \<Rightarrow> import_object_entry \<Rightarrow> category list result" where
  "categories_for env cfg tree entry =
     (case path_keys env cfg (ie_category_paths entry) of
        Inl e \<Rightarrow> Inl e
      | Inr keys \<Rightarrow> (case rows_at (rt_by_path tree) keys of Inl e \<Rightarrow> Inl e | Inr rows \<Rightarrow> Inr (distinct_rows rows {})))"

section \<open>Rows\<close>

definition importable_status :: "media_object_status \<Rightarrow> bool" where
  "importable_status st \<longleftrightarrow> st \<in> {OBJ_PENDING_UPLOAD, OBJ_UPLOADED, OBJ_PROCESSING, OBJ_READY}"

definition importable_match :: "database \<Rightarrow> principal \<Rightarrow> uuid \<Rightarrow> media_object option \<times> bool" where
  "importable_match db p source_id =
     (case tbl_get mo_id (db_objects db) source_id of
        None \<Rightarrow> (None, False)
      | Some row \<Rightarrow> (Some row, mo_owner_user_id row = p_id p \<and> mo_deleted_at row = None \<and> importable_status (mo_status row)))"

definition file_into :: "database \<Rightarrow> media_object \<Rightarrow> category list \<Rightarrow> datetime \<Rightarrow> database" where
  "file_into db obj categories now =
     (let existing = map snd (filter (\<lambda>l. fst l = mo_id obj) (db_links db));
          added = filter (\<lambda>row. cat_id row \<notin> set existing) categories
      in if added = [] then db
         else db\<lparr>db_links := db_links db @ map (\<lambda>row. (mo_id obj, cat_id row)) added,
                 db_objects := tbl_put mo_id (db_objects db) (obj\<lparr>mo_updated_at := now\<rparr>)\<rparr>)"

text \<open>\<open>str(detail)\<close>; a download's structured detail does not come from the upload pipeline.\<close>

fun detail_text :: "detail \<Rightarrow> ustr" where
  "detail_text (DText t) = u t"
| "detail_text (DTextU t) = t"
| "detail_text (DUploadRejected reason message) = u message"
| "detail_text (DScanNotClean st message) = u message"

text \<open>\<open>_reason_for\<close>: only an \<open>HTTPException\<close> is caught; anything else escapes.\<close>

fun reason_for :: "err \<Rightarrow> (import_row_reason \<times> ustr) option" where
  "reason_for (Http status (DUploadRejected reason message)) = Some (REASON_upload reason, u message)"
| "reason_for (Http status detail) =
     Some (if status = 413 then REASON_upload ''quota_bytes_exceeded''
           else if status = 409 then REASON_upload ''quota_objects_exceeded'' else REASON_storage_error, detail_text detail)"
| "reason_for (Raised name) = None"

definition id_conflict_message :: ustr where
  "id_conflict_message = u ''This id is already held by a record that is not an importable object of this collection'' @
     [32, 8212, 32] @ u ''another owner'' @ [39] @ u ''s, or one already deleted or rejected.''"

definition manifest_missing_message :: ustr where
  "manifest_missing_message = u ''Manifest carries metadata only; no bytes to import.''"

definition archive_missing_message :: ustr where
  "archive_missing_message = u ''The archive carries no bytes for this object; it was listed in the manifest but excluded from the export.''"

definition row_result ::
  "import_object_entry \<Rightarrow> import_row_status \<Rightarrow> (import_row_reason \<times> ustr) option \<Rightarrow> uuid option \<Rightarrow> ustr list \<Rightarrow> import_object_result" where
  "row_result entry st reason media paths = \<lparr>ir_source_id = ie_id entry, ir_filename = ie_filename entry, ir_status = st,
     ir_reason = map_option fst reason, ir_message = map_option snd reason, ir_media_object_id = media, ir_category_paths = paths, ir_scan_queued = False\<rparr>"

definition link_existing ::
  "database \<Rightarrow> import_object_entry \<Rightarrow> media_object \<Rightarrow> category list \<Rightarrow> ustr list \<Rightarrow> datetime \<Rightarrow> import_object_result \<times> database" where
  "link_existing db entry obj categories paths now =
     (row_result entry ROW_linked (Some (REASON_already_exists, u ''Already in this collection; filed into the imported categories.'')) (Some (mo_id obj)) paths, file_into db obj categories now)"

definition tallied :: "int \<Rightarrow> int \<Rightarrow> import_object_result list \<Rightarrow> import_report" where
  "tallied created reused rows =
     (let tally = (\<lambda>st. length (filter (\<lambda>r. ir_status r = st) rows))
      in \<lparr>rp_categories_created = created, rp_categories_reused = reused, rp_created = tally ROW_created,
          rp_linked = tally ROW_linked, rp_skipped = tally ROW_skipped, rp_failed = tally ROW_failed, rp_objects = rows\<rparr>)"

section \<open>A manifest\<close>

fun manifest_rows ::
  "import_env \<Rightarrow> settings \<Rightarrow> recreated_tree \<Rightarrow> database \<Rightarrow> principal \<Rightarrow> datetime \<Rightarrow> import_object_entry list \<Rightarrow>
   import_object_result list result \<times> database" where
  "manifest_rows env cfg tree db p now [] = (Inr [], db)"
| "manifest_rows env cfg tree db p now (entry # entries) =
     (case (categories_for env cfg tree entry, path_keys env cfg (ie_category_paths entry)) of
        (Inr categories, Inr paths) \<Rightarrow>
          (let (result, db1) =
             (case importable_match db p (ie_id entry) of
                (None, _) \<Rightarrow> (row_result entry ROW_skipped (Some (REASON_missing_bytes, manifest_missing_message)) None paths, db)
              | (Some obj, usable) \<Rightarrow>
                  if \<not> usable then (row_result entry ROW_failed (Some (REASON_id_conflict, id_conflict_message)) None paths, db)
                  else link_existing db entry obj categories paths now)
           in case manifest_rows env cfg tree db1 p now entries of
                (Inl e, db2) \<Rightarrow> (Inl e, db2)
              | (Inr results, db2) \<Rightarrow> (Inr (result # results), db2))
      | (Inl e, _) \<Rightarrow> (Inl e, db)
      | (_, Inl e) \<Rightarrow> (Inl e, db))"

definition import_manifest ::
  "import_env \<Rightarrow> settings \<Rightarrow> database \<Rightarrow> principal \<Rightarrow> blob list \<Rightarrow> datetime \<Rightarrow> import_report result \<times> database" where
  "import_manifest env cfg db p source now =
     (case drain_to_tempfile source (MEDIA_IMPORT_MAX_MANIFEST_BYTES cfg) of
        Inl e \<Rightarrow> (Inl e, db)
      | Inr raw \<Rightarrow>
          (case parse_manifest_document env cfg raw of
             Inl e \<Rightarrow> (Inl e, db)
           | Inr manifest \<Rightarrow>
               (case recreate_tree env cfg db p manifest of
                  (Inl e, db1) \<Rightarrow> (Inl e, db1)
                | (Inr tree, db1) \<Rightarrow>
                    (case manifest_rows env cfg tree db1 p now (im_objects manifest) of
                       (Inl e, db2) \<Rightarrow> (Inl e, db2)
                     | (Inr rows, db2) \<Rightarrow> (Inr (tallied (rt_created tree) (rt_reused tree) rows), db2)))))"

section \<open>An archive\<close>

definition last_named :: "zip_entry list \<Rightarrow> ustr \<Rightarrow> zip_entry option" where
  "last_named archive name = find (\<lambda>e. ze_filename e = name) (rev archive)"

text \<open>\<open>BadZipFile\<close> stands for whatever reading a damaged or encrypted entry raises.\<close>

definition archive_manifest :: "import_env \<Rightarrow> settings \<Rightarrow> zip_entry list \<Rightarrow> import_manifest_doc result" where
  "archive_manifest env cfg archive =
     (case last_named archive (u ''manifest.json'') of
        None \<Rightarrow> reject_document ''Archive has no manifest.json.''
      | Some info \<Rightarrow>
          if ze_file_size info > MEDIA_IMPORT_MAX_MANIFEST_BYTES cfg
          then Inl (Http 422 (DTextU (u ''manifest.json exceeds the '' @ str_int (MEDIA_IMPORT_MAX_MANIFEST_BYTES cfg) @ u ''-byte ceiling.'')))
          else (case ze_data info of
                  None \<Rightarrow> Inl (Raised ''BadZipFile'')
                | Some raw \<Rightarrow> parse_manifest_document env cfg raw))"

definition entry_object_id :: "import_env \<Rightarrow> zip_entry \<Rightarrow> uuid option" where
  "entry_object_id env info =
     (if ze_is_dir info then None
      else (case split_on 47 (ze_filename info) of
              [prefix, i, name] \<Rightarrow> if prefix = u ''files'' then en_uuid env i else None
            | _ \<Rightarrow> None))"

text \<open>The dictionary from object ids to entries: a later entry replaces an earlier one.\<close>

definition file_entries :: "import_env \<Rightarrow> zip_entry list \<Rightarrow> (uuid \<times> zip_entry) list" where
  "file_entries env archive =
     fold (\<lambda>info d. case entry_object_id env info of None \<Rightarrow> d | Some i \<Rightarrow> AList.update i info d) archive []"

definition assert_archive_within_ceilings ::
  "settings \<Rightarrow> import_manifest_doc \<Rightarrow> (uuid \<times> zip_entry) list \<Rightarrow> unit result" where
  "assert_archive_within_ceilings cfg manifest entries =
     (if int (length entries) > MEDIA_IMPORT_MAX_OBJECTS cfg
      then Inl (Http 422 (DTextU (u ''Archive carries '' @ str_int (int (length entries)) @ u '' files, above the '' @
        str_int (MEDIA_IMPORT_MAX_OBJECTS cfg) @ u '' import ceiling.'')))
      else (let total = sum_list (map (\<lambda>entry. case map_of entries (ie_id entry) of None \<Rightarrow> 0 | Some info \<Rightarrow> ze_file_size info)
              (im_objects manifest))
            in if total > MEDIA_IMPORT_MAX_TOTAL_BYTES cfg
               then Inl (Http 422 (DTextU (u ''Archive would import '' @ str_int total @ u '' bytes, above the '' @
                 str_int (MEDIA_IMPORT_MAX_TOTAL_BYTES cfg) @ u '' ceiling.'')))
               else Inr ()))"

text \<open>Storing the staged bytes: any failure, of the entry's stream included, is caught.\<close>

definition store_entry :: "'s storage_api \<Rightarrow> 's world \<Rightarrow> staged_upload \<Rightarrow> zip_entry \<Rightarrow> string \<Rightarrow> bool \<times> 's world" where
  "store_entry api w staged info mime =
     (case ze_data info of
        None \<Rightarrow> (False, w)
      | Some bytes \<Rightarrow>
          (let (ok, s') = api_put api (w_sto w) (st_bucket staged) (st_object_key staged) bytes mime
           in (ok, w\<lparr>w_sto := s'\<rparr>)))"

definition upload_request_of :: "import_env \<Rightarrow> import_object_entry \<Rightarrow> int \<Rightarrow> category list \<Rightarrow> upload_initiate_request" where
  "upload_request_of env entry size_bytes categories =
     \<lparr>ur_category = ie_category entry, ur_visibility = ie_visibility entry,
      ur_original_filename = sanitize_filename (ue_unicode (en_upload env)) (ie_filename entry),
      ur_mime_type = ie_mime_type entry, ur_expected_size_bytes = size_bytes, ur_category_ids = map cat_id categories\<rparr>"

text \<open>The tail of the row's upload: the session row, then the pipeline's own completion.\<close>

definition complete_import ::
  "import_env \<Rightarrow> settings \<Rightarrow> 's storage_api \<Rightarrow> 's world \<Rightarrow> principal \<Rightarrow> datetime \<Rightarrow> import_object_entry \<Rightarrow>
   upload_initiate_request \<Rightarrow> staged_upload \<Rightarrow> category list \<Rightarrow> ustr list \<Rightarrow>
   (import_object_result \<times> media_object option) result \<times> 's world" where
  "complete_import env cfg api w p now entry req staged categories paths =
     (case record_upload_session (w_db w) staged req (now + seconds (S3_PRESIGNED_URL_EXPIRE_SECONDS cfg)) now of
        (Inl e, _) \<Rightarrow> (Inl e, w)
      | (Inr _, db') \<Rightarrow>
          (case complete_upload (en_upload env) cfg api (w\<lparr>w_db := db'\<rparr>) p (st_media_id staged)
                  \<lparr>uc_sha256 = ie_sha256 entry, uc_category_ids = Some (map cat_id categories)\<rparr> now of
             (Inl e, w') \<Rightarrow>
               (case reason_for e of
                  None \<Rightarrow> (Inl e, w')
                | Some reason \<Rightarrow> (Inr (row_result entry ROW_failed (Some reason) None paths, None), w'))
           | (Inr public, w') \<Rightarrow>
               (Inr (row_result entry ROW_created None (Some (mo_id (mop_object public))) paths, Some (mop_object public)), w')))"

definition import_new_file ::
  "import_env \<Rightarrow> settings \<Rightarrow> 's storage_api \<Rightarrow> 's world \<Rightarrow> principal \<Rightarrow> datetime \<Rightarrow> zip_entry \<Rightarrow> import_object_entry \<Rightarrow>
   category list \<Rightarrow> ustr list \<Rightarrow> (import_object_result \<times> media_object option) result \<times> 's world" where
  "import_new_file env cfg api w p now info entry categories paths =
     (let failed = (\<lambda>reason w. (Inr (row_result entry ROW_failed (Some reason) None paths, None), w));
          size_bytes = ze_file_size info
      in if \<not> is_allowed_declared_mime (ie_mime_type entry) then failed (REASON_unsupported_mime, u (''Unsupported content type: '' @ ie_mime_type entry)) w
         else if size_bytes > max_size_for_category cfg (category_value (ie_category entry))
         then failed (REASON_upload ''size_exceeded'', u ''Object is larger than its category allows.'') w
         else case validate_initiate (ue_unicode (en_upload env)) cfg (upload_request_of env entry size_bytes categories) of
           Inl _ \<Rightarrow> failed (REASON_invalid_metadata, u ''Manifest metadata does not describe an uploadable object.'') w
         | Inr req \<Rightarrow>
             (case stage_upload (en_upload env) cfg (w_db w) p req (ie_id entry) of
                (Inl e, ms) \<Rightarrow>
                  (case reason_for e of None \<Rightarrow> (Inl e, ticks ms w) | Some reason \<Rightarrow> failed reason (ticks ms w))
              | (Inr staged, ms) \<Rightarrow>
                  (case store_entry api (ticks ms w) staged info (ie_mime_type entry) of
                     (False, w1) \<Rightarrow> failed (REASON_storage_error, u ''The imported bytes could not be stored.'') (best_effort_remove api (st_bucket staged) (st_object_key staged) w1)
                   | (True, w1) \<Rightarrow> complete_import env cfg api w1 p now entry req staged categories paths)))"

definition import_one_file ::
  "import_env \<Rightarrow> settings \<Rightarrow> 's storage_api \<Rightarrow> 's world \<Rightarrow> principal \<Rightarrow> datetime \<Rightarrow> zip_entry option \<Rightarrow> import_object_entry \<Rightarrow>
   category list \<Rightarrow> ustr list \<Rightarrow> (import_object_result \<times> media_object option) result \<times> 's world" where
  "import_one_file env cfg api w p now info entry categories paths =
     (case importable_match (w_db w) p (ie_id entry) of
        (Some obj, usable) \<Rightarrow>
          if \<not> usable then (Inr (row_result entry ROW_failed (Some (REASON_id_conflict, id_conflict_message)) None paths, None), w)
          else (let (result, db') = link_existing (w_db w) entry obj categories paths now
                in (Inr (result, None), w\<lparr>w_db := db'\<rparr>))
      | (None, _) \<Rightarrow>
          (case info of
             None \<Rightarrow> (Inr (row_result entry ROW_skipped (Some (REASON_missing_bytes, archive_missing_message)) None paths, None), w)
           | Some i \<Rightarrow> import_new_file env cfg api w p now i entry categories paths))"

text \<open>One clock value stands for the readings of a run.\<close>

fun archive_rows ::
  "import_env \<Rightarrow> settings \<Rightarrow> 's storage_api \<Rightarrow> recreated_tree \<Rightarrow> (uuid \<times> zip_entry) list \<Rightarrow> 's world \<Rightarrow> principal \<Rightarrow>
   datetime \<Rightarrow> import_object_entry list \<Rightarrow> (import_object_result list \<times> media_object list) result \<times> 's world" where
  "archive_rows env cfg api tree files w p now [] = (Inr ([], []), w)"
| "archive_rows env cfg api tree files w p now (entry # entries) =
     (case (categories_for env cfg tree entry, path_keys env cfg (ie_category_paths entry)) of
        (Inr categories, Inr paths) \<Rightarrow>
          (case import_one_file env cfg api w p now (map_of files (ie_id entry)) entry categories paths of
             (Inl e, w1) \<Rightarrow> (Inl e, w1)
           | (Inr (result, created), w1) \<Rightarrow>
               (case archive_rows env cfg api tree files w1 p now entries of
                  (Inl e, w2) \<Rightarrow> (Inl e, w2)
                | (Inr (results, objs), w2) \<Rightarrow>
                    (Inr (result # results, (case created of None \<Rightarrow> objs | Some obj \<Rightarrow> obj # objs)), w2)))
      | (Inl e, _) \<Rightarrow> (Inl e, w)
      | (_, Inl e) \<Rightarrow> (Inl e, w))"

definition import_open_archive ::
  "import_env \<Rightarrow> settings \<Rightarrow> 's storage_api \<Rightarrow> 's world \<Rightarrow> principal \<Rightarrow> zip_entry list \<Rightarrow> datetime \<Rightarrow>
   (import_report \<times> media_object list) result \<times> 's world" where
  "import_open_archive env cfg api w p archive now =
     (case archive_manifest env cfg archive of
        Inl e \<Rightarrow> (Inl e, w)
      | Inr manifest \<Rightarrow>
          (let files = file_entries env archive
           in case assert_archive_within_ceilings cfg manifest files of
                Inl e \<Rightarrow> (Inl e, w)
              | Inr _ \<Rightarrow>
                  (case recreate_tree env cfg (w_db w) p manifest of
                     (Inl e, db1) \<Rightarrow> (Inl e, w\<lparr>w_db := db1\<rparr>)
                   | (Inr tree, db1) \<Rightarrow>
                       (case archive_rows env cfg api tree files (w\<lparr>w_db := db1\<rparr>) p now (im_objects manifest) of
                          (Inl e, w2) \<Rightarrow> (Inl e, w2)
                        | (Inr (rows, created), w2) \<Rightarrow>
                            (Inr (tallied (rt_created tree) (rt_reused tree) rows, created), w2)))))"

definition import_archive ::
  "import_env \<Rightarrow> settings \<Rightarrow> 's storage_api \<Rightarrow> 's world \<Rightarrow> principal \<Rightarrow> blob list \<Rightarrow> datetime \<Rightarrow>
   (import_report \<times> media_object list) result \<times> 's world" where
  "import_archive env cfg api w p source now =
     (case drain_to_tempfile source (MEDIA_IMPORT_MAX_ARCHIVE_BYTES cfg) of
        Inl e \<Rightarrow> (Inl e, w)
      | Inr raw \<Rightarrow>
          (case en_unzip env raw of
             None \<Rightarrow> (reject_document ''Uploaded file is not a readable zip archive.'', w)
           | Some archive \<Rightarrow> import_open_archive env cfg api w p archive now))"

definition run_import ::
  "import_env \<Rightarrow> settings \<Rightarrow> 's storage_api \<Rightarrow> 's world \<Rightarrow> principal \<Rightarrow> transfer_format \<Rightarrow> blob list \<Rightarrow> datetime \<Rightarrow>
   (import_report \<times> media_object list) result \<times> 's world" where
  "run_import env cfg api w p fmt source now =
     (case fmt of
        FMT_archive \<Rightarrow> import_archive env cfg api w p source now
      | FMT_manifest \<Rightarrow>
          (case import_manifest env cfg (w_db w) p source now of
             (Inl e, db') \<Rightarrow> (Inl e, w\<lparr>w_db := db'\<rparr>)
           | (Inr report, db') \<Rightarrow> (Inr (report, []), w\<lparr>w_db := db'\<rparr>)))"

text \<open>The route: a scan per created object; a row whose enqueue failed keeps \<open>scan_queued\<close> off.\<close>

definition enqueue_import_scans :: "(media_object \<Rightarrow> bool) \<Rightarrow> import_report \<Rightarrow> media_object list \<Rightarrow> import_report" where
  "enqueue_import_scans enqueue report created =
     (let queued = map mo_id (filter enqueue created)
      in report\<lparr>rp_objects := map (\<lambda>r. if ir_status r = ROW_created \<and> (\<exists>i \<in> set queued. ir_media_object_id r = Some i)
           then r\<lparr>ir_scan_queued := True\<rparr> else r) (rp_objects report)\<rparr>)"

definition import_media ::
  "import_env \<Rightarrow> settings \<Rightarrow> 's storage_api \<Rightarrow> (media_object \<Rightarrow> bool) \<Rightarrow> 's world \<Rightarrow> principal \<Rightarrow> transfer_format \<Rightarrow>
   blob list \<Rightarrow> datetime \<Rightarrow> import_report result \<times> 's world" where
  "import_media env cfg api enqueue w p fmt source now =
     (case run_import env cfg api w p fmt source now of
        (Inl e, w') \<Rightarrow> (Inl e, w')
      | (Inr (report, created), w') \<Rightarrow> (Inr (enqueue_import_scans enqueue report created), w'))"

section \<open>Importing the same manifest again\<close>

lemma ensure_from_frame:
  assumes "ensure_from db p segments parent n = (res, n', db')"
  shows "db_objects db' = db_objects db \<and> db_links db' = db_links db"
  by (rule ensure_from_keeps [of p "\<lambda>d. db_objects d = db_objects db \<and> db_links d = db_links db", OF _ assms])
    (auto simp: insert_category_def Let_def)

text \<open>So does the walk over all paths of a document.\<close>

lemma ensure_all_keeps:
  assumes insert: "\<And>db name slug parent row db'. insert_category db name slug parent (p_id p) (user_tenant_id p) = (row, db') \<Longrightarrow>
      I db \<Longrightarrow> I db'"
  shows "ensure_all db p cs tree = (res, db') \<Longrightarrow> I db \<Longrightarrow> I db'"
proof (induction cs arbitrary: db tree)
  case (Cons c cs)
  obtain key chain where c: "c = (key, chain)" by fastforce
  obtain r db1 where e: "ensure_category_path db p chain = (r, db1)" by fastforce
  have one: "I db1" by (rule ensure_category_path_keeps [of p I, OF insert e Cons.prems(2)])
  from Cons.prems(1) consider "db' = db1" | tree' where "ensure_all db1 p cs tree' = (res, db')"
    by (auto simp: c e split: sum.splits)
  then show ?case using one Cons.IH by cases auto
qed simp

lemma ensure_path_again:
  assumes "ensure_category_path db p chain = (Inr (row, n), db')" and "db_categories db2 = db_categories db' @ ys"
  shows "ensure_category_path db2 p chain = (Inr (row, 0), db2)"
  using assms(1) ensure_from_again [OF _ assms(2)]
  by (auto simp: ensure_category_path_def split: prod.splits option.splits)

lemma ensure_all_extends:
  "ensure_all db p cs tree = (res, db') \<Longrightarrow>
   (\<exists>ys. db_categories db' = db_categories db @ ys) \<and> db_objects db' = db_objects db \<and> db_links db' = db_links db"
proof (induction db p cs tree arbitrary: res db' rule: ensure_all.induct)
  case (2 db p key chain cs tree)
  obtain r db1 where e: "ensure_category_path db p chain = (r, db1)" by fastforce
  obtain res1 n where f: "ensure_from db p chain None 0 = (res1, n, db1)"
    using e by (auto simp: ensure_category_path_def split: prod.splits option.splits)
  note one = ensure_from_extends [OF f] ensure_from_frame [OF f]
  show ?case
  proof (cases r)
    case (Inl x)
    then show ?thesis using 2 one by (simp add: e)
  next
    case (Inr x)
    obtain row k where x: "x = (row, k)" by fastforce
    let ?tree = "tree\<lparr>rt_by_path := rt_by_path tree @ [(key, row)], rt_created := rt_created tree + int k,
       rt_reused := rt_reused tree + (1 - int k)\<rparr>"
    have "ensure_all db1 p cs ?tree = (res, db')" using 2(2) by (simp add: e Inr x)
    from 2(1) [OF e [symmetric] Inr x [symmetric] this] obtain ys where
      "db_categories db' = db_categories db1 @ ys" "db_objects db' = db_objects db1" "db_links db' = db_links db1"
      by (elim conjE exE)
    with one show ?thesis by (elim conjE exE) simp
  qed
qed auto

lemma ensure_all_again:
  assumes "ensure_all db p cs tree = (Inr tree', db')" and "db_categories db2 = db_categories db' @ ys"
  shows "\<exists>rows. rt_by_path tree' = rt_by_path tree @ rows \<and>
    rt_created tree' + rt_reused tree' = rt_created tree + rt_reused tree + int (length cs) \<and>
    ensure_all db2 p cs tree2 = (Inr (tree2\<lparr>rt_by_path := rt_by_path tree2 @ rows,
       rt_reused := rt_reused tree2 + int (length cs)\<rparr>), db2)"
  using assms(1)
proof (induction db p cs tree arbitrary: tree2 rule: ensure_all.induct)
  case (2 db p key chain cs tree)
  obtain r db1 where e: "ensure_category_path db p chain = (r, db1)" by fastforce
  with 2(2) obtain row n where r: "r = Inr (row, n)" by (auto split: sum.splits)
  let ?tree = "tree\<lparr>rt_by_path := rt_by_path tree @ [(key, row)], rt_created := rt_created tree + int n,
     rt_reused := rt_reused tree + (1 - int n)\<rparr>"
  let ?tree2 = "tree2\<lparr>rt_by_path := rt_by_path tree2 @ [(key, row)], rt_reused := rt_reused tree2 + 1\<rparr>"
  have rest: "ensure_all db1 p cs ?tree = (Inr tree', db')" using 2(2) by (simp add: e r)
  obtain zs where "db_categories db' = db_categories db1 @ zs" using ensure_all_extends [OF rest] by blast
  then have again: "ensure_category_path db2 p chain = (Inr (row, 0), db2)"
    using ensure_path_again [OF e [unfolded r], of db2 "zs @ ys"] assms(2) by simp
  note ih = 2(1) [OF e [symmetric] r refl rest]
  obtain rows where rows: "rt_by_path tree' = rt_by_path ?tree @ rows"
    "rt_created tree' + rt_reused tree' = rt_created ?tree + rt_reused ?tree + int (length cs)"
    "ensure_all db2 p cs ?tree2 = (Inr (?tree2\<lparr>rt_by_path := rt_by_path ?tree2 @ rows,
       rt_reused := rt_reused ?tree2 + int (length cs)\<rparr>), db2)"
    using ih [of ?tree2] by (elim exE conjE)
  show ?case
    by (rule exI [of _ "(key, row) # rows"]) (use rows in \<open>simp add: again add.assoc\<close>)
qed simp

text \<open>What later activity of the import leaves of a state: filings only grow, matches stay.\<close>

definition later :: "principal \<Rightarrow> database \<Rightarrow> database \<Rightarrow> bool" where
  "later p db db' \<longleftrightarrow> set (db_links db) \<subseteq> set (db_links db') \<and>
     (\<forall>i. map_option mo_id (fst (importable_match db' p i)) = map_option mo_id (fst (importable_match db p i)) \<and>
        snd (importable_match db' p i) = snd (importable_match db p i))"

lemma later_refl: "later p db db"
  by (simp add: later_def)

lemma later_trans: "later p a b \<Longrightarrow> later p b c \<Longrightarrow> later p a c"
  by (auto simp: later_def)

lemma match_id: "importable_match db p i = (Some obj, usable) \<Longrightarrow> mo_id obj = i \<and> tbl_get mo_id (db_objects db) i = Some obj"
  by (auto simp: importable_match_def dest: tbl_get_key split: option.splits)

lemma file_into_later:
  assumes "importable_match db p i = (Some obj, usable)"
  shows "later p db (file_into db obj categories now)"
    and "(\<lambda>c. (i, cat_id c)) ` set categories \<subseteq> set (db_links (file_into db obj categories now))"
    and "db_categories (file_into db obj categories now) = db_categories db"
proof -
  note m = match_id [OF assms]
  show "later p db (file_into db obj categories now)"
    using m by (auto simp: file_into_def later_def importable_match_def table_simps Let_def split: option.splits)
  show "(\<lambda>c. (i, cat_id c)) ` set categories \<subseteq> set (db_links (file_into db obj categories now))"
    using m by (auto simp: file_into_def Let_def image_iff filter_empty_conv)
  show "db_categories (file_into db obj categories now) = db_categories db"
    by (simp add: file_into_def Let_def)
qed

lemma file_into_again:
  "(\<lambda>c. (mo_id obj, cat_id c)) ` set categories \<subseteq> set (db_links db) \<Longrightarrow> file_into db obj categories now = db"
  by (force simp: file_into_def Let_def filter_empty_conv)

lemma categories_for_cong:
  "rt_by_path tree = rt_by_path tree' \<Longrightarrow> categories_for env cfg tree entry = categories_for env cfg tree' entry"
  by (cases "path_keys env cfg (ie_category_paths entry)") (simp_all add: categories_for_def)

text \<open>One row, and what a second visit makes of it.\<close>

definition manifest_row ::
  "database \<Rightarrow> principal \<Rightarrow> datetime \<Rightarrow> import_object_entry \<Rightarrow> category list \<Rightarrow> ustr list \<Rightarrow> import_object_result \<times> database" where
  "manifest_row db p now entry categories paths =
     (case importable_match db p (ie_id entry) of
        (None, _) \<Rightarrow> (row_result entry ROW_skipped (Some (REASON_missing_bytes, manifest_missing_message)) None paths, db)
      | (Some obj, usable) \<Rightarrow>
          if \<not> usable then (row_result entry ROW_failed (Some (REASON_id_conflict, id_conflict_message)) None paths, db)
          else link_existing db entry obj categories paths now)"

lemma manifest_row_again:
  assumes row: "manifest_row db p now entry categories paths = (result, db1)" and "later p db1 db2"
  shows "manifest_row db2 p now' entry categories paths = (result, db2)"
    and "later p db db1" and "db_categories db1 = db_categories db"
proof -
  obtain m usable where m: "importable_match db p (ie_id entry) = (m, usable)" by fastforce
  have step: "later p db db1 \<and> db_categories db1 = db_categories db"
    using row file_into_later(1,3) [of db p "ie_id entry" _ usable categories now]
    by (auto simp: manifest_row_def m link_existing_def later_refl split: option.splits if_splits)
  then show "later p db db1" "db_categories db1 = db_categories db" by simp_all
  have l: "later p db db2" by (rule later_trans [OF step [THEN conjunct1] assms(2)])
  obtain m2 usable2 where m2: "importable_match db2 p (ie_id entry) = (m2, usable2)" by fastforce
  have same: "map_option mo_id m2 = map_option mo_id m" "usable2 = usable"
    using l m m2 by (auto simp: later_def dest: spec [of _ "ie_id entry"])
  show "manifest_row db2 p now' entry categories paths = (result, db2)"
  proof (cases "m = None \<or> \<not> usable")
    case True
    then show ?thesis
      using row same by (cases m; cases m2) (auto simp: manifest_row_def m m2)
  next
    case False
    then obtain obj obj2 where o: "m = Some obj" "m2 = Some obj2" "usable" using same by (cases m2) auto
    have ids: "mo_id obj = ie_id entry" "mo_id obj2 = ie_id entry"
      using match_id m m2 o by blast+
    have r: "result = row_result entry ROW_linked (Some (REASON_already_exists, u ''Already in this collection; filed into the imported categories.'')) (Some (ie_id entry)) paths"
      "db1 = file_into db obj categories now"
      using row o ids by (simp_all add: manifest_row_def m link_existing_def)
    have "(\<lambda>c. (mo_id obj2, cat_id c)) ` set categories \<subseteq> set (db_links db2)"
      using file_into_later(2) [of db p "ie_id entry" obj usable categories now] m o assms(2) ids
      by (auto simp: later_def r)
    from file_into_again [OF this] show ?thesis
      using o same ids by (simp add: manifest_row_def m2 link_existing_def r)
  qed
qed

lemma manifest_rows_Inr:
  "manifest_rows env cfg tree db p now (entry # entries) = (Inr results, db') \<longleftrightarrow>
   (\<exists>categories paths result db1 rest. categories_for env cfg tree entry = Inr categories \<and>
      path_keys env cfg (ie_category_paths entry) = Inr paths \<and>
      manifest_row db p now entry categories paths = (result, db1) \<and>
      manifest_rows env cfg tree db1 p now entries = (Inr rest, db') \<and> results = result # rest)"
  by (auto simp: manifest_row_def Let_def split: sum.split prod.split)

lemma manifest_rows_again:
  assumes "rt_by_path tree2 = rt_by_path tree"
  shows "manifest_rows env cfg tree db p now entries = (Inr results, db') \<Longrightarrow> later p db' db2 \<Longrightarrow>
    manifest_rows env cfg tree2 db2 p now' entries = (Inr results, db2) \<and> later p db db' \<and> db_categories db' = db_categories db"
proof (induction entries arbitrary: db results)
  case (Cons entry entries)
  from Cons.prems(1) obtain categories paths result db1 rest where r:
    "categories_for env cfg tree entry = Inr categories" "path_keys env cfg (ie_category_paths entry) = Inr paths"
    "manifest_row db p now entry categories paths = (result, db1)"
    "manifest_rows env cfg tree db1 p now entries = (Inr rest, db')" "results = result # rest"
    unfolding manifest_rows_Inr by blast
  note ih = Cons.IH [OF r(4) Cons.prems(2)]
  have l: "later p db1 db2" using ih Cons.prems(2) later_trans by blast
  note again = manifest_row_again [OF r(3) l]
  have "categories_for env cfg tree2 entry = Inr categories" using r(1) categories_for_cong [OF assms] by simp
  then have "manifest_rows env cfg tree2 db2 p now' (entry # entries) = (Inr results, db2)"
    unfolding manifest_rows_Inr using r(2,5) again(1) ih by blast
  then show ?case using ih again(2,3) later_trans by metis
qed (simp add: later_refl)

text \<open>
  C22. Importing the same manifest again converges. Once a manifest import has gone through, a
  second one of the same document by the same caller writes nothing at all: no category is
  created and every path is reused, no object is filed twice or touched, and each row reports
  what it reported before.
\<close>

theorem reimport_converges:
  assumes first: "import_manifest env cfg db p source now = (Inr report, db')"
  shows "\<exists>report'. import_manifest env cfg db' p source now' = (Inr report', db') \<and>
    rp_objects report' = rp_objects report \<and> rp_categories_created report' = 0 \<and>
    rp_categories_reused report' = rp_categories_created report + rp_categories_reused report"
proof -
  from first obtain raw manifest tree db1 rows where
    raw: "drain_to_tempfile source (MEDIA_IMPORT_MAX_MANIFEST_BYTES cfg) = Inr raw"
      "parse_manifest_document env cfg raw = Inr manifest"
    and tree: "recreate_tree env cfg db p manifest = (Inr tree, db1)"
    and rows: "manifest_rows env cfg tree db1 p now (im_objects manifest) = (Inr rows, db')"
    and report: "report = tallied (rt_created tree) (rt_reused tree) rows"
    by (auto simp: import_manifest_def split: sum.splits prod.splits)
  let ?none = "\<lparr>rt_by_path = [], rt_created = 0, rt_reused = 0\<rparr> :: recreated_tree"
  obtain cs where cs: "manifest_chains env cfg manifest = Inr cs" "int (length cs) \<le> MEDIA_IMPORT_MAX_CATEGORIES cfg"
    and all: "ensure_all db p (sort_key (\<lambda>(key, chain). (count_ch 47 key, key)) cs) ?none = (Inr tree, db1)" (is "ensure_all _ _ ?cs _ = _")
    using tree by (auto simp: recreate_tree_def split: sum.splits if_splits)
  have "db_categories db' = db_categories db1" using manifest_rows_again [OF refl rows later_refl] by blast
  then obtain paths where paths: "rt_by_path tree = rt_by_path ?none @ paths"
      "rt_created tree + rt_reused tree = rt_created ?none + rt_reused ?none + int (length ?cs)"
    and again: "ensure_all db' p ?cs ?none = (Inr (?none\<lparr>rt_by_path := rt_by_path ?none @ paths,
       rt_reused := rt_reused ?none + int (length ?cs)\<rparr>), db')"
    using ensure_all_again [OF all, of db' "[]" ?none] by auto
  let ?tree = "?none\<lparr>rt_by_path := paths, rt_reused := int (length ?cs)\<rparr>"
  have "recreate_tree env cfg db' p manifest = (Inr ?tree, db')"
    using again cs by (simp add: recreate_tree_def)
  moreover have "manifest_rows env cfg ?tree db' p now' (im_objects manifest) = (Inr rows, db')"
    using manifest_rows_again [OF _ rows later_refl, of ?tree now'] paths(1) by simp
  ultimately have "import_manifest env cfg db' p source now' = (Inr (tallied 0 (int (length ?cs)) rows), db')"
    by (simp add: import_manifest_def raw)
  then show ?thesis using paths(2) by (simp add: report tallied_def Let_def)
qed

section \<open>What an archive import may touch\<close>

lemma reject_upload_bytes:
  assumes "storage_laws api view" and "reject_upload api w usage sess reason mime stat now = (res, w')"
    and "l \<noteq> (us_storage_bucket sess, us_object_key sess)"
  shows "view (w_sto w') l = view (w_sto w) l"
  using assms(2)
proof (cases rule: reject_upload_cases)
  case (audited m)
  then show ?thesis using storage_remove_frame [OF assms(1,3)] by simp
qed simp

lemma promote_upload_bytes:
  assumes laws: "storage_laws api view" and run: "promote_upload cfg api w p sess categories stat sha256 now = (res, w')"
    and l: "l \<noteq> (us_storage_bucket sess, us_object_key sess)"
  shows "view (w_sto w') l = view (w_sto w) l"
proof -
  obtain ok s' where pin: "api_set_content_type api (w_sto w) (us_storage_bucket sess) (us_object_key sess)
      (us_expected_mime_type sess) = (ok, s')" by fastforce
  have s': "view s' l = view (w_sto w) l"
    using storage_set_content_type_view [OF laws, of "w_sto w" "us_storage_bucket sess" "us_object_key sess" "us_expected_mime_type sess"]
    by (simp add: pin)
  obtain rr usage' ms where r: "reserve_storage_for_object cfg (db_usage (w_db w)) (us_owner_user_id sess)
      (us_tenant_id sess) (stat_size stat) now = (rr, usage', ms)" by (metis prod_cases3)
  show ?thesis
  proof (cases ok)
    case True
    show ?thesis
    proof (cases rr)
      case (Inl reason)
      then have "reject_upload api (ticks ms (w\<lparr>w_sto := s'\<rparr>)) usage' sess reason (us_expected_mime_type sess) stat now = (res, w')"
        using run True by (simp add: promote_upload_def pin r)
      from reject_upload_bytes [OF laws this l] show ?thesis by (simp add: s')
    next
      case (Inr x)
      then have "w_sto w' = s'" using run True by (auto simp: promote_upload_def pin r Let_def split: option.splits)
      then show ?thesis by (simp add: s')
    qed
  qed (use run s' in \<open>auto simp: promote_upload_def pin\<close>)
qed

lemma complete_upload_bytes:
  assumes laws: "storage_laws api view" and run: "complete_upload env cfg api w p i req now = (res, w')"
    and l: "\<And>sess. tbl_get us_id (db_sessions (w_db w)) i = Some sess \<Longrightarrow> l \<noteq> (us_storage_bucket sess, us_object_key sess)"
  shows "view (w_sto w') l = view (w_sto w) l"
proof (cases "\<exists>sess. load_owned_session (w_db w) p i = Inr sess \<and> (\<exists>db'. ensure_completable (w_db w) sess now = (Inr (), db'))")
  case False
  then have "w_sto w' = w_sto w"
    using run by (auto simp: complete_upload_def split: sum.splits prod.splits)
  then show ?thesis by simp
next
  case True
  then obtain sess db' where sess: "load_owned_session (w_db w) p i = Inr sess" "ensure_completable (w_db w) sess now = (Inr (), db')"
    by blast
  then have l: "l \<noteq> (us_storage_bucket sess, us_object_key sess)" using l by (simp add: load_owned_session_Inr)
  note unfolded = run [unfolded complete_upload_def sess sum.case prod.case filing_of_def [symmetric]]
  consider "w_sto w' = w_sto w"
    | reason stat where "reject_upload api w (db_usage (w_db w)) sess reason (us_expected_mime_type sess) stat now = (res, w')"
    | categories stat where "promote_upload cfg api w p sess categories stat (uc_sha256 req) now = (res, w')"
    using unfolded by (auto split: sum.splits option.splits)
  then show ?thesis
    by cases (use reject_upload_bytes [OF laws _ l] promote_upload_bytes [OF laws _ l] in auto)
qed

text \<open>
  An object row an import of \<open>p\<close> inserts: in the importer's own scope, under an id of the
  document, with the verdict still to come. \<open>own_space\<close> is the importer's part of a bucket.
\<close>

definition imported_row :: "principal \<Rightarrow> uuid set \<Rightarrow> media_object \<Rightarrow> bool" where
  "imported_row p ids obj \<longleftrightarrow> mo_owner_user_id obj = p_id p \<and> mo_tenant_id obj = p_tenant p \<and> mo_id obj \<in> ids \<and>
     mo_scan_status obj = SCAN_PENDING \<and> mo_status obj \<in> {OBJ_UPLOADED, OBJ_REJECTED} \<and> mo_deleted_at obj = None"

definition restamped :: "media_object \<Rightarrow> media_object \<Rightarrow> bool" where
  "restamped obj obj' \<longleftrightarrow> obj' = obj\<lparr>mo_updated_at := mo_updated_at obj'\<rparr>"

definition own_space :: "principal \<Rightarrow> location set" where
  "own_space p = {(b, k). \<exists>rest. k = owner_prefix (p_id p) (p_tenant p) @ 47 # rest}"

definition rows_step :: "principal \<Rightarrow> uuid set \<Rightarrow> media_object list \<Rightarrow> media_object list \<Rightarrow> bool" where
  "rows_step p ids old new \<longleftrightarrow> distinct (map mo_id new) \<and>
     (\<forall>obj \<in> set old. \<exists>obj' \<in> set new. restamped obj obj') \<and>
     (\<forall>obj' \<in> set new. (\<exists>obj \<in> set old. restamped obj obj') \<or> imported_row p ids obj')"

definition import_step :: "'s view \<Rightarrow> principal \<Rightarrow> uuid set \<Rightarrow> 's world \<Rightarrow> 's world \<Rightarrow> bool" where
  "import_step view p ids w w' \<longleftrightarrow>
     (distinct (map mo_id (db_objects (w_db w))) \<longrightarrow> rows_step p ids (db_objects (w_db w)) (db_objects (w_db w'))) \<and>
     (\<forall>l. l \<notin> own_space p \<longrightarrow> view (w_sto w') l = view (w_sto w) l)"

lemma restamped_refl: "restamped obj obj"
  by (simp add: restamped_def)

lemma restamped_trans: "restamped a b \<Longrightarrow> restamped b c \<Longrightarrow> restamped a c"
  by (cases a; cases b; cases c) (simp add: restamped_def)

lemma imported_row_restamped: "imported_row p ids a \<Longrightarrow> restamped a b \<Longrightarrow> imported_row p ids b"
  by (cases a; cases b) (simp add: restamped_def imported_row_def)

lemma rows_step_trans:
  assumes "rows_step p ids a b" and "rows_step p ids b c"
  shows "rows_step p ids a c"
proof -
  have "\<exists>z \<in> set c. restamped x z" if "x \<in> set a" for x
  proof -
    obtain y where "y \<in> set b" "restamped x y" using assms(1) \<open>x \<in> set a\<close> by (auto simp: rows_step_def)
    moreover from this obtain z where "z \<in> set c" "restamped y z" using assms(2) by (auto simp: rows_step_def)
    ultimately show ?thesis using restamped_trans by blast
  qed
  moreover have "(\<exists>x \<in> set a. restamped x z) \<or> imported_row p ids z" if "z \<in> set c" for z
  proof -
    consider y where "y \<in> set b" "restamped y z" | "imported_row p ids z"
      using assms(2) \<open>z \<in> set c\<close> by (auto simp: rows_step_def)
    then show ?thesis
    proof cases
      case (1 y)
      then have "(\<exists>x \<in> set a. restamped x y) \<or> imported_row p ids y" using assms(1) by (simp add: rows_step_def)
      with 1 restamped_trans imported_row_restamped show ?thesis by blast
    qed simp
  qed
  ultimately show ?thesis using assms(2) by (simp add: rows_step_def)
qed

lemma rows_step_distinct: "rows_step p ids a b \<Longrightarrow> distinct (map mo_id b)"
  by (simp add: rows_step_def)

lemma import_step_trans:
  assumes "import_step view p ids w w1" and "import_step view p ids w1 w2"
  shows "import_step view p ids w w2"
  using assms rows_step_trans rows_step_distinct by (simp add: import_step_def) blast

lemma import_step_same:
  assumes "db_objects (w_db w') = db_objects (w_db w)" and "\<And>l. l \<notin> own_space p \<Longrightarrow> view (w_sto w') l = view (w_sto w) l"
  shows "import_step view p ids w w'"
  using assms restamped_refl unfolding import_step_def rows_step_def by auto

lemma import_step_added:
  assumes "db_objects (w_db w') = db_objects (w_db w) @ [obj]" and "mo_id obj \<notin> mo_id ` set (db_objects (w_db w))"
    and "imported_row p ids obj" and "\<And>l. l \<notin> own_space p \<Longrightarrow> view (w_sto w') l = view (w_sto w) l"
  shows "import_step view p ids w w'"
  using assms restamped_refl unfolding import_step_def rows_step_def by (auto; blast)

lemma import_step_restamped:
  assumes "tbl_get mo_id (db_objects (w_db w)) i = Some obj"
    and "db_objects (w_db w') = tbl_put mo_id (db_objects (w_db w)) (obj\<lparr>mo_updated_at := t\<rparr>)" and "w_sto w' = w_sto w"
  shows "import_step view p ids w w'"
proof -
  let ?old = "db_objects (w_db w)" and ?new = "db_objects (w_db w')" and ?obj = "obj\<lparr>mo_updated_at := t\<rparr>"
  have "rows_step p ids ?old ?new" if d: "distinct (map mo_id ?old)"
  proof -
    have obj: "obj \<in> set ?old" using tbl_get_mem [OF assms(1)] .
    have new: "set ?new = insert ?obj {x \<in> set ?old. mo_id x \<noteq> mo_id obj}"
      unfolding assms(2) using set_tbl_put [OF d, of ?obj] by simp
    have "\<exists>y \<in> set ?new. restamped x y" if "x \<in> set ?old" for x
    proof (cases "mo_id x = mo_id obj")
      case True
      then have "x = obj" using d obj that by (auto simp: distinct_map inj_on_def)
      then show ?thesis by (simp add: new restamped_def)
    next
      case False
      then show ?thesis using that restamped_refl by (auto simp: new)
    qed
    moreover have "\<exists>x \<in> set ?old. restamped x y" if "y \<in> set ?new" for y
    proof (cases "y = ?obj")
      case True
      then have "restamped obj y" by (simp add: restamped_def)
      with obj show ?thesis by blast
    next
      case False
      then show ?thesis using that restamped_refl by (auto simp: new)
    qed
    ultimately show ?thesis using distinct_tbl_put [OF d] by (simp add: rows_step_def assms(2))
  qed
  then show ?thesis by (simp add: import_step_def assms(3))
qed

section \<open>Each row of an archive keeps to that\<close>

lemma stage_upload_Inr:
  assumes "stage_upload env cfg db p req i = (Inr staged, ms)"
  shows "st_media_id staged = i" "st_owner_id staged = p_id p" "st_tenant_id staged = p_tenant p"
    "(st_bucket staged, st_object_key staged) \<in> own_space p"
proof -
  have "st_media_id staged = i \<and> st_owner_id staged = p_id p \<and> st_tenant_id staged = p_tenant p \<and>
      (\<exists>c f. st_object_key staged = build_object_key (ue_unicode env) (p_id p) i c f (p_tenant p))"
    using assms by (auto simp: stage_upload_def split: if_splits sum.splits prod.splits) blast
  then show "st_media_id staged = i" "st_owner_id staged = p_id p" "st_tenant_id staged = p_tenant p"
    "(st_bucket staged, st_object_key staged) \<in> own_space p"
    by (auto simp: own_space_def build_object_key_def)
qed

lemma record_upload_session_Inr:
  assumes "record_upload_session db staged req expires_at now = (Inr row, db')"
  shows "us_id row = st_media_id staged" "us_owner_user_id row = st_owner_id staged" "us_tenant_id row = st_tenant_id staged"
    "us_storage_bucket row = st_bucket staged" "us_object_key row = st_object_key staged"
    "db_objects db' = db_objects db" "tbl_get us_id (db_sessions db') (st_media_id staged) = Some row"
  using assms
  by (auto simp: record_upload_session_def insert_upload_session_def tbl_insert_def tbl_get_append Let_def
      split: option.splits if_splits)

lemma complete_import_step:
  assumes laws: "storage_laws api view" and stage: "stage_upload uenv cfg db0 p req0 i = (Inr staged, ms0)" and "i \<in> ids"
    and run: "complete_import env cfg api w p now entry req staged categories paths = (res, w')"
  shows "import_step view p ids w w'"
proof -
  obtain r db' where rec: "record_upload_session (w_db w) staged req (now + seconds (S3_PRESIGNED_URL_EXPIRE_SECONDS cfg)) now = (r, db')"
    by fastforce
  show ?thesis
  proof (cases r)
    case (Inl e)
    then have "w' = w" using run rec by (simp add: complete_import_def)
    then show ?thesis by (auto intro: import_step_same)
  next
    case (Inr row)
    note s = stage_upload_Inr [OF stage] and row = record_upload_session_Inr [OF rec [unfolded Inr]]
    let ?req = "\<lparr>uc_sha256 = ie_sha256 entry, uc_category_ids = Some (map cat_id categories)\<rparr>"
    obtain res2 where done2: "complete_upload (en_upload env) cfg api (w\<lparr>w_db := db'\<rparr>) p (st_media_id staged) ?req now = (res2, w')"
      using run by (auto simp: complete_import_def rec Inr split: sum.splits prod.splits option.splits)
    have bytes: "view (w_sto w') l = view (w_sto w) l" if "l \<notin> own_space p" for l
      using complete_upload_bytes [OF laws done2, of l] that s(4) row(4,5,7) by auto
    have new: "imported_row p ids (object_of_session row mime stat sha st now)" if "st = OBJ_UPLOADED \<or> st = OBJ_REJECTED" for mime stat sha st
      using that s row \<open>i \<in> ids\<close> by (auto simp: imported_row_def)
    have loaded: "sess = row" if "load_owned_session db' p (st_media_id staged) = Inr sess" for sess
      using that row(7) by (simp add: load_owned_session_Inr)
    have free: "mo_id (object_of_session row mime stat sha st now) \<notin> mo_id ` set (db_objects (w_db w))"
      if "row_free (db_objects db') row" for mime stat sha st
      using that row(6) by (auto simp: row_free_def)
    from done2 show ?thesis
    proof (cases rule: complete_upload_cases)
      case (failed e)
      then show ?thesis using row(6) bytes by (intro import_step_same) simp_all
    next
      case (expired e sess)
      then show ?thesis using row(6) bytes by (intro import_step_same) (simp_all add: put_session_def)
    next
      case (rejected m reason sess stat s' usage')
      then have "sess = row" using loaded by simp
      with rejected row(6) free new bytes show ?thesis
        by (intro import_step_added [where obj = "object_of_session row (us_expected_mime_type row) stat None OBJ_REJECTED now"])
          (simp_all add: put_session_def)
    next
      case (promoted public)
      from done2 [unfolded promoted] obtain sess cats stat usage' ms s' where
        c: "completable (en_upload env) cfg api (w\<lparr>w_db := db'\<rparr>) p (st_media_id staged) ?req now sess cats stat"
        and obj: "mop_object public = object_of_session sess (us_expected_mime_type sess) stat (uc_sha256 ?req) OBJ_UPLOADED now"
        and db: "w_db w' = put_session ((w_db (w\<lparr>w_db := db'\<rparr>))\<lparr>db_objects := db_objects (w_db (w\<lparr>w_db := db'\<rparr>)) @ [mop_object public],
           db_usage := usage', db_links := refile (db_links (w_db (w\<lparr>w_db := db'\<rparr>))) (us_id sess) cats\<rparr>)
           (sess\<lparr>us_status := SES_COMPLETED, us_completed_at := Some now\<rparr>)"
        by (rule complete_upload_effect)
      have "sess = row" "row_free (db_objects db') row" using c row(7) by (simp_all add: completable_def)
      with obj db row(6) free new bytes show ?thesis
        by (intro import_step_added [where obj = "mop_object public"]) (simp_all add: put_session_def)
    qed
  qed
qed

lemma store_entry_frame:
  assumes "storage_laws api view" and "store_entry api w staged info mime = (ok, w')"
  shows "w_db w' = w_db w" "l \<noteq> (st_bucket staged, st_object_key staged) \<Longrightarrow> view (w_sto w') l = view (w_sto w) l"
proof -
  show "w_db w' = w_db w" using assms(2) by (auto simp: store_entry_def Let_def split: option.splits prod.splits)
  assume l: "l \<noteq> (st_bucket staged, st_object_key staged)"
  have "w_sto w' = w_sto w \<or> (\<exists>bytes. w_sto w' = snd (api_put api (w_sto w) (st_bucket staged) (st_object_key staged) bytes mime))"
    using assms(2) by (auto simp: store_entry_def Let_def split: option.splits prod.splits) (metis snd_conv)
  then show "view (w_sto w') l = view (w_sto w) l"
    using storage_put_frame [OF assms(1) l] by metis
qed

lemma import_new_file_step:
  assumes laws: "storage_laws api view" and "ie_id entry \<in> ids"
    and run: "import_new_file env cfg api w p now info entry categories paths = (res, w')"
  shows "import_step view p ids w w'"
proof -
  let ?valid = "validate_initiate (ue_unicode (en_upload env)) cfg (upload_request_of env entry (ze_file_size info) categories)"
  consider "w' = w"
    | req e ms where "w' = ticks ms w"
    | req staged ms w1 ok where "stage_upload (en_upload env) cfg (w_db w) p req (ie_id entry) = (Inr staged, ms)"
        "store_entry api (ticks ms w) staged info (ie_mime_type entry) = (ok, w1)"
        "(ok = False \<and> w' = best_effort_remove api (st_bucket staged) (st_object_key staged) w1) \<or>
         (ok = True \<and> complete_import env cfg api w1 p now entry req staged categories paths = (res, w'))"
    using run by (auto simp: import_new_file_def Let_def split: if_splits sum.splits prod.splits option.splits bool.splits)
  then show ?thesis
  proof cases
    case (3 req staged ms w1 ok)
    note own = stage_upload_Inr(4) [OF 3(1)] and put = store_entry_frame [OF laws 3(2)]
    have "view (w_sto w1) l = view (w_sto w) l" if "l \<notin> own_space p" for l
      using put(2) [of l] own that by auto
    then have one: "import_step view p ids w w1" using put(1) by (intro import_step_same) simp_all
    from 3(3) show ?thesis
    proof (elim disjE conjE)
      assume w': "w' = best_effort_remove api (st_bucket staged) (st_object_key staged) w1"
      have "view (w_sto w') l = view (w_sto w1) l" if "l \<notin> own_space p" for l
        unfolding w' by (rule best_effort_remove_frame [OF laws]) (use own that in metis)
      then have "import_step view p ids w1 w'" by (intro import_step_same) (simp_all add: w')
      with one show ?thesis by (rule import_step_trans)
    next
      assume "complete_import env cfg api w1 p now entry req staged categories paths = (res, w')"
      from complete_import_step [OF laws 3(1) assms(2) this] one show ?thesis by (rule import_step_trans [rotated])
    qed
  qed (auto intro: import_step_same)
qed

lemma import_one_file_step:
  assumes laws: "storage_laws api view" and "ie_id entry \<in> ids"
    and run: "import_one_file env cfg api w p now info entry categories paths = (res, w')"
  shows "import_step view p ids w w'"
proof -
  obtain m usable where m: "importable_match (w_db w) p (ie_id entry) = (m, usable)" by fastforce
  show ?thesis
  proof (cases m)
    case None
    then show ?thesis
      using run import_new_file_step [OF laws assms(2)] by (auto simp: import_one_file_def m split: option.splits intro: import_step_same)
  next
    case (Some obj)
    note got = match_id [OF m [unfolded Some], THEN conjunct2]
    have "w' = w \<or> w' = w\<lparr>w_db := file_into (w_db w) obj categories now\<rparr>"
      using run by (auto simp: import_one_file_def m Some link_existing_def split: if_splits)
    then show ?thesis
    proof
      assume w': "w' = w\<lparr>w_db := file_into (w_db w) obj categories now\<rparr>"
      then have "db_objects (w_db w') = db_objects (w_db w) \<or>
          db_objects (w_db w') = tbl_put mo_id (db_objects (w_db w)) (obj\<lparr>mo_updated_at := now\<rparr>)"
        by (simp add: file_into_def Let_def)
      then show ?thesis
      proof
        assume "db_objects (w_db w') = db_objects (w_db w)"
        then show ?thesis by (rule import_step_same) (simp add: w')
      qed (rule import_step_restamped [OF got], simp_all add: w')
    qed (auto intro: import_step_same)
  qed
qed

lemma archive_rows_step:
  assumes laws: "storage_laws api view"
  shows "ie_id ` set entries \<subseteq> ids \<Longrightarrow> archive_rows env cfg api tree files w p now entries = (res, w') \<Longrightarrow> import_step view p ids w w'"
proof (induction entries arbitrary: w res)
  case (Cons entry entries)
  have i: "ie_id entry \<in> ids" and rest: "ie_id ` set entries \<subseteq> ids" using Cons.prems(1) by auto
  consider "w' = w"
    | categories paths r w1 where "import_one_file env cfg api w p now (map_of files (ie_id entry)) entry categories paths = (r, w1)"
        "w' = w1 \<or> (\<exists>res2. archive_rows env cfg api tree files w1 p now entries = (res2, w'))"
    using Cons.prems(2) by (auto split: sum.splits prod.splits)
  then show ?case
  proof cases
    case (2 categories paths r w1)
    have one: "import_step view p ids w w1" by (rule import_one_file_step [OF laws i 2(1)])
    from 2(2) show ?thesis using one Cons.IH [OF rest] import_step_trans by blast
  qed (auto intro: import_step_same)
qed (auto intro: import_step_same)

lemma recreate_tree_frame:
  assumes "recreate_tree env cfg db p manifest = (res, db')"
  shows "db_objects db' = db_objects db \<and> db_links db' = db_links db"
  using assms by (auto simp: recreate_tree_def split: sum.splits if_splits dest: ensure_all_extends)

lemma import_open_archive_step:
  assumes laws: "storage_laws api view" and run: "import_open_archive env cfg api w p archive now = (res, w')"
  shows "\<exists>ids. (ids = {} \<or> (\<exists>manifest. archive_manifest env cfg archive = Inr manifest \<and> ids = ie_id ` set (im_objects manifest))) \<and>
    import_step view p ids w w'"
proof -
  have same: "import_step view p {} w w" by (auto intro: import_step_same)
  show ?thesis
  proof (cases "archive_manifest env cfg archive")
    case (Inr manifest)
    let ?files = "file_entries env archive" and ?ids = "ie_id ` set (im_objects manifest)"
    obtain r db1 where tree: "recreate_tree env cfg (w_db w) p manifest = (r, db1)" by fastforce
    have one: "import_step view p ?ids w (w\<lparr>w_db := db1\<rparr>)"
      using recreate_tree_frame [OF tree] by (intro import_step_same) simp_all
    consider "w' = w" | "w' = w\<lparr>w_db := db1\<rparr>"
      | t res2 where "archive_rows env cfg api t ?files (w\<lparr>w_db := db1\<rparr>) p now (im_objects manifest) = (res2, w')"
      using run tree by (auto simp: import_open_archive_def Inr Let_def split: sum.splits prod.splits)
    then show ?thesis
    proof cases
      case 1
      with same show ?thesis by blast
    next
      case 2
      with one Inr show ?thesis by blast
    next
      case (3 t res2)
      from import_step_trans [OF one archive_rows_step [OF laws order.refl 3]] Inr show ?thesis by blast
    qed
  next
    case (Inl e)
    then have "w' = w" using run by (simp add: import_open_archive_def)
    with same show ?thesis by blast
  qed
qed

text \<open>
  C21. An archive is not trusted. Whatever it holds and however the run ends, every object row
  that was there keeps everything but its time stamp, so no imported verdict, owner or
  location is taken over; every row that is new belongs to the importer, carries an id of the
  document, is unscanned and live, and is an upload or the audit record of a refused one; and
  no stored bytes outside the importer's own key space change.
\<close>

theorem imported_archive_not_trusted:
  assumes laws: "storage_laws api view" and ids: "distinct (map mo_id (db_objects (w_db w)))"
    and run: "import_archive env cfg api w p source now = (res, w')"
  shows "(\<forall>obj \<in> set (db_objects (w_db w)). \<exists>obj' \<in> set (db_objects (w_db w')). restamped obj obj') \<and>
    (\<forall>obj' \<in> set (db_objects (w_db w')). (\<exists>obj \<in> set (db_objects (w_db w)). restamped obj obj') \<or>
       (\<exists>raw archive manifest. drain_to_tempfile source (MEDIA_IMPORT_MAX_ARCHIVE_BYTES cfg) = Inr raw \<and>
          en_unzip env raw = Some archive \<and> archive_manifest env cfg archive = Inr manifest \<and>
          imported_row p (ie_id ` set (im_objects manifest)) obj')) \<and>
    (\<forall>l. l \<notin> own_space p \<longrightarrow> view (w_sto w') l = view (w_sto w) l)"
proof (cases "drain_to_tempfile source (MEDIA_IMPORT_MAX_ARCHIVE_BYTES cfg)")
  case (Inl e)
  with run show ?thesis using restamped_refl by (auto simp: import_archive_def)
next
  case raw: (Inr raw)
  show ?thesis
  proof (cases "en_unzip env raw")
    case None
    with run raw show ?thesis using restamped_refl by (auto simp: import_archive_def)
  next
    case (Some archive)
    have "import_open_archive env cfg api w p archive now = (res, w')"
      using run raw Some by (simp add: import_archive_def)
    from import_open_archive_step [OF laws this] obtain ids' where
      i: "ids' = {} \<or> (\<exists>manifest. archive_manifest env cfg archive = Inr manifest \<and> ids' = ie_id ` set (im_objects manifest))"
      and step: "import_step view p ids' w w'" by blast
    have "\<not> imported_row p {} obj" for obj by (simp add: imported_row_def)
    then show ?thesis
      using i step ids raw Some unfolding import_step_def rows_step_def by blast
  qed
qed

section \<open>Concrete imports\<close>

definition demo_entry :: import_object_entry where
  "demo_entry = \<lparr>ie_id = 5, ie_filename = None, ie_category = CAT_ASSET, ie_category_paths = [[97]], ie_visibility = VIS_PRIVATE,
     ie_size_bytes = 3, ie_sha256 = None, ie_mime_type = ''image/png''\<rparr>"

definition demo_manifest :: import_manifest_doc where
  "demo_manifest = \<lparr>im_category_tree = [ImportCategoryNode [65] [97] []], im_objects = [demo_entry]\<rparr>"

text \<open>A zip is its manifest and the bytes of the object 5; names are their own slugs.\<close>

definition demo_import_env :: "blob option \<Rightarrow> import_env" where
  "demo_import_env manifest_bytes = \<lparr>en_upload = demo_env (Some ''image/png''), en_loads = (\<lambda>_. Some (J_Obj [])),
     en_model = (\<lambda>_. Some demo_manifest), en_slugify = id,
     en_unzip = (\<lambda>_. Some [\<lparr>ze_filename = u ''manifest.json'', ze_is_dir = False, ze_file_size = 2, ze_data = manifest_bytes\<rparr>,
        \<lparr>ze_filename = u ''files/5/x'', ze_is_dir = False, ze_file_size = 3, ze_data = Some [1, 2, 3]\<rparr>]),
     en_uuid = (\<lambda>_. Some 5)\<rparr>"

lemmas demo_import_defs = demo_import_env_def demo_manifest_def demo_entry_def

lemma demo_parse: "parse_manifest_document (demo_import_env m) (default_settings None None) raw = Inr demo_manifest"
  by (simp add: parse_manifest_document_def demo_import_env_def assert_document_within_ceilings_def get_or_empty_def default_settings_def)

lemma demo_chains: "manifest_chains (demo_import_env m) (default_settings None None) demo_manifest = Inr [([97], [([65], [97])])]"
  by (simp add: manifest_chains_def demo_import_defs tree_chains_def collect_chain_def setdefault_def chain_key_def
      path_chain_def strip_def is_space_def default_settings_def Let_def)

lemma demo_recreated:
  assumes "db_categories db = []"
  shows "recreate_tree (demo_import_env m) (default_settings None None) db demo_principal demo_manifest =
    (let (row, db') = insert_category db [65] [97] None 1 None in (Inr \<lparr>rt_by_path = [([97], row)], rt_created = 1, rt_reused = 0\<rparr>, db'))"
proof -
  have "MEDIA_IMPORT_MAX_CATEGORIES (default_settings None None) = 1000" by (simp add: default_settings_def)
  then show ?thesis
    using assms by (simp add: recreate_tree_def demo_chains ensure_category_path_def sibling_with_slug_def
        demo_principal_def user_tenant_id_def insert_category_def Let_def)
qed

lemma demo_paths: "path_keys (demo_import_env m) (default_settings None None) (ie_category_paths demo_entry) = Inr [[97]]"
  by (simp add: demo_import_defs path_chain_def strip_def is_space_def default_settings_def chain_key_def Let_def)

theorem reimport_converges_witness:
  "\<exists>report db'. import_manifest (demo_import_env None) (default_settings None None) demo_export_db demo_principal [[123, 125]] 7 = (Inr report, db') \<and>
     (\<exists>report'. import_manifest (demo_import_env None) (default_settings None None) db' demo_principal [[123, 125]] 8 = (Inr report', db'))"
proof -
  obtain report db' where first: "import_manifest (demo_import_env None) (default_settings None None) demo_export_db demo_principal [[123, 125]] 7 = (Inr report, db')"
  proof -
    have limit: "MEDIA_IMPORT_MAX_MANIFEST_BYTES (default_settings None None) = 16777216" by (simp add: default_settings_def)
    have none: "db_categories demo_export_db = []" by (simp add: demo_export_db_def empty_db_def)
    have objs: "im_objects demo_manifest = [demo_entry]" by (simp add: demo_manifest_def)
    show ?thesis
      by (rule that) (simp add: import_manifest_def drain_to_tempfile_def limit demo_parse demo_recreated [OF none] objs
          insert_category_def categories_for_def demo_paths Let_def split_def)
  qed
  from reimport_converges [OF first] first show ?thesis by blast
qed

theorem imported_archive_not_trusted_witness:
  "\<exists>res w'. import_archive (demo_import_env (Some [123, 125])) (default_settings None None) (mem_api True)
       \<lparr>w_db = empty_db, w_sto = Map.empty, w_metrics = []\<rparr> demo_principal [[80, 75]] 7 = (res, w') \<and>
     (\<forall>l. l \<notin> own_space demo_principal \<longrightarrow> w_sto w' l = None)"
proof -
  let ?w = "\<lparr>w_db = empty_db, w_sto = Map.empty, w_metrics = []\<rparr> :: (location \<Rightarrow> blob option) world"
  have ids: "distinct (map mo_id (db_objects (w_db ?w)))" by (simp add: empty_db_def)
  obtain res w' where run: "import_archive (demo_import_env (Some [123, 125])) (default_settings None None) (mem_api True)
      ?w demo_principal [[80, 75]] 7 = (res, w')" by fastforce
  from imported_archive_not_trusted [OF mem_api_laws ids this] run show ?thesis by auto
qed

text \<open>
  A damaged or encrypted \<open>manifest.json\<close> is not refused as a document: the exception of the
  zip reader escapes.
\<close>

lemma damaged_manifest_escapes:
  "last_named archive (u ''manifest.json'') = Some info \<Longrightarrow> ze_data info = None \<Longrightarrow>
   ze_file_size info \<le> MEDIA_IMPORT_MAX_MANIFEST_BYTES cfg \<Longrightarrow>
   import_open_archive env cfg api w p archive now = (Inl (Raised ''BadZipFile''), w)"
  by (simp add: import_open_archive_def archive_manifest_def)

text \<open>
  A row whose source id is still the id of an upload session (an aborted or expired upload, or
  an object the retention purge has since removed) breaks off the whole import: recording
  the session violates its primary key after the row's bytes were stored.
\<close>

lemma leftover_session_aborts_import:
  assumes "tbl_get us_id (db_sessions (w_db w)) (st_media_id staged) \<noteq> None"
  shows "complete_import env cfg api w p now entry req staged categories paths = (Inl (Raised ''IntegrityError''), w)"
  using assms by (auto simp: complete_import_def record_upload_session_def insert_upload_session_def tbl_insert_def Let_def)

end
