(* ===== verification/RateLimit.thy ===== *)
theory RateLimit
  imports DataModel
begin

text \<open>
  Request admission: the fixed-window rate limiters (\<open>core/rate_limit.py\<close>), the
  Redis key builder they use (\<open>core/media_redis.py\<close>), the anonymous-capable
  authentication dependency and the service-token guard (\<open>core/deps.py\<close>).

  Redis is a third-party service, so its two commands are the parameter
  \<open>redis_api\<close> over an opaque state; what the limiter relies on is \<open>redis_laws\<close>,
  stated over a view of the counters and their deadlines. The limiters the routes
  mount are listed as \<open>user_limiters\<close>, \<open>optional_limiters\<close> and \<open>anon_limiters\<close>.
\<close>

section \<open>Redis\<close>

record 'r redis_api =
  rd_incr :: "datetime \<Rightarrow> ustr \<Rightarrow> 'r \<Rightarrow> int option \<times> 'r"      \<comment> \<open>\<open>None\<close>: the client raised\<close>
  rd_expire :: "datetime \<Rightarrow> ustr \<Rightarrow> int \<Rightarrow> 'r \<Rightarrow> bool \<times> 'r"    \<comment> \<open>\<open>False\<close>: the client raised\<close>

text \<open>A stored counter and its deadline; past the deadline it reads as absent.\<close>

type_synonym counter = "int \<times> datetime option"

definition live :: "datetime \<Rightarrow> counter option \<Rightarrow> counter option" where
  "live now e = (case e of Some (n, Some d) \<Rightarrow> if d \<le> now then None else e | _ \<Rightarrow> e)"

definition incremented :: "datetime \<Rightarrow> counter option \<Rightarrow> counter" where
  "incremented now e = (case live now e of None \<Rightarrow> (1, None) | Some (n, d) \<Rightarrow> (n + 1, d))"

definition expiring :: "datetime \<Rightarrow> int \<Rightarrow> counter option \<Rightarrow> counter option" where
  "expiring now secs e = (case live now e of
     None \<Rightarrow> None
   | Some (n, d) \<Rightarrow> if secs \<le> 0 then None else Some (n, Some (now + seconds secs)))"

text \<open>
  Redis commands are atomic: a call that raises (the connection timed out) was either
  executed or not.
\<close>

definition redis_laws :: "'r redis_api \<Rightarrow> ('r \<Rightarrow> ustr \<Rightarrow> counter option) \<Rightarrow> bool" where
  "redis_laws api view \<longleftrightarrow>
     (\<forall>now k s n s'. rd_incr api now k s = (Some n, s') \<longrightarrow>
        n = fst (incremented now (view s k)) \<and>
        view s' = (view s)(k \<mapsto> incremented now (view s k))) \<and>
     (\<forall>now k s s'. rd_incr api now k s = (None, s') \<longrightarrow>
        view s' = view s \<or> view s' = (view s)(k \<mapsto> incremented now (view s k))) \<and>
     (\<forall>now k w s s'. rd_expire api now k w s = (True, s') \<longrightarrow>
        view s' = (view s)(k := expiring now w (view s k))) \<and>
     (\<forall>now k w s s'. rd_expire api now k w s = (False, s') \<longrightarrow>
        view s' = view s \<or> view s' = (view s)(k := expiring now w (view s k)))"

definition redis_up :: "'r redis_api \<Rightarrow> bool" where
  "redis_up api \<longleftrightarrow> (\<forall>now k s. fst (rd_incr api now k s) \<noteq> None) \<and>
     (\<forall>now k w s. fst (rd_expire api now k w s))"

text \<open>A concrete Redis: counters in a map; either command may be unreachable.\<close>

definition mem_redis :: "bool \<Rightarrow> bool \<Rightarrow> (ustr \<Rightarrow> counter option) redis_api" where
  "mem_redis incr_up expire_up = \<lparr>
     rd_incr = (\<lambda>now k s. if incr_up
        then (Some (fst (incremented now (s k))), s(k \<mapsto> incremented now (s k)))
        else (None, s)),
     rd_expire = (\<lambda>now k w s. if expire_up then (True, s(k := expiring now w (s k))) else (False, s))\<rparr>"

lemma mem_redis_laws: "redis_laws (mem_redis a b) (\<lambda>s. s)"
  by (auto simp: redis_laws_def mem_redis_def split: if_splits)

lemma mem_redis_up: "redis_up (mem_redis True True)"
  by (simp add: redis_up_def mem_redis_def)

section \<open>Keys\<close>

text \<open>\<open>str.strip(":")\<close> and \<open>MediaRedisConfig.key\<close>.\<close>

definition strip_colons :: "ustr \<Rightarrow> ustr" where
  "strip_colons s = rev (dropWhile ((=) 58) (rev (dropWhile ((=) 58) s)))"

definition media_redis_key :: "settings \<Rightarrow> ustr list \<Rightarrow> ustr" where
  "media_redis_key cfg parts =
     join_with 58 (strip_colons (MEDIA_REDIS_NAMESPACE cfg) #
       map strip_colons (filter (\<lambda>part. part \<noteq> []) parts))"

section \<open>One window\<close>

text \<open>
  What a check raises: an \<open>HTTPException\<close> (status, detail, headers) or an error of the
  Redis client.
\<close>

datatype rate_error = RateHttp nat ustr "(string \<times> ustr) list" | RedisError

definition too_many :: "int \<Rightarrow> int \<Rightarrow> rate_error" where
  "too_many limit window_seconds = RateHttp 429
     (u ''Rate limit exceeded. Max '' @ str_int limit @ u '' requests per '' @
      str_int window_seconds @ u ''s.'')
     [(''Retry-After'', str_int window_seconds)]"

definition check_window ::
  "'r redis_api \<Rightarrow> datetime \<Rightarrow> ustr \<Rightarrow> int \<Rightarrow> int \<Rightarrow> 'r \<Rightarrow> (rate_error + unit) \<times> 'r" where
  "check_window api now key limit window_seconds s =
     (case rd_incr api now key s of
        (None, s1) \<Rightarrow> (Inl RedisError, s1)
      | (Some count, s1) \<Rightarrow>
          let (expired, s2) =
            (if count = 1 then rd_expire api now key window_seconds s1 else (True, s1))
          in if \<not> expired then (Inl RedisError, s2)
             else if count > limit then (Inl (too_many limit window_seconds), s2)
             else (Inr (), s2))"

section \<open>The limiters\<close>

record limiter =
  lm_action :: string
  lm_limit :: int
  lm_window_seconds :: int
  lm_failure_mode :: "string option"

record 'r limiter_state =
  ls_redis :: 'r
  ls_metrics :: "metric list"

definition IP_LIMIT_FACTOR :: int where "IP_LIMIT_FACTOR = 10"
definition MAX_IP_LEN :: nat where "MAX_IP_LEN = 45"

definition resolve_failure_mode :: "settings \<Rightarrow> string option \<Rightarrow> string" where
  "resolve_failure_mode cfg override =
     (case override of Some m \<Rightarrow> m | None \<Rightarrow> MEDIA_RATE_LIMIT_FAILURE_MODE cfg)"

definition handle_redis_error ::
  "string \<Rightarrow> 'r limiter_state \<Rightarrow> (rate_error + unit) \<times> 'r limiter_state" where
  "handle_redis_error mode st =
     (let st1 = st\<lparr>ls_metrics := ls_metrics st @ [M_rate_limit_redis_error mode]\<rparr>
      in if mode = ''fail_closed''
         then (Inl (RateHttp 503 (u ''Rate limiter temporarily unavailable. Please retry.'') []), st1)
         else (Inr (), st1))"

text \<open>
  The source address of the request as the key part: \<open>peer\<close> is \<open>request.client.host\<close>,
  \<open>printable\<close> is \<open>str.isprintable\<close> of one character (Unicode Character Database).
\<close>

definition client_ip :: "(nat \<Rightarrow> bool) \<Rightarrow> ustr option \<Rightarrow> ustr" where
  "client_ip printable peer =
     take MAX_IP_LEN (filter printable (case peer of Some h \<Rightarrow> h | None \<Rightarrow> u ''unknown''))"

definition user_key :: "settings \<Rightarrow> limiter \<Rightarrow> uuid \<Rightarrow> ustr" where
  "user_key cfg lm user_id =
     media_redis_key cfg [u ''ratelimit:'' @ u (lm_action lm), uuid_str user_id]"

definition ip_key :: "settings \<Rightarrow> limiter \<Rightarrow> ustr \<Rightarrow> ustr" where
  "ip_key cfg lm ip = media_redis_key cfg [u ''ratelimit:ip:'' @ u (lm_action lm), ip]"

text \<open>The \<open>try\<close> block around the checks: HTTP errors propagate, any other is handled.\<close>

definition guarded ::
  "string \<Rightarrow> (rate_error + unit) \<times> 'r \<Rightarrow> 'r limiter_state \<Rightarrow> (rate_error + unit) \<times> 'r limiter_state" where
  "guarded mode outcome st =
     (case outcome of
        (Inl RedisError, s) \<Rightarrow> handle_redis_error mode (st\<lparr>ls_redis := s\<rparr>)
      | (r, s) \<Rightarrow> (r, st\<lparr>ls_redis := s\<rparr>))"

definition rate_apply ::
  "'r redis_api \<Rightarrow> (nat \<Rightarrow> bool) \<Rightarrow> settings \<Rightarrow> limiter \<Rightarrow> datetime \<Rightarrow> ustr option \<Rightarrow> uuid option \<Rightarrow>
   'r limiter_state \<Rightarrow> (rate_error + unit) \<times> 'r limiter_state" where
  "rate_apply api printable cfg lm now peer user_id st =
     (let k = ip_key cfg lm (client_ip printable peer);
          mode = resolve_failure_mode cfg (lm_failure_mode lm);
          user_check = (case user_id of
             None \<Rightarrow> (Inr (), ls_redis st)
           | Some i \<Rightarrow>
               check_window api now (user_key cfg lm i) (lm_limit lm) (lm_window_seconds lm) (ls_redis st));
          checks = (case user_check of
             (Inl e, s) \<Rightarrow> (Inl e, s)
           | (Inr _, s) \<Rightarrow>
               check_window api now k (lm_limit lm * IP_LIMIT_FACTOR) (lm_window_seconds lm) s)
      in guarded mode checks st)"

definition RateLimiter_call where
  "RateLimiter_call api printable cfg lm now peer current_user st =
     rate_apply api printable cfg lm now peer (Some (p_id current_user)) st"

definition OptionalRateLimiter_call where
  "OptionalRateLimiter_call api printable cfg lm now peer current_user st =
     rate_apply api printable cfg lm now peer (map_option p_id current_user) st"

definition AnonRateLimiter_call ::
  "'r redis_api \<Rightarrow> (nat \<Rightarrow> bool) \<Rightarrow> settings \<Rightarrow> limiter \<Rightarrow> datetime \<Rightarrow> ustr option \<Rightarrow>
   'r limiter_state \<Rightarrow> (rate_error + unit) \<times> 'r limiter_state" where
  "AnonRateLimiter_call api printable cfg lm now peer st =
     (let k = ip_key cfg lm (client_ip printable peer);
          mode = resolve_failure_mode cfg (lm_failure_mode lm)
      in guarded mode (check_window api now k (lm_limit lm) (lm_window_seconds lm) (ls_redis st)) st)"

text \<open>The limiters the route modules mount.\<close>

definition route_limiter :: "string \<Rightarrow> int \<Rightarrow> limiter" where
  "route_limiter action limit =
     \<lparr>lm_action = action, lm_limit = limit, lm_window_seconds = 60, lm_failure_mode = None\<rparr>"

definition user_limiters :: "limiter list" where
  "user_limiters = [route_limiter ''uploads:initiate'' 20, route_limiter ''uploads:complete'' 20,
     route_limiter ''variants:generate'' 30, route_limiter ''transfer:import'' 5]"

definition optional_limiters :: "limiter list" where
  "optional_limiters = [route_limiter ''objects:download-url'' 60, route_limiter ''objects:list'' 120]"

definition anon_limiters :: "limiter list" where
  "anon_limiters = [route_limiter ''shares:resolve'' 60]"

section \<open>Authentication dependencies\<close>

text \<open>
  \<open>get_optional_user\<close>: \<open>token\<close> is what FastAPI's bearer scheme extracted
  (\<open>None\<close> without a bearer header) and \<open>get_current_user\<close> is the SDK's validator.
\<close>

definition get_optional_user :: "(ustr \<Rightarrow> principal result) \<Rightarrow> ustr option \<Rightarrow> principal option result" where
  "get_optional_user get_current_user token =
     (case token of
        None \<Rightarrow> Inr None
      | Some t \<Rightarrow> if t = [] then Inr None else map_sum id Some (get_current_user t))"

text \<open>\<open>secrets.compare_digest\<close> on two strings: \<open>TypeError\<close> unless both are ASCII.\<close>

definition compare_digest :: "ustr \<Rightarrow> ustr \<Rightarrow> bool result" where
  "compare_digest a b =
     (if list_all (\<lambda>c. c < 128) a \<and> list_all (\<lambda>c. c < 128) b then Inr (a = b)
      else Inl (Raised ''TypeError''))"

definition require_service_token :: "settings \<Rightarrow> ustr option \<Rightarrow> unit result" where
  "require_service_token cfg authorization =
     (let expected = MEDIA_INTERNAL_SERVICE_TOKEN cfg;
          provided = (case authorization of
             None \<Rightarrow> []
           | Some a \<Rightarrow> if take 7 a = u ''Bearer '' then drop 7 a else [])
      in case compare_digest provided expected of
           Inl e \<Rightarrow> Inl e
         | Inr same \<Rightarrow> if same then Inr () else Inl (Http 403 (DText ''Invalid service token.'')))"

section \<open>Runs of requests\<close>

datatype rl_call = UserCall limiter principal | OptionalCall limiter "principal option" | AnonCall limiter

record rl_request =
  rq_at :: datetime
  rq_peer :: "ustr option"
  rq_call :: rl_call

fun call_limiter :: "rl_call \<Rightarrow> limiter" where
  "call_limiter (UserCall lm p) = lm"
| "call_limiter (OptionalCall lm p) = lm"
| "call_limiter (AnonCall lm) = lm"

fun call_user :: "rl_call \<Rightarrow> uuid option" where
  "call_user (UserCall lm p) = Some (p_id p)"
| "call_user (OptionalCall lm p) = map_option p_id p"
| "call_user (AnonCall lm) = None"

definition mounted :: "rl_request \<Rightarrow> bool" where
  "mounted rq \<longleftrightarrow> (case rq_call rq of
      UserCall lm p \<Rightarrow> lm \<in> set user_limiters
    | OptionalCall lm p \<Rightarrow> lm \<in> set optional_limiters
    | AnonCall lm \<Rightarrow> lm \<in> set anon_limiters)"

definition rate_call ::
  "'r redis_api \<Rightarrow> (nat \<Rightarrow> bool) \<Rightarrow> settings \<Rightarrow> rl_request \<Rightarrow> 'r limiter_state \<Rightarrow>
   (rate_error + unit) \<times> 'r limiter_state" where
  "rate_call api printable cfg rq st =
     (case rq_call rq of
        UserCall lm p \<Rightarrow> RateLimiter_call api printable cfg lm (rq_at rq) (rq_peer rq) p st
      | OptionalCall lm p \<Rightarrow> OptionalRateLimiter_call api printable cfg lm (rq_at rq) (rq_peer rq) p st
      | AnonCall lm \<Rightarrow> AnonRateLimiter_call api printable cfg lm (rq_at rq) (rq_peer rq) st)"

fun rate_run ::
  "'r redis_api \<Rightarrow> (nat \<Rightarrow> bool) \<Rightarrow> settings \<Rightarrow> rl_request list \<Rightarrow> 'r limiter_state \<Rightarrow>
   (rate_error + unit) list \<times> 'r limiter_state" where
  "rate_run api printable cfg [] st = ([], st)"
| "rate_run api printable cfg (rq # rqs) st =
     (let (r, st1) = rate_call api printable cfg rq st;
          (rs, st2) = rate_run api printable cfg rqs st1
      in (r # rs, st2))"

text \<open>The admitted requests of a run that satisfy \<open>P\<close>.\<close>

definition admitted :: "(rl_request \<Rightarrow> bool) \<Rightarrow> rl_request list \<Rightarrow> (rate_error + unit) list \<Rightarrow> nat" where
  "admitted P rqs rs = length (filter (\<lambda>(rq, r). P rq \<and> r = Inr ()) (zip rqs rs))"

text \<open>A request as the list of windows it counts against: key, limit, seconds.\<close>

definition ip_window :: "settings \<Rightarrow> (nat \<Rightarrow> bool) \<Rightarrow> limiter \<Rightarrow> ustr option \<Rightarrow> int \<Rightarrow> ustr \<times> int \<times> int" where
  "ip_window cfg printable lm peer limit =
     (ip_key cfg lm (client_ip printable peer), limit, lm_window_seconds lm)"

definition windows :: "settings \<Rightarrow> (nat \<Rightarrow> bool) \<Rightarrow> rl_request \<Rightarrow> (ustr \<times> int \<times> int) list" where
  "windows cfg printable rq =
     (let lm = call_limiter (rq_call rq) in
      (case call_user (rq_call rq) of
         None \<Rightarrow> [] | Some i \<Rightarrow> [(user_key cfg lm i, lm_limit lm, lm_window_seconds lm)]) @
      [ip_window cfg printable lm (rq_peer rq)
         (case rq_call rq of AnonCall _ \<Rightarrow> lm_limit lm | _ \<Rightarrow> lm_limit lm * IP_LIMIT_FACTOR)])"

fun check_all ::
  "'r redis_api \<Rightarrow> datetime \<Rightarrow> (ustr \<times> int \<times> int) list \<Rightarrow> 'r \<Rightarrow> (rate_error + unit) \<times> 'r" where
  "check_all api now [] s = (Inr (), s)"
| "check_all api now ((k, limit, w) # ws) s =
     (case check_window api now k limit w s of
        (Inl e, s1) \<Rightarrow> (Inl e, s1)
      | (Inr _, s1) \<Rightarrow> check_all api now ws s1)"

lemma rate_call_windows:
  "rate_call api printable cfg rq st =
     guarded (resolve_failure_mode cfg (lm_failure_mode (call_limiter (rq_call rq))))
       (check_all api (rq_at rq) (windows cfg printable rq) (ls_redis st)) st"
  by (cases "rq_call rq")
    (auto simp: rate_call_def RateLimiter_call_def OptionalRateLimiter_call_def
      AnonRateLimiter_call_def rate_apply_def windows_def ip_window_def Let_def
      split: prod.split sum.split option.split)

section \<open>Laws of the windows\<close>

lemma redis_incr_ok:
  "redis_laws api view \<Longrightarrow> rd_incr api now k s = (Some n, s') \<Longrightarrow>
     n = fst (incremented now (view s k)) \<and> view s' = (view s)(k \<mapsto> incremented now (view s k))"
  unfolding redis_laws_def by blast

lemma redis_incr_cases:
  "redis_laws api view \<Longrightarrow> rd_incr api now k s = (r, s') \<Longrightarrow>
     view s' = view s \<or> view s' = (view s)(k \<mapsto> incremented now (view s k))"
  unfolding redis_laws_def by (cases r) blast+

lemma redis_expire_cases:
  assumes "redis_laws api view" "rd_expire api now k w s = (r, s')"
  shows "view s' = view s \<or> view s' = (view s)(k := expiring now w (view s k))"
proof (cases r)
  case True
  with assms have "rd_expire api now k w s = (True, s')" by simp
  with assms(1) show ?thesis unfolding redis_laws_def by blast
next
  case False
  with assms have "rd_expire api now k w s = (False, s')" by simp
  with assms(1) show ?thesis unfolding redis_laws_def by blast
qed

text \<open>
  A counter of a horizon that starts at \<open>t0\<close> and ends at \<open>T\<close>: it was dead at the start
  or lives past the end, and it has counted at least \<open>m\<close>.
\<close>

definition counts :: "datetime \<Rightarrow> datetime \<Rightarrow> int \<Rightarrow> counter option \<Rightarrow> bool" where
  "counts t0 T m e \<longleftrightarrow>
     (case e of None \<Rightarrow> m \<le> 0
      | Some (n, None) \<Rightarrow> m \<le> n
      | Some (n, Some d) \<Rightarrow> (T \<le> d \<and> m \<le> n) \<or> (d \<le> t0 \<and> m \<le> 0))"

lemma counts_start: "live t0 e = None \<Longrightarrow> counts t0 T 0 e"
  by (auto simp: counts_def live_def split: option.splits if_splits)

lemma counts_mono: "counts t0 T m e \<Longrightarrow> m' \<le> m \<Longrightarrow> counts t0 T m' e"
  by (auto simp: counts_def split: option.splits)

lemma counts_incr:
  "counts t0 T m e \<Longrightarrow> t0 \<le> now \<Longrightarrow> now < T \<Longrightarrow> 0 \<le> m \<Longrightarrow>
     counts t0 T (m + 1) (Some (incremented now e)) \<and> m + 1 \<le> fst (incremented now e)"
  by (auto simp: counts_def incremented_def live_def split: option.splits if_splits prod.splits)

lemma counts_expiring:
  "counts t0 T m e \<Longrightarrow> t0 \<le> now \<Longrightarrow> now < T \<Longrightarrow> T \<le> now + seconds w \<Longrightarrow> 0 < w \<Longrightarrow>
     counts t0 T m (expiring now w e)"
  by (auto simp: counts_def expiring_def live_def split: option.splits if_splits)


text \<open>A check of one window, whatever key it counts on.\<close>

lemma check_window_frame:
  assumes laws: "redis_laws api view" and run: "check_window api now k' limit w s = (r, s')"
    and other: "k' \<noteq> k"
  shows "view s' k = view s k"
proof -
  obtain c s1 where incr: "rd_incr api now k' s = (c, s1)" by (cases "rd_incr api now k' s")
  obtain b s2 where exp: "rd_expire api now k' w s1 = (b, s2)" by (cases "rd_expire api now k' w s1")
  have "s' = s1 \<or> s' = s2"
    using run incr exp by (auto simp: check_window_def Let_def split: option.splits if_splits)
  then show ?thesis
    using redis_incr_cases [OF laws incr] redis_expire_cases [OF laws exp] other by auto
qed

lemma check_window_counts:
  assumes laws: "redis_laws api view" and run: "check_window api now k limit w s = (r, s')"
    and inv: "counts t0 T m (view s k)" and m: "0 \<le> m"
    and at: "t0 \<le> now" "now < T" "T \<le> now + seconds w" "0 < w"
  shows "counts t0 T m (view s' k) \<and>
    (r = Inr () \<longrightarrow> counts t0 T (m + 1) (view s' k) \<and> m + 1 \<le> limit)"
proof -
  obtain c s1 where incr: "rd_incr api now k s = (c, s1)" by (cases "rd_incr api now k s")
  obtain b s2 where exp: "rd_expire api now k w s1 = (b, s2)" by (cases "rd_expire api now k w s1")
  note up = counts_incr [OF inv at(1,2) m]
  have s1: "counts t0 T m (view s1 k)"
    using redis_incr_cases [OF laws incr] inv up counts_mono [of t0 T "m + 1" _ m] by auto
  have s2: "counts t0 T m' (view s2 k)" if "counts t0 T m' (view s1 k)" for m'
    using redis_expire_cases [OF laws exp] that counts_expiring [OF that at] by auto
  have ended: "s' = s1 \<or> s' = s2"
    using run incr exp by (auto simp: check_window_def Let_def split: option.splits if_splits)
  have passed: "counts t0 T (m + 1) (view s' k) \<and> m + 1 \<le> limit" if ok: "r = Inr ()"
  proof -
    from run incr ok obtain n where n: "c = Some n" and le: "n \<le> limit"
      by (auto simp: check_window_def Let_def split: option.splits if_splits prod.splits)
    from redis_incr_ok [OF laws incr [unfolded n]] up
    have "counts t0 T (m + 1) (view s1 k)" and "m + 1 \<le> n" by auto
    with le ended s2 [of "m + 1"] show ?thesis by auto
  qed
  from ended s1 s2 [OF s1] passed show ?thesis by auto
qed

lemma check_all_counts:
  assumes laws: "redis_laws api view"
    and at: "t0 \<le> now" "now < T" "T \<le> now + seconds 60"
  shows "0 \<le> m \<Longrightarrow> counts t0 T m (view s k) \<Longrightarrow> check_all api now ws s = (r, s') \<Longrightarrow>
    \<forall>(k', l, w) \<in> set ws. w = 60 \<and> (k' = k \<longrightarrow> l = limit) \<Longrightarrow>
    counts t0 T m (view s' k) \<and>
    (r = Inr () \<and> k \<in> fst ` set ws \<longrightarrow> counts t0 T (m + 1) (view s' k) \<and> m + 1 \<le> limit)"
proof (induction ws arbitrary: s m)
  case Nil
  then show ?case by simp
next
  case (Cons x ws)
  obtain k' l w where x: "x = (k', l, w)" by (cases x)
  from Cons.prems(4) x have w: "w = 60" and l: "k' = k \<longrightarrow> l = limit" by auto
  obtain r1 s1 where step: "check_window api now k' l w s = (r1, s1)"
    by (cases "check_window api now k' l w s")
  show ?case
  proof (cases "k' = k")
    case False
    with check_window_frame [OF laws step] Cons.prems(2) have "counts t0 T m (view s1 k)" by simp
    with Cons.IH [of m s1] Cons.prems(1,3,4) step x False show ?thesis
      by (cases r1) auto
  next
    case True
    note here = check_window_counts [OF laws step [unfolded True w] Cons.prems(2,1) at]
    show ?thesis
    proof (cases r1)
      case (Inl e)
      with here Cons.prems(3) step x show ?thesis by auto
    next
      case (Inr a)
      with here have more: "counts t0 T (m + 1) (view s1 k)" and le: "m + 1 \<le> limit"
        using l True by auto
      from Inr Cons.prems(3) step x have "check_all api now ws s1 = (r, s')" by simp
      with Cons.IH [OF _ more] Cons.prems(1,4) x have "counts t0 T (m + 1) (view s' k)" by simp
      with counts_mono [of t0 T "m + 1" "view s' k" m] le show ?thesis by simp
    qed
  qed
qed

section \<open>The keys of distinct windows\<close>

lemma strip_colons_id:
  assumes "s \<noteq> []" "hd s \<noteq> 58" "last s \<noteq> 58"
  shows "strip_colons s = s"
proof -
  from assms have "dropWhile ((=) 58) s = s" by (cases s) auto
  moreover from assms have "dropWhile ((=) 58) (rev s) = rev s"
    by (cases "rev s") (auto simp: hd_rev [symmetric])
  ultimately show ?thesis by (simp add: strip_colons_def)
qed

lemma uuid_str_ne [simp]: "uuid_str i \<noteq> []"
  using length_uuid_str [of i] by (metis list.size(3) zero_neq_numeral)

lemma strip_colons_uuid [simp]: "strip_colons (uuid_str i) = uuid_str i"
proof -
  have "c \<noteq> 58" if "c \<in> set (uuid_str i)" for c using uuid_str_range [OF that] by auto
  then show ?thesis by (intro strip_colons_id) simp_all
qed

definition limiters :: "limiter list" where
  "limiters = user_limiters @ optional_limiters @ anon_limiters"

lemma limiter_actions:
  assumes "lm \<in> set limiters"
  shows "lm_window_seconds lm = 60" "lm_failure_mode lm = None"
    "u (lm_action lm) \<noteq> []" "last (u (lm_action lm)) \<noteq> 58"
    "3 \<le> length (u (lm_action lm))" "take 3 (u (lm_action lm)) \<noteq> u ''ip:''"
  using assms
  unfolding limiters_def user_limiters_def optional_limiters_def anon_limiters_def route_limiter_def
  by (auto simp: u_def)

lemma hd_ratelimit: "hd (u ''ratelimit:'' @ x) = 114" "hd (u ''ratelimit:ip:'' @ x) = 114"
  by (simp_all add: u_def)

lemma ratelimit_part:
  assumes "lm \<in> set limiters"
  shows "strip_colons (u ''ratelimit:'' @ u (lm_action lm)) = u ''ratelimit:'' @ u (lm_action lm)"
    and "strip_colons (u ''ratelimit:ip:'' @ u (lm_action lm)) = u ''ratelimit:ip:'' @ u (lm_action lm)"
  using limiter_actions(3,4) [OF assms]
  by (intro strip_colons_id; simp only: hd_ratelimit; simp)+

lemma distinct_actions: "distinct (map (\<lambda>lm. u (lm_action lm)) limiters)"
  by code_simp

lemma limiter_by_action:
  "lm \<in> set limiters \<Longrightarrow> lm' \<in> set limiters \<Longrightarrow> u (lm_action lm) = u (lm_action lm') \<Longrightarrow> lm = lm'"
  using distinct_actions by (auto simp: distinct_map dest: inj_onD)

abbreviation redis_ns :: "settings \<Rightarrow> ustr" where
  "redis_ns cfg \<equiv> strip_colons (MEDIA_REDIS_NAMESPACE cfg)"

lemma user_key_text:
  assumes "lm \<in> set limiters"
  shows "user_key cfg lm i = redis_ns cfg @ 58 # u ''ratelimit:'' @ u (lm_action lm) @ 58 # uuid_str i"
  using ratelimit_part(1) [OF assms] limiter_actions(3) [OF assms]
  by (simp add: user_key_def media_redis_key_def)

lemma ip_key_text:
  assumes "lm \<in> set limiters"
  shows "\<exists>rest. ip_key cfg lm ip = redis_ns cfg @ 58 # u ''ratelimit:'' @ u ''ip:'' @ rest"
proof -
  have "u ''ratelimit:ip:'' = u ''ratelimit:'' @ u ''ip:''" by (simp add: u_def)
  then show ?thesis using ratelimit_part(2) [OF assms] limiter_actions(3) [OF assms]
    by (simp add: ip_key_def media_redis_key_def)
qed

lemma user_key_inj:
  assumes l: "lm \<in> set limiters" "lm' \<in> set limiters"
    and "user_key cfg lm i = user_key cfg lm' j"
  shows "lm = lm' \<and> i = j"
proof -
  have "u (lm_action lm) @ 58 # uuid_str i = u (lm_action lm') @ 58 # uuid_str j"
    using assms(3) by (simp add: user_key_text l)
  then have "u (lm_action lm) = u (lm_action lm')" "uuid_str i = uuid_str j"
    by (subst (asm) append_eq_append_conv; simp)+
  with limiter_by_action [OF l] uuid_str_inj show ?thesis by blast
qed

lemma user_key_not_ip:
  assumes l: "lm \<in> set limiters" and lm': "lm' \<in> set limiters"
  shows "user_key cfg lm i \<noteq> ip_key cfg lm' ip"
proof
  assume "user_key cfg lm i = ip_key cfg lm' ip"
  then obtain rest where "u (lm_action lm) @ 58 # uuid_str i = u ''ip:'' @ rest"
    using user_key_text [OF l, of cfg i] ip_key_text [OF lm', of cfg ip] by auto
  then have "take 3 (u (lm_action lm) @ 58 # uuid_str i) = take 3 (u ''ip:'' @ rest)" by simp
  moreover have "length (u ''ip:'') = 3" by (simp add: u_def)
  ultimately have "take 3 (u (lm_action lm)) = u ''ip:''"
    using limiter_actions(5) [OF l] by simp
  with limiter_actions(6) [OF l] show False by simp
qed


lemma mounted_limiter: "mounted rq \<Longrightarrow> call_limiter (rq_call rq) \<in> set limiters"
  by (auto simp: mounted_def limiters_def split: rl_call.splits)

lemma windows_of_user_key:
  assumes lm: "lm \<in> set limiters" and rq: "mounted rq"
  shows "\<forall>(k', l, w) \<in> set (windows cfg printable rq).
    w = 60 \<and> (k' = user_key cfg lm i \<longrightarrow> l = lm_limit lm)"
  using user_key_inj [OF lm mounted_limiter [OF rq]] limiter_actions(1) [OF mounted_limiter [OF rq]]
    user_key_not_ip [OF lm mounted_limiter [OF rq]]
  by (auto simp: windows_def ip_window_def Let_def split: option.splits) metis+

lemma user_key_in_windows:
  "call_limiter (rq_call rq) = lm \<Longrightarrow> call_user (rq_call rq) = Some i \<Longrightarrow>
     user_key cfg lm i \<in> fst ` set (windows cfg printable rq)"
  by (simp add: windows_def Let_def)

text \<open>A request passes because its checks passed, or because Redis failed and the mode is open.\<close>

lemma guarded_cases:
  "guarded mode (r, s) st = (r', st') \<Longrightarrow>
     ls_redis st' = s \<and> (r = Inr () \<longrightarrow> r' = Inr ()) \<and>
     (r' = Inr () \<longrightarrow> r = Inr () \<or> (mode \<noteq> ''fail_closed'' \<and> ls_metrics st' \<noteq> ls_metrics st))"
  by (auto simp: guarded_def handle_redis_error_def Let_def split: sum.splits rate_error.splits if_splits)

text \<open>The requests that one user makes through one limiter.\<close>

definition through :: "limiter \<Rightarrow> uuid \<Rightarrow> rl_request \<Rightarrow> bool" where
  "through lm i rq \<longleftrightarrow> call_limiter (rq_call rq) = lm \<and> call_user (rq_call rq) = Some i"

definition in_window :: "datetime \<Rightarrow> limiter \<Rightarrow> rl_request \<Rightarrow> bool" where
  "in_window t0 lm rq \<longleftrightarrow> t0 \<le> rq_at rq \<and> rq_at rq < t0 + seconds (lm_window_seconds lm)"

text \<open>
  The requests of a run that satisfy \<open>P\<close> and during which the Redis client raised: each such
  request is recorded in the metric of limiter errors.
\<close>

fun outages ::
  "'r redis_api \<Rightarrow> (nat \<Rightarrow> bool) \<Rightarrow> settings \<Rightarrow> (rl_request \<Rightarrow> bool) \<Rightarrow> rl_request list \<Rightarrow> 'r limiter_state \<Rightarrow> nat" where
  "outages api printable cfg P [] st = 0"
| "outages api printable cfg P (rq # rqs) st =
     (let st1 = snd (rate_call api printable cfg rq st)
      in (if P rq \<and> ls_metrics st1 \<noteq> ls_metrics st then 1 else 0) + outages api printable cfg P rqs st1)"

text \<open>How many of them the failure mode lets through unchecked.\<close>

definition let_through ::
  "'r redis_api \<Rightarrow> (nat \<Rightarrow> bool) \<Rightarrow> settings \<Rightarrow> (rl_request \<Rightarrow> bool) \<Rightarrow> rl_request list \<Rightarrow> 'r limiter_state \<Rightarrow> nat" where
  "let_through api printable cfg P rqs st =
     (if MEDIA_RATE_LIMIT_FAILURE_MODE cfg = ''fail_closed'' then 0 else outages api printable cfg P rqs st)"

lemma rate_run_counts:
  assumes laws: "redis_laws api view" and lm: "lm \<in> set limiters"
  shows "0 \<le> m \<Longrightarrow> m \<le> lm_limit lm \<Longrightarrow>
    counts t0 (t0 + seconds 60) m (view (ls_redis st) (user_key cfg lm i)) \<Longrightarrow>
    \<forall>rq \<in> set rqs. mounted rq \<and> in_window t0 lm rq \<Longrightarrow>
    m + int (admitted (through lm i) rqs (fst (rate_run api printable cfg rqs st))) \<le>
      lm_limit lm + int (let_through api printable cfg (through lm i) rqs st)"
proof (induction rqs arbitrary: st m)
  case Nil
  then show ?case by (simp add: admitted_def)
next
  case (Cons rq rqs)
  let ?T = "t0 + seconds 60" and ?k = "user_key cfg lm i"
  from Cons.prems(4) have rq: "mounted rq" and at: "t0 \<le> rq_at rq" "rq_at rq < ?T"
    using limiter_actions(1) [OF lm] by (auto simp: in_window_def)
  have mode: "resolve_failure_mode cfg (lm_failure_mode (call_limiter (rq_call rq))) = MEDIA_RATE_LIMIT_FAILURE_MODE cfg"
    using limiter_actions(2) [OF mounted_limiter [OF rq]] by (simp add: resolve_failure_mode_def)
  obtain r0 s0 where checks: "check_all api (rq_at rq) (windows cfg printable rq) (ls_redis st) = (r0, s0)"
    by (cases "check_all api (rq_at rq) (windows cfg printable rq) (ls_redis st)")
  obtain r st1 where call: "rate_call api printable cfg rq st = (r, st1)"
    by (cases "rate_call api printable cfg rq st")
  then have "guarded (MEDIA_RATE_LIMIT_FAILURE_MODE cfg) (r0, s0) st = (r, st1)"
    using checks mode by (simp add: rate_call_windows)
  from guarded_cases [OF this] have st1: "ls_redis st1 = s0" and pass: "r0 = Inr () \<longrightarrow> r = Inr ()"
    and open_: "r = Inr () \<and> r0 \<noteq> Inr () \<longrightarrow> MEDIA_RATE_LIMIT_FAILURE_MODE cfg \<noteq> ''fail_closed'' \<and> ls_metrics st1 \<noteq> ls_metrics st"
    by auto
  have "?T \<le> rq_at rq + seconds 60" using at by simp
  from check_all_counts [OF laws at this Cons.prems(1,3) checks windows_of_user_key [OF lm rq]]
  have same: "counts t0 ?T m (view s0 ?k)"
    and more: "r0 = Inr () \<and> through lm i rq \<longrightarrow> counts t0 ?T (m + 1) (view s0 ?k) \<and> m + 1 \<le> lm_limit lm"
    using user_key_in_windows by (auto simp: through_def)
  have run: "admitted (through lm i) (rq # rqs) (fst (rate_run api printable cfg (rq # rqs) st)) =
      (if through lm i rq \<and> r = Inr () then 1 else 0) + admitted (through lm i) rqs (fst (rate_run api printable cfg rqs st1))"
    using call by (simp add: admitted_def split: prod.split)
  have skip: "let_through api printable cfg (through lm i) (rq # rqs) st =
      (if through lm i rq \<and> ls_metrics st1 \<noteq> ls_metrics st \<and> MEDIA_RATE_LIMIT_FAILURE_MODE cfg \<noteq> ''fail_closed'' then 1 else 0) +
      let_through api printable cfg (through lm i) rqs st1"
    using call by (simp add: let_through_def)
  show ?case
  proof (cases "r0 = Inr () \<and> through lm i rq")
    case True
    with more Cons.IH [of "m + 1" st1] Cons.prems(1,4) st1 show ?thesis unfolding run skip by simp
  next
    case False
    with same Cons.IH [of m st1] Cons.prems st1 open_ show ?thesis unfolding run skip by auto
  qed
qed

section \<open>Properties of admission\<close>

text \<open>
  C34. No user gets more than the limit through one limiter within a window that starts when
  the user's counter is not live: whatever other users, other limiters and anonymous callers
  do in between, and from whatever addresses the requests come, at most \<open>lm_limit\<close> of the
  user's requests are admitted, beside those the failure mode lets through unchecked. Under
  \<open>fail_closed\<close> there are none of these, whichever calls Redis fails to answer. Under the
  default \<open>fail_open\<close> they are at most the user's own requests during which the Redis client
  raised: a failing Redis admits that request, and never makes a counter forget another.
\<close>

theorem user_admissions_bounded:
  assumes "redis_laws api view"
    and "lm \<in> set (user_limiters @ optional_limiters)"
    and "live t0 (view (ls_redis st) (user_key cfg lm i)) = None"
    and "\<forall>rq \<in> set rqs. mounted rq \<and> in_window t0 lm rq"
  shows "int (admitted (through lm i) rqs (fst (rate_run api printable cfg rqs st))) \<le> lm_limit lm +
    (if MEDIA_RATE_LIMIT_FAILURE_MODE cfg = ''fail_closed'' then 0
     else int (outages api printable cfg (through lm i) rqs st))"
proof -
  from assms(2) have lm: "lm \<in> set limiters" by (auto simp: limiters_def)
  from assms(2) have "0 < lm_limit lm"
    by (auto simp: user_limiters_def optional_limiters_def route_limiter_def)
  with rate_run_counts [OF assms(1) lm order_refl _ counts_start [OF assms(3)] assms(4)]
  show ?thesis by (cases "MEDIA_RATE_LIMIT_FAILURE_MODE cfg = ''fail_closed''") (simp_all add: let_through_def)
qed

text \<open>While Redis answers, the client never raises and the limit holds in either mode.\<close>

lemma no_outage_while_up:
  assumes "redis_up api"
  shows "outages api printable cfg P rqs st = 0"
proof (induction rqs arbitrary: st)
  case (Cons rq rqs)
  have check: "fst (check_window api t k l w s) \<noteq> Inl RedisError" for t k l w s
  proof -
    obtain n s1 where i: "rd_incr api t k s = (Some n, s1)"
      using assms unfolding redis_up_def by (metis option.exhaust prod.collapse)
    obtain s2 where e: "rd_expire api t k w s1 = (True, s2)"
      using assms unfolding redis_up_def by (metis (full_types) prod.collapse)
    show ?thesis by (simp add: check_window_def i e too_many_def)
  qed
  have all: "fst (check_all api t ws s) \<noteq> Inl RedisError" for t ws s
  proof (induction ws arbitrary: s)
    case (Cons x ws)
    obtain k l w where x: "x = (k, l, w)" by (cases x)
    obtain r s1 where step: "check_window api t k l w s = (r, s1)" by (cases "check_window api t k l w s")
    show ?case using check [of t k l w s] Cons by (cases r) (simp_all add: x step)
  qed simp
  have "ls_metrics (snd (rate_call api printable cfg rq st)) = ls_metrics st"
  proof (cases "check_all api (rq_at rq) (windows cfg printable rq) (ls_redis st)")
    case (Pair r s1)
    then have "r \<noteq> Inl RedisError" using all [of "rq_at rq" "windows cfg printable rq" "ls_redis st"] by simp
    then show ?thesis by (auto simp: rate_call_windows guarded_def Pair split: sum.split rate_error.split)
  qed
  with Cons.IH show ?case by (simp add: Let_def)
qed simp

theorem user_admissions_bounded_witness:
  "int (admitted (through (route_limiter ''transfer:import'' 5) 7)
     (replicate 8 \<lparr>rq_at = 3, rq_peer = None,
        rq_call = UserCall (route_limiter ''transfer:import'' 5)
          \<lparr>p_id = 7, p_superuser = False, p_tenant = None\<rparr>\<rparr>)
     (fst (rate_run (mem_redis True True) (\<lambda>c. True)
       ((default_settings None None)\<lparr>MEDIA_RATE_LIMIT_FAILURE_MODE := ''fail_open''\<rparr>)
       (replicate 8 \<lparr>rq_at = 3, rq_peer = None,
          rq_call = UserCall (route_limiter ''transfer:import'' 5)
            \<lparr>p_id = 7, p_superuser = False, p_tenant = None\<rparr>\<rparr>)
       \<lparr>ls_redis = Map.empty, ls_metrics = []\<rparr>))) \<le> 5"
proof -
  let ?lm = "route_limiter ''transfer:import'' 5"
  let ?rq = "\<lparr>rq_at = 3, rq_peer = None,
    rq_call = UserCall ?lm \<lparr>p_id = 7, p_superuser = False, p_tenant = None\<rparr>\<rparr>"
  let ?cfg = "(default_settings None None)\<lparr>MEDIA_RATE_LIMIT_FAILURE_MODE := ''fail_open''\<rparr>"
  let ?st = "\<lparr>ls_redis = Map.empty, ls_metrics = []\<rparr>"
  have lm: "?lm \<in> set user_limiters" by (simp add: user_limiters_def)
  then have "\<forall>rq \<in> set (replicate 8 ?rq). mounted rq \<and> in_window 0 ?lm rq"
    by (simp add: mounted_def in_window_def route_limiter_def seconds_def)
  then have "int (admitted (through ?lm 7) (replicate 8 ?rq) (fst (rate_run (mem_redis True True) (\<lambda>c. True) ?cfg (replicate 8 ?rq) ?st))) \<le>
      lm_limit ?lm + (if MEDIA_RATE_LIMIT_FAILURE_MODE ?cfg = ''fail_closed'' then 0
        else int (outages (mem_redis True True) (\<lambda>c. True) ?cfg (through ?lm 7) (replicate 8 ?rq) ?st))"
    by (intro user_admissions_bounded [OF mem_redis_laws, where ?t0.0 = 0]) (simp_all add: lm live_def)
  then have "int (admitted (through ?lm 7) (replicate 8 ?rq) (fst (rate_run (mem_redis True True) (\<lambda>c. True) ?cfg (replicate 8 ?rq) ?st))) \<le> lm_limit ?lm"
    unfolding no_outage_while_up [OF mem_redis_up] by (simp del: replicate.simps)
  moreover have "lm_limit ?lm = 5" by (simp add: route_limiter_def)
  ultimately show ?thesis by simp
qed

text \<open>One window, checked again and again.\<close>

fun check_run ::
  "'r redis_api \<Rightarrow> ustr \<Rightarrow> int \<Rightarrow> int \<Rightarrow> datetime list \<Rightarrow> 'r \<Rightarrow> (rate_error + unit) list" where
  "check_run api k limit w [] s = []"
| "check_run api k limit w (t # ts) s =
     (let (r, s1) = check_window api t k limit w s in r # check_run api k limit w ts s1)"

lemma check_window_up:
  assumes laws: "redis_laws api view" and up: "redis_up api"
    and run: "check_window api now k limit w s = (r, s')"
  shows "r = (if fst (incremented now (view s k)) > limit then Inl (too_many limit w) else Inr ()) \<and>
    view s' k = (if fst (incremented now (view s k)) = 1
      then expiring now w (Some (incremented now (view s k)))
      else Some (incremented now (view s k)))"
proof -
  obtain c s1 where incr: "rd_incr api now k s = (c, s1)" by (cases "rd_incr api now k s")
  from up incr obtain n where n: "c = Some n" unfolding redis_up_def by (metis fst_conv option.exhaust)
  note one = redis_incr_ok [OF laws incr [unfolded n]]
  obtain b s2 where exp: "rd_expire api now k w s1 = (b, s2)" by (cases "rd_expire api now k w s1")
  with up have b: "b" unfolding redis_up_def by (metis fst_conv)
  with laws exp have "view s2 = (view s1)(k := expiring now w (view s1 k))"
    unfolding redis_laws_def by (metis (full_types))
  then show ?thesis using run incr n exp b one by (auto simp: check_window_def Let_def split: if_splits)
qed

lemma check_run_live:
  assumes laws: "redis_laws api view" and up: "redis_up api"
  shows "0 < c \<Longrightarrow> view s k = Some (c, d) \<Longrightarrow> \<forall>t \<in> set ts. case d of None \<Rightarrow> True | Some e \<Rightarrow> t < e \<Longrightarrow>
    check_run api k limit w ts s =
      map (\<lambda>i. if c + int i < limit then Inr () else Inl (too_many limit w)) [0..<length ts]"
proof (induction ts arbitrary: s c)
  case (Cons t ts)
  obtain r s1 where step: "check_window api t k limit w s = (r, s1)"
    by (cases "check_window api t k limit w s")
  from Cons.prems have "incremented t (view s k) = (c + 1, d)"
    by (auto simp: incremented_def live_def split: option.splits)
  with check_window_up [OF laws up step] Cons.prems(1)
  have r: "r = (if c < limit then Inr () else Inl (too_many limit w))" and s1: "view s1 k = Some (c + 1, d)"
    by auto
  have "map (\<lambda>i. if c + int i < limit then Inr () else Inl (too_many limit w)) [0..<Suc (length ts)] =
      (if c < limit then Inr () else Inl (too_many limit w)) #
      map (\<lambda>i. if c + 1 + int i < limit then Inr () else Inl (too_many limit w)) [0..<length ts]"
    by (simp add: upt_conv_Cons map_Suc_upt [symmetric] o_def add.assoc del: upt_Suc)
  with Cons.IH [of "c + 1" s1] Cons.prems(1,3) s1 step r show ?case by simp
qed simp

text \<open>
  C35. A window admits exactly its limit while Redis answers: from the first check that
  starts it, the first \<open>limit\<close> checks within the window pass and every further one is
  refused with 429, \<open>Retry-After\<close> naming the window.
\<close>

theorem window_admits_exactly_limit:
  assumes "redis_laws api view" and "redis_up api" and "live t0 (view s k) = None" and "0 < w"
    and "\<forall>t \<in> set ts. t0 \<le> t \<and> t < t0 + seconds w"
  shows "check_run api k limit w (t0 # ts) s =
    map (\<lambda>i. if int i < limit then Inr () else Inl (too_many limit w)) [0..<Suc (length ts)]"
proof -
  obtain r s1 where step: "check_window api t0 k limit w s = (r, s1)"
    by (cases "check_window api t0 k limit w s")
  from assms(3) have "incremented t0 (view s k) = (1, None)" by (simp add: incremented_def)
  with check_window_up [OF assms(1,2) step] assms(4)
  have r: "r = (if 0 < limit then Inr () else Inl (too_many limit w))"
    and s1: "view s1 k = Some (1, Some (t0 + seconds w))"
    by (auto simp: expiring_def live_def)
  have "map (\<lambda>i. if int i < limit then Inr () else Inl (too_many limit w)) [0..<Suc (length ts)] =
      (if 0 < limit then Inr () else Inl (too_many limit w)) #
      map (\<lambda>i. if 1 + int i < limit then Inr () else Inl (too_many limit w)) [0..<length ts]"
    by (simp add: upt_conv_Cons map_Suc_upt [symmetric] o_def del: upt_Suc)
  with check_run_live [OF assms(1,2) _ s1, of ts limit w] assms(5) step r show ?thesis by simp
qed

theorem window_admits_exactly_limit_witness:
  "check_run (mem_redis True True) [1] 2 60 [0, 5, 59000000] Map.empty =
     [Inr (), Inr (), Inl (too_many 2 60)]"
  using window_admits_exactly_limit [OF mem_redis_laws mem_redis_up, of 0 Map.empty "[1]" 60 "[5, 59000000]" 2]
  by (simp add: live_def seconds_def upt_rec)

text \<open>
  A counter without a deadline never admits again once it has reached the limit: what an
  \<open>INCR\<close> followed by a failing \<open>EXPIRE\<close> leaves behind, because only the check that
  reads 1 sets the deadline.
\<close>

lemma lost_deadline_locks_out:
  assumes "redis_laws api view" "redis_up api" "view s k = Some (c, None)" "limit \<le> c" "0 < c"
  shows "Inr () \<notin> set (check_run api k limit w ts s)"
  using check_run_live [OF assms(1,2,5,3), of ts limit w] assms(4) by auto

lemma failing_expire_passes_and_locks:
  "fst (AnonRateLimiter_call (mem_redis True False) (\<lambda>c. True) (default_settings None None)
     \<lparr>lm_action = ''a'', lm_limit = 1, lm_window_seconds = 60, lm_failure_mode = None\<rparr> 0 None
     \<lparr>ls_redis = Map.empty, ls_metrics = []\<rparr>) = Inr () \<and>
   Inr () \<notin> set (check_run (mem_redis True True) [1] 1 60 ts (Map.empty([1] \<mapsto> (1, None))))"
proof -
  have "Inr () \<notin> set (check_run (mem_redis True True) [1] 1 60 ts (Map.empty([1] \<mapsto> (1, None))))"
    by (rule lost_deadline_locks_out [OF mem_redis_laws mem_redis_up, where c = 1]) simp_all
  then show ?thesis
    by (simp add: AnonRateLimiter_call_def check_window_def mem_redis_def guarded_def Let_def
        incremented_def live_def handle_redis_error_def resolve_failure_mode_def default_settings_def)
qed

text \<open>
  The service-token guard lets exactly the bearer of the configured token pass, answers
  403 to any other ASCII header, and lets \<open>TypeError\<close> escape on a non-ASCII one.
\<close>

lemma service_token_exact:
  assumes "list_all (\<lambda>c. c < 128) (MEDIA_INTERNAL_SERVICE_TOKEN cfg)" "MEDIA_INTERNAL_SERVICE_TOKEN cfg \<noteq> []"
  shows "require_service_token cfg authorization = Inr () \<longleftrightarrow>
      authorization = Some (u ''Bearer '' @ MEDIA_INTERNAL_SERVICE_TOKEN cfg)"
    and "require_service_token cfg (Some (u ''Bearer '' @ 233 # t)) = Inl (Raised ''TypeError'')"
proof -
  have len: "length (u ''Bearer '') = 7" by (simp add: u_def)
  have "a = u ''Bearer '' @ drop 7 a" if "take 7 a = u ''Bearer ''" for a
    using that by (metis append_take_drop_id)
  with assms len show "require_service_token cfg authorization = Inr () \<longleftrightarrow>
      authorization = Some (u ''Bearer '' @ MEDIA_INTERNAL_SERVICE_TOKEN cfg)"
    by (auto simp: require_service_token_def compare_digest_def Let_def split: option.splits) metis
  from len show "require_service_token cfg (Some (u ''Bearer '' @ 233 # t)) = Inl (Raised ''TypeError'')"
    by (simp add: require_service_token_def compare_digest_def Let_def)
qed

text \<open>A bearer header with an empty token reads as no header at all.\<close>

lemma empty_bearer_is_anonymous: "get_optional_user validate (Some []) = get_optional_user validate None"
  by (simp add: get_optional_user_def)

lemma presented_token_is_validated:
  "t \<noteq> [] \<Longrightarrow> get_optional_user validate (Some t) \<noteq> Inr None"
  by (cases "validate t") (simp_all add: get_optional_user_def)

end
