(* ===== verification/ServiceCore.thy ===== *)
theory ServiceCore
  imports TransferImport
begin

text \<open>
  The composition of the components: what any request of the service may do to the
  three tables that account for stored bytes (\<open>MediaObject\<close>, \<open>UploadSession\<close>,
  \<open>StorageUsage\<close>). \<open>core_step\<close> is the abstract machine of atomic changes; each handler
  refines it (\<open>core_run\<close> of the database before into the database after); whatever every
  atomic change keeps is an invariant of the service (\<open>core_invariant\<close>).
\<close>

section \<open>The machine\<close>

text \<open>A key built for the id \<open>i\<close>, whatever the owner, the names and the Unicode data.\<close>

definition made_for :: "uuid \<Rightarrow> ustr \<Rightarrow> bool" where
  "made_for i k \<longleftrightarrow> (\<exists>U owner category filename tenant. k = build_object_key U owner i category filename tenant)"

lemma made_for_inj: "made_for i k \<Longrightarrow> made_for j k \<Longrightarrow> i = j"
  unfolding made_for_def using object_key_parts by metis

text \<open>Rows as they are allowed to be staged.\<close>

definition staged_ok :: "settings \<Rightarrow> upload_session \<Rightarrow> bool" where
  "staged_ok cfg s \<longleftrightarrow> made_for (us_id s) (us_object_key s) \<and>
     us_storage_bucket s = bucket_for_visibility cfg (us_visibility s)"

text \<open>How a session ends without an object: given up, or lapsed while it was open.\<close>

definition closes :: "upload_session \<Rightarrow> upload_session_status \<Rightarrow> bool" where
  "closes s st \<longleftrightarrow> us_status s \<noteq> SES_COMPLETED \<and>
     (st = SES_ABORTED \<or> (st = SES_EXPIRED \<and> us_status s = SES_INITIATED))"

text \<open>A patch or a verdict: identity, place of a deleted row, size and scope stay.\<close>

definition patches :: "settings \<Rightarrow> media_object \<Rightarrow> media_object \<Rightarrow> bool" where
  "patches cfg old row \<longleftrightarrow> mo_id row = mo_id old \<and> mo_object_key row = mo_object_key old \<and>
     mo_deleted_at row = mo_deleted_at old \<and> mo_size_bytes row = mo_size_bytes old \<and>
     mo_owner_user_id row = mo_owner_user_id old \<and> mo_tenant_id row = mo_tenant_id old \<and>
     (mo_status row = mo_status old \<or> mo_status row = OBJ_READY) \<and>
     (mo_deleted_at old = None \<longrightarrow>
        mo_storage_bucket row = bucket_for_visibility cfg (mo_visibility row) \<or>
        (mo_storage_bucket row = mo_storage_bucket old \<and> mo_visibility row = mo_visibility old))"

definition scope_of :: "media_object \<Rightarrow> scope" where
  "scope_of obj = (mo_owner_user_id obj, mo_tenant_id obj)"

inductive core_step :: "settings \<Rightarrow> database \<Rightarrow> database \<Rightarrow> bool" for cfg where
  elsewhere: "db_objects db' = db_objects db \<Longrightarrow> db_sessions db' = db_sessions db \<Longrightarrow>
     balance (db_usage db') = balance (db_usage db) \<Longrightarrow> core_step cfg db db'"
| opened: "us_id s \<notin> us_id ` set (db_sessions db) \<Longrightarrow> staged_ok cfg s \<Longrightarrow>
     db_sessions db' = db_sessions db @ [s] \<Longrightarrow> db_objects db' = db_objects db \<Longrightarrow>
     balance (db_usage db') = balance (db_usage db) \<Longrightarrow> core_step cfg db db'"
| closed: "tbl_get us_id (db_sessions db) (us_id s) = Some s \<Longrightarrow> closes s st \<Longrightarrow>
     db_sessions db' = tbl_put us_id (db_sessions db) (s\<lparr>us_status := st\<rparr>) \<Longrightarrow>
     db_objects db' = db_objects db \<Longrightarrow>
     balance (db_usage db') = balance (db_usage db) \<Longrightarrow> core_step cfg db db'"
| accepted: "tbl_get us_id (db_sessions db) (us_id s) = Some s \<Longrightarrow> us_status s = SES_INITIATED \<Longrightarrow>
     row_free (db_objects db) s \<Longrightarrow> 0 \<le> stat_size stat \<Longrightarrow>
     db_sessions db' = tbl_put us_id (db_sessions db) (s\<lparr>us_status := SES_COMPLETED, us_completed_at := t\<rparr>) \<Longrightarrow>
     db_objects db' = db_objects db @ [object_of_session s mime stat sha OBJ_UPLOADED now] \<Longrightarrow>
     balance (db_usage db') = (balance (db_usage db))((us_owner_user_id s, us_tenant_id s) :=
       (fst (balance (db_usage db) (us_owner_user_id s, us_tenant_id s)) + stat_size stat,
        snd (balance (db_usage db) (us_owner_user_id s, us_tenant_id s)) + 1)) \<Longrightarrow> core_step cfg db db'"
| refused: "tbl_get us_id (db_sessions db) (us_id s) = Some s \<Longrightarrow> us_status s = SES_INITIATED \<Longrightarrow>
     row_free (db_objects db) s \<Longrightarrow> 0 \<le> stat_size stat \<Longrightarrow>
     db_sessions db' = tbl_put us_id (db_sessions db) (s\<lparr>us_status := SES_ABORTED\<rparr>) \<Longrightarrow>
     db_objects db' = db_objects db @ [object_of_session s mime stat sha OBJ_REJECTED now] \<Longrightarrow>
     balance (db_usage db') = balance (db_usage db) \<Longrightarrow> core_step cfg db db'"
| rewritten: "tbl_get mo_id (db_objects db) (mo_id row) = Some old \<Longrightarrow> patches cfg old row \<Longrightarrow>
     db_objects db' = tbl_put mo_id (db_objects db) row \<Longrightarrow> db_sessions db' = db_sessions db \<Longrightarrow>
     balance (db_usage db') = balance (db_usage db) \<Longrightarrow> core_step cfg db db'"
| deleted: "tbl_get mo_id (db_objects db) (mo_id obj) = Some obj \<Longrightarrow> mo_deleted_at obj = None \<Longrightarrow>
     db_objects db' = tbl_put mo_id (db_objects db) (deleted_row obj b now) \<Longrightarrow> db_sessions db' = db_sessions db \<Longrightarrow>
     balance (db_usage db') = (balance (db_usage db))(scope_of obj :=
       (max 0 (fst (balance (db_usage db) (scope_of obj)) - mo_size_bytes obj),
        max 0 (snd (balance (db_usage db) (scope_of obj)) - 1))) \<Longrightarrow> core_step cfg db db'"
| purged: "\<forall>obj \<in> set (db_objects db). mo_id obj \<in> ids \<longrightarrow> mo_deleted_at obj \<noteq> None \<Longrightarrow>
     db_objects db' = filter (\<lambda>obj. mo_id obj \<notin> ids) (db_objects db) \<Longrightarrow> db_sessions db' = db_sessions db \<Longrightarrow>
     balance (db_usage db') = balance (db_usage db) \<Longrightarrow> core_step cfg db db'"

abbreviation core_run :: "settings \<Rightarrow> database \<Rightarrow> database \<Rightarrow> bool" where
  "core_run cfg \<equiv> (core_step cfg)\<^sup>*\<^sup>*"

text \<open>What every atomic change keeps, every run keeps.\<close>

locale core_invariant =
  fixes cfg :: settings and inv :: "database \<Rightarrow> bool"
  assumes step_keeps: "core_step cfg db db' \<Longrightarrow> inv db \<Longrightarrow> inv db'"
begin

lemma run_keeps: "core_run cfg db db' \<Longrightarrow> inv db \<Longrightarrow> inv db'"
  by (induction rule: rtranclp_induct) (auto intro: step_keeps)

lemma fold_keeps:
  assumes "\<And>op w. good w \<Longrightarrow> core_run cfg (f w) (f (exec op w)) \<and> good (exec op w)"
  shows "good w \<Longrightarrow> inv (f w) \<Longrightarrow> inv (f (fold exec ops w))"
proof (induction ops arbitrary: w)
  case (Cons op ops)
  have "good (exec op w)" and "inv (f (exec op w))"
    using assms [OF Cons.prems(1), of op] run_keeps Cons.prems(2) by blast+
  from Cons.IH [OF this] show ?case by simp
qed simp

end

section \<open>Well-formedness\<close>

definition row_ok :: "settings \<Rightarrow> media_object \<Rightarrow> bool" where
  "row_ok cfg obj \<longleftrightarrow> made_for (mo_id obj) (mo_object_key obj) \<and> 0 \<le> mo_size_bytes obj \<and>
     (mo_status obj = OBJ_DELETED \<longrightarrow> mo_deleted_at obj \<noteq> None) \<and>
     (mo_deleted_at obj = None \<longrightarrow> mo_storage_bucket obj = bucket_for_visibility cfg (mo_visibility obj))"

text \<open>Every object row stems from a session of the same id, which is settled.\<close>

definition stems :: "upload_session list \<Rightarrow> uuid \<Rightarrow> bool" where
  "stems sessions i \<longleftrightarrow>
     (\<exists>s. tbl_get us_id sessions i = Some s \<and> us_status s \<in> {SES_COMPLETED, SES_ABORTED})"

definition core_wf :: "settings \<Rightarrow> database \<Rightarrow> bool" where
  "core_wf cfg db \<longleftrightarrow> distinct (map mo_id (db_objects db)) \<and> distinct (map us_id (db_sessions db)) \<and>
     (\<forall>s \<in> set (db_sessions db). staged_ok cfg s) \<and>
     (\<forall>obj \<in> set (db_objects db). row_ok cfg obj \<and> stems (db_sessions db) (mo_id obj))"

lemma core_wfD:
  assumes "core_wf cfg db"
  shows "distinct (map mo_id (db_objects db))" "distinct (map us_id (db_sessions db))"
    "s \<in> set (db_sessions db) \<Longrightarrow> staged_ok cfg s"
    "obj \<in> set (db_objects db) \<Longrightarrow> row_ok cfg obj" "obj \<in> set (db_objects db) \<Longrightarrow> stems (db_sessions db) (mo_id obj)"
  using assms unfolding core_wf_def by auto

lemma core_wf_cong:
  "db_objects db' = db_objects db \<Longrightarrow> db_sessions db' = db_sessions db \<Longrightarrow> core_wf cfg db' = core_wf cfg db"
  by (simp add: core_wf_def)

text \<open>Writing a row over an old one, and settling a session, keep it.\<close>

lemma core_wf_put:
  assumes wf: "core_wf cfg db" and old: "tbl_get mo_id (db_objects db) (mo_id row) = Some old" and row: "row_ok cfg row"
    and db': "db_objects db' = tbl_put mo_id (db_objects db) row" "db_sessions db' = db_sessions db"
  shows "core_wf cfg db'"
proof -
  have "mo_id old = mo_id row" "old \<in> set (db_objects db)" using old by (auto dest: tbl_get_key tbl_get_mem)
  then have "stems (db_sessions db) (mo_id row)" using core_wfD(5) [OF wf] by metis
  moreover have "set (db_objects db') \<subseteq> insert row (set (db_objects db))"
    unfolding db' by (rule set_tbl_put_subset)
  ultimately show ?thesis
    using wf row unfolding core_wf_def db'(2) by (auto simp: db'(1) distinct_tbl_put dest!: subsetD)
qed

lemma stems_put:
  "stems t i \<Longrightarrow> tbl_get us_id t (us_id s) = Some s \<Longrightarrow> us_id s' = us_id s \<Longrightarrow>
     us_status s \<in> {SES_COMPLETED, SES_ABORTED} \<longrightarrow> us_status s' \<in> {SES_COMPLETED, SES_ABORTED} \<Longrightarrow>
     stems (tbl_put us_id t s') i"
  by (auto simp: stems_def table_simps)

lemma core_wf_settle:
  assumes wf: "core_wf cfg db" and s: "tbl_get us_id (db_sessions db) (us_id s) = Some s"
    and s': "us_id s' = us_id s" "staged_ok cfg s'"
      "us_status s \<in> {SES_COMPLETED, SES_ABORTED} \<longrightarrow> us_status s' \<in> {SES_COMPLETED, SES_ABORTED}"
    and db': "db_sessions db' = tbl_put us_id (db_sessions db) s'" "db_objects db' = db_objects db @ rows"
    and rows: "rows = [] \<or> (\<exists>row. rows = [row] \<and> mo_id row = us_id s \<and> row_ok cfg row \<and>
      (\<forall>x \<in> set (db_objects db). mo_id x \<noteq> us_id s) \<and> us_status s' \<in> {SES_COMPLETED, SES_ABORTED})"
  shows "core_wf cfg db'"
proof -
  have "set (db_sessions db') \<subseteq> insert s' (set (db_sessions db))" unfolding db' by (rule set_tbl_put_subset)
  then have "\<forall>x \<in> set (db_sessions db'). staged_ok cfg x" using s'(2) core_wfD(3) [OF wf] by blast
  moreover have "stems (db_sessions db') (mo_id obj)" if "obj \<in> set (db_objects db)" for obj
    unfolding db'(1) by (rule stems_put [OF core_wfD(5) [OF wf that] s s'(1,3)])
  moreover have "stems (db_sessions db') (us_id s)" if "us_status s' \<in> {SES_COMPLETED, SES_ABORTED}"
    using that s'(1) by (simp add: stems_def db'(1) table_simps)
  moreover have "distinct (map us_id (db_sessions db'))" "distinct (map mo_id (db_objects db'))"
    using core_wfD(1,2) [OF wf] rows by (auto simp: db' distinct_tbl_put)
  ultimately show ?thesis
    using core_wfD(4) [OF wf] rows unfolding core_wf_def db'(2) by auto
qed

lemma staged_ok_settled [simp]:
  "staged_ok cfg (s\<lparr>us_status := st\<rparr>) = staged_ok cfg s" "staged_ok cfg (s\<lparr>us_completed_at := t\<rparr>) = staged_ok cfg s"
  by (simp_all add: staged_ok_def)

lemma object_of_session_key [simp]:
  "mo_object_key (object_of_session s mime stat sha st now) = us_object_key s"
  by (simp add: object_of_session_def)

lemma row_of_session_ok:
  "staged_ok cfg s \<Longrightarrow> 0 \<le> stat_size stat \<Longrightarrow> st \<noteq> OBJ_DELETED \<Longrightarrow> row_ok cfg (object_of_session s mime stat sha st now)"
  by (simp add: staged_ok_def row_ok_def)

lemma core_wf_step:
  assumes "core_step cfg db db'" and wf: "core_wf cfg db"
  shows "core_wf cfg db'"
  using assms(1)
proof cases
  case elsewhere
  then show ?thesis using wf core_wf_cong [OF elsewhere(1,2)] by simp
next
  case (opened s)
  have "stems (db_sessions db') i" if "stems (db_sessions db) i" for i
    using that by (auto simp: stems_def opened(3) tbl_get_append)
  moreover have "distinct (map us_id (db_sessions db'))"
    using opened(1) core_wfD(2) [OF wf] by (simp add: opened(3))
  ultimately show ?thesis
    using opened(2) wf unfolding core_wf_def opened(4) by (auto simp: opened(3))
next
  case (closed s st)
  have "staged_ok cfg s" by (rule core_wfD(3) [OF wf tbl_get_mem [OF closed(1)]])
  then have ok: "staged_ok cfg (s\<lparr>us_status := st\<rparr>)" by simp
  show ?thesis
    by (rule core_wf_settle [OF wf closed(1) _ ok _ closed(3), where rows = "[]"])
      (use closed(2,4) in \<open>auto simp: closes_def\<close>)
next
  case (accepted s stat t mime sha now)
  have "staged_ok cfg s" by (rule core_wfD(3) [OF wf tbl_get_mem [OF accepted(1)]])
  then show ?thesis
    using accepted(3,4) by (intro core_wf_settle [OF wf accepted(1) _ _ _ accepted(5,6)])
      (simp_all add: row_free_def row_of_session_ok)
next
  case (refused s stat mime sha now)
  have "staged_ok cfg s" by (rule core_wfD(3) [OF wf tbl_get_mem [OF refused(1)]])
  then show ?thesis
    using refused(3,4) by (intro core_wf_settle [OF wf refused(1) _ _ _ refused(5,6)])
      (simp_all add: row_free_def row_of_session_ok)
next
  case (rewritten row old)
  have "row_ok cfg old" by (rule core_wfD(4) [OF wf tbl_get_mem [OF rewritten(1)]])
  with rewritten(2) have "row_ok cfg row"
    unfolding row_ok_def patches_def by (metis media_object_status.distinct)
  then show ?thesis by (rule core_wf_put [OF wf rewritten(1) _ rewritten(3,4)])
next
  case (deleted obj b now)
  have "row_ok cfg obj" by (rule core_wfD(4) [OF wf tbl_get_mem [OF deleted(1)]])
  then have "row_ok cfg (deleted_row obj b now)" by (simp add: row_ok_def deleted_row_def)
  then show ?thesis using core_wf_put [OF wf _ _ deleted(3,4)] deleted(1) by simp
next
  case (purged ids)
  then show ?thesis using wf by (auto simp: core_wf_def distinct_map_filter)
qed

interpretation wf: core_invariant cfg "core_wf cfg" for cfg
  by unfold_locales (rule core_wf_step)

text \<open>What well-formedness gives the components' own lemmas, and an open upload.\<close>

lemma core_wf_objects:
  assumes wf: "core_wf cfg db"
  shows "objects_wf cfg db"
proof -
  have "mo_id a = mo_id b" if "a \<in> set (db_objects db)" "b \<in> set (db_objects db)" "mo_object_key a = mo_object_key b" for a b
    using that core_wfD(4) [OF wf] made_for_inj unfolding row_ok_def by metis
  then have "keys_unique db"
    unfolding keys_unique_def by (metis tbl_get_key tbl_get_mem)
  then show ?thesis
    using core_wfD(1,4) [OF wf] by (auto simp: objects_wf_def row_ok_def dest: tbl_get_mem)
qed

lemma core_wf_open_free:
  assumes wf: "core_wf cfg db" and s: "tbl_get us_id (db_sessions db) i = Some s" "us_status s = SES_INITIATED"
  shows "row_free (db_objects db) s"
proof -
  have i: "us_id s = i" "s \<in> set (db_sessions db)" using s(1) by (auto dest: tbl_get_key tbl_get_mem)
  have id: "mo_id obj \<noteq> us_id s" if "obj \<in> set (db_objects db)" for obj
    using core_wfD(5) [OF wf that] s i by (auto simp: stems_def)
  moreover have "mo_object_key obj \<noteq> us_object_key s" if "obj \<in> set (db_objects db)" for obj
    using id [OF that] core_wfD(4) [OF wf that] core_wfD(3) [OF wf i(2)] made_for_inj
    unfolding row_ok_def staged_ok_def by metis
  ultimately show ?thesis by (auto simp: row_free_def)
qed

section \<open>Accounting\<close>

text \<open>The objects a scope is accountable for: live and not refused.\<close>

definition accountable :: "scope \<Rightarrow> media_object \<Rightarrow> bool" where
  "accountable k obj \<longleftrightarrow> scope_of obj = k \<and> mo_deleted_at obj = None \<and> mo_status obj \<noteq> OBJ_REJECTED"

definition weight :: "(media_object \<Rightarrow> int) \<Rightarrow> scope \<Rightarrow> media_object list \<Rightarrow> int" where
  "weight v k rows = sum_list (map (\<lambda>obj. if accountable k obj then v obj else 0) rows)"

definition not_overcharged :: "database \<Rightarrow> bool" where
  "not_overcharged db \<longleftrightarrow> (\<forall>obj \<in> set (db_objects db). 0 \<le> mo_size_bytes obj) \<and>
     (\<forall>k. fst (balance (db_usage db) k) \<le> weight mo_size_bytes k (db_objects db) \<and>
          snd (balance (db_usage db) k) \<le> weight (\<lambda>_. 1) k (db_objects db))"

lemma not_overchargedD:
  assumes "not_overcharged db"
  shows "fst (balance (db_usage db) k) \<le> weight mo_size_bytes k (db_objects db)"
    "snd (balance (db_usage db) k) \<le> weight (\<lambda>_. 1) k (db_objects db)"
    "obj \<in> set (db_objects db) \<Longrightarrow> 0 \<le> mo_size_bytes obj"
  using assms unfolding not_overcharged_def by blast+

lemma weight_put:
  "tbl_get mo_id rows (mo_id row) = Some old \<Longrightarrow>
   weight v k (tbl_put mo_id rows row) = weight v k rows -
     (if accountable k old then v old else 0) + (if accountable k row then v row else 0)"
  by (simp add: weight_def sum_tbl_put)

lemma weight_nonneg: "\<forall>obj \<in> set rows. 0 \<le> v obj \<Longrightarrow> 0 \<le> weight v k rows"
  unfolding weight_def by (intro sum_list_nonneg) auto

lemma weight_member:
  assumes "\<forall>obj \<in> set rows. 0 \<le> v obj" and "obj \<in> set rows" and "accountable k obj"
  shows "v obj \<le> weight v k rows"
  unfolding weight_def using assms
  by (intro order.trans [OF _ member_le_sum_list [of "if accountable k obj then v obj else 0"]]) auto

lemma weight_append: "weight v k (xs @ ys) = weight v k xs + weight v k ys"
  by (simp add: weight_def)

lemma weight_filter:
  "\<forall>obj \<in> set rows. \<not> P obj \<longrightarrow> \<not> accountable k obj \<Longrightarrow> weight v k (filter P rows) = weight v k rows"
  by (induction rows) (auto simp: weight_def)

lemma overcharged_frame:
  "not_overcharged db \<Longrightarrow> db_objects db' = db_objects db \<Longrightarrow> balance (db_usage db') = balance (db_usage db) \<Longrightarrow>
     not_overcharged db'"
  by (simp add: not_overcharged_def)

lemma overcharged_put:
  assumes ok: "not_overcharged db" and old: "tbl_get mo_id (db_objects db) (mo_id row) = Some old"
    and row: "mo_size_bytes row = mo_size_bytes old" "db_objects db' = tbl_put mo_id (db_objects db) row"
    and bal: "\<And>k. fst (balance (db_usage db') k) \<le> weight mo_size_bytes k (db_objects db')"
      "\<And>k. snd (balance (db_usage db') k) \<le> weight (\<lambda>_. 1) k (db_objects db')"
  shows "not_overcharged db'"
proof -
  have "0 \<le> mo_size_bytes old" using ok tbl_get_mem [OF old] by (simp add: not_overcharged_def)
  moreover have "set (db_objects db') \<subseteq> insert row (set (db_objects db))"
    unfolding row(2) by (rule set_tbl_put_subset)
  ultimately have "\<forall>obj \<in> set (db_objects db'). 0 \<le> mo_size_bytes obj"
    using ok row(1) unfolding not_overcharged_def by auto
  then show ?thesis using bal by (simp add: not_overcharged_def)
qed

lemma accountable_session [simp]:
  "accountable k (object_of_session s mime stat sha st now) \<longleftrightarrow>
     k = (us_owner_user_id s, us_tenant_id s) \<and> st \<noteq> OBJ_REJECTED"
  by (auto simp: accountable_def scope_of_def)

lemma not_overcharged_step:
  assumes "core_step cfg db db'" and ok: "not_overcharged db"
  shows "not_overcharged db'"
  using assms(1)
proof cases
  case elsewhere
  then show ?thesis using overcharged_frame [OF ok] by blast
next
  case (opened s)
  then show ?thesis using overcharged_frame [OF ok] by blast
next
  case (closed s st)
  then show ?thesis using overcharged_frame [OF ok] by blast
next
  case (accepted s stat t mime sha now)
  then show ?thesis
    using ok by (auto simp: not_overcharged_def weight_append accepted(6,7)) (simp_all add: weight_def)
next
  case (refused s stat mime sha now)
  then show ?thesis
    using ok by (auto simp: not_overcharged_def weight_append refused(6,7)) (simp_all add: weight_def)
next
  case (rewritten row old)
  have size: "0 \<le> mo_size_bytes old" using ok tbl_get_mem [OF rewritten(1)] by (simp add: not_overcharged_def)
  have scope: "scope_of row = scope_of old" "mo_deleted_at row = mo_deleted_at old" "mo_size_bytes row = mo_size_bytes old"
    "accountable k old \<Longrightarrow> accountable k row" for k
    using rewritten(2) by (auto simp: patches_def accountable_def scope_of_def)
  have "weight v k (db_objects db) \<le> weight v k (db_objects db')" if "0 \<le> v row" "v row = v old" for v k
    using that scope(4) [of k] by (simp add: rewritten(3) weight_put [OF rewritten(1)])
  then have more: "weight mo_size_bytes k (db_objects db) \<le> weight mo_size_bytes k (db_objects db')"
    "weight (\<lambda>_. 1) k (db_objects db) \<le> weight (\<lambda>_. 1) k (db_objects db')" for k
    using size scope(3) by simp_all
  show ?thesis
    by (rule overcharged_put [OF ok rewritten(1) scope(3) rewritten(3)]; unfold rewritten(5))
      (rule order.trans [OF not_overchargedD(1) [OF ok] more(1)], rule order.trans [OF not_overchargedD(2) [OF ok] more(2)])
next
  case (deleted obj b now)
  have mem: "obj \<in> set (db_objects db)" using tbl_get_mem [OF deleted(1)] .
  have gone: "\<not> accountable k (deleted_row obj b now)" for k by (simp add: accountable_def)
  have put: "weight v k (db_objects db') = weight v k (db_objects db) - (if accountable k obj then v obj else 0)" for v k
    using weight_put [of "db_objects db" "deleted_row obj b now" obj v k] deleted(1) gone by (simp add: deleted(3))
  have own: "accountable k obj \<Longrightarrow> k = scope_of obj" for k by (simp add: accountable_def)
  have sizes: "\<forall>o' \<in> set (db_objects db). 0 \<le> mo_size_bytes o'" using ok by (simp add: not_overcharged_def)
  have debit: "max 0 (b' - v obj) \<le> weight v k (db_objects db')"
    if "b' \<le> weight v k (db_objects db)" "\<forall>o' \<in> set (db_objects db). 0 \<le> v o'" for b' v k
    using that weight_nonneg [OF that(2), of k] weight_member [OF that(2) mem, of k] mem unfolding put by auto
  have other: "b' \<le> weight v k (db_objects db')" if "k \<noteq> scope_of obj" "b' \<le> weight v k (db_objects db)" for b' v k
    using that own [of k] by (cases "accountable k obj") (simp_all add: put)
  show ?thesis
  proof (rule overcharged_put [OF ok, of "deleted_row obj b now" obj])
    show "fst (balance (db_usage db') k) \<le> weight mo_size_bytes k (db_objects db')" for k
      using debit [OF not_overchargedD(1) [OF ok] sizes] other [OF _ not_overchargedD(1) [OF ok]]
      by (simp add: deleted(5))
    show "snd (balance (db_usage db') k) \<le> weight (\<lambda>_. 1) k (db_objects db')" for k
      using debit [OF not_overchargedD(2) [OF ok]] other [OF _ not_overchargedD(2) [OF ok]]
      by (simp add: deleted(5))
  qed (use deleted(1,3) in \<open>simp_all add: deleted_row_def\<close>)
next
  case (purged ids)
  have "weight v k (db_objects db') = weight v k (db_objects db)" for v k
    unfolding purged(2) by (rule weight_filter) (use purged(1) in \<open>auto simp: accountable_def\<close>)
  then show ?thesis using ok by (auto simp: not_overcharged_def purged(2,4))
qed

interpretation books: core_invariant cfg not_overcharged for cfg
  by unfold_locales (rule not_overcharged_step)

end
