(* ===== verification/Service.thy ===== *)
theory Service
  imports ServiceCore Shares
begin

text \<open>
  The service as a whole: every request and cron run that can reach the object, session
  and usage tables, as one executable step on the world, and the proof that each handler
  refines the abstract machine of \<open>ServiceCore\<close>. The two properties of this theory hold
  in every state the service reaches, under any sequence of requests of any callers.
\<close>

section \<open>Handlers refine the machine\<close>

text \<open>The documented behaviour of a stat call: an object has a size.\<close>

definition sizes_nonneg :: "'s storage_api \<Rightarrow> bool" where
  "sizes_nonneg api \<longleftrightarrow> (\<forall>s b k st. api_stat api s b k = Some st \<longrightarrow> 0 \<le> stat_size st)"

lemma core_elsewhere:
  "db_objects db' = db_objects db \<Longrightarrow> db_sessions db' = db_sessions db \<Longrightarrow>
     (\<And>k. balance (db_usage db') k = balance (db_usage db) k) \<Longrightarrow> core_run cfg db db'"
  by (intro r_into_rtranclp core_step.elsewhere ext)

lemma core_same: "core_run cfg db db" by simp

lemma record_session_core:
  assumes stage: "stage_upload env cfg db0 p req i = (Inr staged, ms)"
    and vis: "ur_visibility req' = ur_visibility req"
    and run: "record_upload_session db staged req' t now = (r, db')"
  shows "core_run cfg db db'"
proof (cases r)
  case (Inl e)
  then have "db' = db" using run by (auto simp: record_upload_session_def Let_def split: option.splits)
  then show ?thesis by simp
next
  case (Inr row)
  have "made_for (st_media_id staged) (st_object_key staged)" "st_bucket staged = bucket_for_visibility cfg (ur_visibility req)"
    using stage by (auto simp: stage_upload_def split: if_splits sum.splits prod.splits)
      (unfold made_for_def, blast)
  then show ?thesis using run vis Inr
    by (intro r_into_rtranclp core_step.opened [of row])
      (auto simp: record_upload_session_def insert_upload_session_def tbl_insert_def tbl_get_None staged_ok_def Let_def
        split: option.splits if_splits)
qed

lemma initiate_core:
  assumes "initiate_upload env cfg api w p req fresh now = (res, w')"
  shows "core_run cfg (w_db w) (w_db w')"
proof -
  have "w_db w' = w_db w \<or> (\<exists>staged ms r t. stage_upload env cfg (w_db w) p req fresh = (Inr staged, ms) \<and>
      record_upload_session (w_db w) staged req t now = (r, w_db w'))"
    using assms by (auto simp: initiate_upload_def Let_def split: prod.splits sum.splits option.splits)
  then show ?thesis using record_session_core [OF _ refl] by auto
qed

lemma put_session_tables [simp]:
  "db_objects (put_session db s) = db_objects db" "db_usage (put_session db s) = db_usage db"
  "db_sessions (put_session db s) = tbl_put us_id (db_sessions db) s"
  by (simp_all add: put_session_def)

lemma complete_core:
  assumes sizes: "sizes_nonneg api" and run: "complete_upload env cfg api w p i req now = (res, w')"
  shows "core_run cfg (w_db w) (w_db w')"
  using run
proof (cases rule: complete_upload_cases)
  case (expired e sess)
  then show ?thesis
    by (intro r_into_rtranclp core_step.closed [of _ sess SES_EXPIRED])
      (auto simp: load_owned_session_Inr closes_def dest: tbl_get_key)
next
  case (rejected m reason sess stat s' usage')
  have "0 \<le> stat_size stat" using sizes rejected(8) by (auto simp: sizes_nonneg_def)
  then show ?thesis using rejected
    by (intro r_into_rtranclp core_step.refused [of _ sess stat])
      (auto simp: load_owned_session_Inr dest: tbl_get_key)
next
  case (promoted public)
  from run [unfolded promoted] obtain sess cats stat usage' ms s' where
    c: "completable env cfg api w p i req now sess cats stat"
    and r: "reserve_storage_for_object cfg (db_usage (w_db w)) (us_owner_user_id sess) (us_tenant_id sess) (stat_size stat) now
       = (Inr (), usage', ms)"
    and obj: "mop_object public = object_of_session sess (us_expected_mime_type sess) stat (uc_sha256 req) OBJ_UPLOADED now"
    and db: "w_db w' = put_session ((w_db w)\<lparr>db_objects := db_objects (w_db w) @ [mop_object public], db_usage := usage',
       db_links := refile (db_links (w_db w)) (us_id sess) cats\<rparr>)
       (sess\<lparr>us_status := SES_COMPLETED, us_completed_at := Some now\<rparr>)"
    by (rule complete_upload_effect)
  have "balance (db_usage (w_db w')) k = ((balance (db_usage (w_db w)))((us_owner_user_id sess, us_tenant_id sess) :=
       (fst (balance (db_usage (w_db w)) (us_owner_user_id sess, us_tenant_id sess)) + stat_size stat,
        snd (balance (db_usage (w_db w)) (us_owner_user_id sess, us_tenant_id sess)) + 1))) k" for k
    using reserve_balance [OF r, of k] by (simp add: db)
  moreover from c have sess: "tbl_get us_id (db_sessions (w_db w)) i = Some sess" and open': "us_status sess = SES_INITIATED"
    and free: "row_free (db_objects (w_db w)) sess" and "0 \<le> stat_size stat"
    using sizes by (auto simp: completable_def sizes_nonneg_def)
  ultimately show ?thesis using tbl_get_key [OF sess]
    by (intro r_into_rtranclp core_step.accepted [OF _ open' free, of stat]) (auto simp: db obj)
qed simp

lemma abort_core:
  assumes "abort_upload api w p i = (res, w')"
  shows "core_run cfg (w_db w) (w_db w')"
proof (cases "load_owned_session (w_db w) p i")
  case (Inl e)
  then show ?thesis using assms by (simp add: abort_upload_def)
next
  case (Inr sess)
  then have s: "tbl_get us_id (db_sessions (w_db w)) i = Some sess" by (simp add: load_owned_session_Inr)
  show ?thesis
  proof (cases "us_status sess = SES_COMPLETED")
    case False
    then have "w_db w' = put_session (w_db w) (sess\<lparr>us_status := SES_ABORTED\<rparr>)"
      using assms Inr by (auto simp: abort_upload_def Let_def split: if_splits)
    then show ?thesis using s tbl_get_key [OF s] False
      by (intro r_into_rtranclp core_step.closed [of _ sess SES_ABORTED]) (auto simp: closes_def)
  qed (use assms Inr in \<open>simp add: abort_upload_def\<close>)
qed

lemma update_core:
  assumes "update_object cfg api w p i upd now commit_ok = (res, w')"
  shows "core_run cfg (w_db w) (w_db w')"
  using assms
proof (cases rule: update_object_outcomes)
  case (in_place obj row ls public)
  note obj = load_object_get [OF in_place(2)] and row = patched_Some [OF in_place(3)]
  have bucket: "mo_storage_bucket row = bucket_for_visibility cfg (mo_visibility row) \<or>
      (mo_storage_bucket row = mo_storage_bucket obj \<and> mo_visibility row = mo_visibility obj)"
    using in_place(5) row
    by (auto simp: relocate_for_visibility_def Let_def split: option.splits if_splits prod.splits bool.splits)
  then have "patches cfg obj row" using row by (simp add: patches_def)
  then show ?thesis using obj row
    by (intro r_into_rtranclp core_step.rewritten [of _ row obj]) (simp_all add: in_place(6))
next
  case (relocated obj row ls v s' public)
  note obj = load_object_get [OF relocated(2)] and row = patched_Some [OF relocated(5)]
  have "patches cfg obj row" using row relocated(3) by (simp add: patches_def)
  then show ?thesis using obj row
    by (intro r_into_rtranclp core_step.rewritten [of _ row obj]) (simp_all add: relocated(8))
qed simp_all

lemma scan_core:
  assumes scan: "apply_scan_result w i verdict fresh now = (res, w')"
  shows "core_run cfg (w_db w) (w_db w')"
proof (cases "fetch_object (w_db w) i True")
  case (Inl e)
  then show ?thesis using scan by (simp add: apply_scan_result_def)
next
  case (Inr obj)
  then have got: "tbl_get mo_id (db_objects (w_db w)) i = Some obj" "mo_id obj = i"
    by (auto simp: fetch_object_Inr dest: tbl_get_key)
  from scan Inr obtain row where row: "db_objects (w_db w') = tbl_put mo_id (db_objects (w_db w)) row"
    and same: "patches cfg obj row" "mo_id row = i" "db_sessions (w_db w') = db_sessions (w_db w)" "db_usage (w_db w') = db_usage (w_db w)"
    using got(2) by (auto simp: apply_scan_result_def record_event_def Let_def patches_def split: if_splits)
  then show ?thesis
    using got by (intro r_into_rtranclp core_step.rewritten [of _ row obj]) simp_all
qed

lemma delete_core:
  assumes del: "delete_object cfg api w p i fresh now = (res, w')"
  shows "core_run cfg (w_db w) (w_db w')"
proof (cases "\<exists>obj. load_object (w_db w) p i True = Inr obj \<and> mo_deleted_at obj = None")
  case True
  then obtain obj where obj: "load_object (w_db w) p i True = Inr obj" "mo_deleted_at obj = None" by blast
  note got = load_object_get [OF obj(1)]
  have step: "core_run cfg (w_db w) (commit_soft_delete (w_db w) obj (deleted_row obj b now) fresh now)" for b
    using got obj(2) by (intro r_into_rtranclp core_step.deleted [of _ obj _ b now])
      (simp_all add: removed_balance scope_of_def fun_eq_iff commit_soft_delete_def record_event_def)
  from obj del show ?thesis
    by (cases rule: delete_object_outcomes) (simp_all add: step)
next
  case False
  then have "w' = w" using del by (auto simp: delete_object_def split: sum.splits if_splits)
  then show ?thesis by simp
qed

text \<open>The purges and the reconciliation.\<close>

lemma purge_object_tables:
  "db_objects (w_db (purge_object api obj w)) = filter (\<lambda>x. mo_id x \<noteq> mo_id obj) (db_objects (w_db w)) \<and>
   db_sessions (w_db (purge_object api obj w)) = db_sessions (w_db w) \<and>
   db_usage (w_db (purge_object api obj w)) = db_usage (w_db w)"
  by (simp add: purge_object_def Let_def purge_variants_db purge_jobs_db delete_object_row_def tbl_del_def)

lemma purge_all_core:
  "distinct (map mo_id (db_objects (w_db w))) \<Longrightarrow>
   (\<forall>obj \<in> set objs. \<forall>x \<in> set (db_objects (w_db w)). mo_id x = mo_id obj \<longrightarrow> x = obj) \<Longrightarrow>
   core_run cfg (w_db w) (w_db (snd (purge_all api objs (n, w))))"
proof (induction objs arbitrary: n w)
  case (Cons obj objs)
  show ?case
  proof (cases "mo_status obj \<noteq> OBJ_DELETED \<or> mo_deleted_at obj = None")
    case True
    then show ?thesis using Cons.IH [of w n] Cons.prems by simp
  next
    case False
    note tables = purge_object_tables [of api obj w]
    have "core_run cfg (w_db w) (w_db (purge_object api obj w))"
      using False Cons.prems(2) tables by (intro r_into_rtranclp core_step.purged [where ids = "{mo_id obj}"]) auto
    also have "core_run cfg \<dots> (w_db (snd (purge_all api objs (n + 1, purge_object api obj w))))"
      using Cons.prems tables by (intro Cons.IH) (auto simp: distinct_map_filter)
    finally show ?thesis using False by auto
  qed
qed simp

lemma hard_purge_core:
  assumes wf: "core_wf cfg (w_db w)" and run: "hard_purge_expired api w now older_than limit = (n, w')"
  shows "core_run cfg (w_db w) (w_db w')"
proof -
  have d: "distinct (map mo_id (db_objects (w_db w)))" by (rule core_wfD(1) [OF wf])
  let ?gone = "purge_candidates (w_db w) (now - older_than) limit"
  have "set ?gone \<subseteq> set (db_objects (w_db w))" using purge_candidates_expired(1) by fastforce
  then have "\<forall>obj \<in> set ?gone. \<forall>x \<in> set (db_objects (w_db w)). mo_id x = mo_id obj \<longrightarrow> x = obj"
    using d by (auto simp: distinct_map inj_on_def)
  from purge_all_core [OF d this, of cfg api 0] show ?thesis using run by (simp add: hard_purge_expired_def)
qed

lemma expire_all_core:
  "distinct (map us_id (db_sessions (w_db w))) \<Longrightarrow> distinct (map us_id stale) \<Longrightarrow>
   \<forall>s \<in> set stale. tbl_get us_id (db_sessions (w_db w)) (us_id s) = Some s \<and> us_status s = SES_INITIATED \<Longrightarrow>
   core_run cfg (w_db w) (w_db (expire_all api stale w))"
proof (induction stale arbitrary: w)
  case (Cons s stale)
  let ?w = "(best_effort_remove api (us_storage_bucket s) (us_object_key s) w)\<lparr>w_db :=
     put_session (w_db w) (s\<lparr>us_status := SES_EXPIRED\<rparr>)\<rparr>"
  have "core_run cfg (w_db w) (w_db ?w)"
    using Cons.prems(3) by (intro r_into_rtranclp core_step.closed [of _ s SES_EXPIRED]) (simp_all add: closes_def)
  also have "core_run cfg (w_db ?w) (w_db (expire_all api stale ?w))"
  proof (rule Cons.IH)
    show "distinct (map us_id (db_sessions (w_db ?w)))" using Cons.prems(1) by (simp add: distinct_tbl_put)
    show "distinct (map us_id stale)" using Cons.prems(2) by simp
    have "us_id x \<noteq> us_id s" if "x \<in> set stale" for x
      using that Cons.prems(2) by (metis distinct.simps(2) image_eqI list.simps(9) set_map)
    then show "\<forall>x \<in> set stale. tbl_get us_id (db_sessions (w_db ?w)) (us_id x) = Some x \<and> us_status x = SES_INITIATED"
      using Cons.prems(3) by (simp add: table_simps)
  qed
  finally show ?case by (simp add: Let_def)
qed simp

lemma reconcile_db:
  assumes "reconcile_orphans api w now buckets grace limit repair = (res, w')"
  shows "w_db w' = w_db w"
proof -
  obtain r where "scan_buckets api (pending_keys (w_db w) now) limit repair buckets ([], 0, w) = (r, w')"
    using assms by (auto simp: reconcile_orphans_def find_storage_orphans_def Let_def split: prod.splits sum.splits)
  then have "\<exists>ls. w' = (if repair then remove_all api ls w else w)"
    using scan_buckets_effect [OF refl, of "[]" limit] by (metis le0 list.size(3))
  then show ?thesis by auto
qed

lemma stale_purge_core:
  assumes wf: "core_wf cfg (w_db w)" and run: "purge_stale_uploads takes_naive api w now = (res, w')"
  shows "core_run cfg (w_db w) (w_db w')"
proof -
  note d = core_wfD(2) [OF wf]
  let ?stale = "filter (stale_session now) (db_sessions (w_db w))"
  have "\<forall>s \<in> set ?stale. tbl_get us_id (db_sessions (w_db w)) (us_id s) = Some s \<and> us_status s = SES_INITIATED"
    using tbl_get_distinct [OF d] by (auto simp: stale_session_def)
  then show ?thesis using expire_all_core [OF d, of ?stale cfg api] d run
    by (cases takes_naive) (auto simp: purge_stale_uploads_def Let_def distinct_map_filter)
qed

text \<open>Imports: the tree touches no core table, a manifest rewrites rows, an archive uploads.\<close>

definition core_tables :: "database \<Rightarrow> media_object list \<times> upload_session list \<times> storage_usage list" where
  "core_tables db = (db_objects db, db_sessions db, db_usage db)"

lemma core_tables_run: "core_tables db' = core_tables db \<Longrightarrow> core_run cfg db db'"
  by (rule core_elsewhere) (simp_all add: core_tables_def)

lemma insert_category_tables:
  "insert_category db name slug parent owner tenant = (row, db') \<Longrightarrow> core_tables db' = core_tables db"
  by (auto simp: insert_category_def Let_def core_tables_def)

lemma ensure_all_tables:
  assumes "ensure_all db p cs tree = (res, db')"
  shows "core_tables db' = core_tables db"
  by (rule ensure_all_keeps [of p "\<lambda>d. core_tables d = core_tables db", OF _ assms]) (auto dest: insert_category_tables)

lemma recreate_tree_core:
  "recreate_tree env cfg db p manifest = (res, db') \<Longrightarrow> core_run cfg db db'"
  by (rule core_tables_run) (auto simp: recreate_tree_def dest: ensure_all_tables split: sum.splits if_splits)

lemma file_into_core:
  assumes "importable_match db p i = (Some obj, usable)"
  shows "core_run cfg db (file_into db obj categories now)"
proof (cases "filter (\<lambda>row. cat_id row \<notin> set (map snd (filter (\<lambda>l. fst l = mo_id obj) (db_links db)))) categories = []")
  case True
  then have "file_into db obj categories now = db" by (simp add: file_into_def)
  then show ?thesis by simp
next
  case False
  have "tbl_get mo_id (db_objects db) (mo_id obj) = Some obj" using match_id [OF assms] by simp
  with False show ?thesis
    by (intro r_into_rtranclp core_step.rewritten [of _ "obj\<lparr>mo_updated_at := now\<rparr>" obj])
      (simp_all add: file_into_def Let_def patches_def)
qed

lemma manifest_row_core:
  assumes "manifest_row db p now entry categories paths = (result, db')"
  shows "core_run cfg db db'"
proof -
  obtain m usable where m: "importable_match db p (ie_id entry) = (m, usable)" by fastforce
  have "db' = db \<or> (\<exists>obj. m = Some obj \<and> db' = file_into db obj categories now)"
    using assms by (auto simp: manifest_row_def m link_existing_def split: option.splits if_splits)
  then show ?thesis using file_into_core m by auto
qed

lemma manifest_rows_core:
  "manifest_rows env cfg tree db p now entries = (res, db') \<Longrightarrow> core_run cfg db db'"
proof (induction entries arbitrary: db res)
  case (Cons entry entries)
  consider "db' = db"
    | categories paths result db1 res2 where "manifest_row db p now entry categories paths = (result, db1)"
        "manifest_rows env cfg tree db1 p now entries = (res2, db')"
    using Cons.prems by (fastforce simp: manifest_row_def Let_def split: sum.splits prod.splits)
  then show ?case
    by cases (simp, metis Cons.IH manifest_row_core rtranclp_trans)
qed simp

lemma import_manifest_core:
  assumes "import_manifest env cfg db p source now = (res, db')"
  shows "core_run cfg db db'"
proof -
  consider "db' = db"
    | manifest r db1 where "recreate_tree env cfg db p manifest = (r, db1)" "db' = db1"
    | manifest r db1 tree entries r2 where "recreate_tree env cfg db p manifest = (r, db1)"
        "manifest_rows env cfg tree db1 p now entries = (r2, db')"
    using assms by (auto simp: import_manifest_def split: sum.splits prod.splits)
  then show ?thesis
    by cases (auto dest: recreate_tree_core manifest_rows_core intro: rtranclp_trans)
qed

lemma validate_initiate_visibility:
  "validate_initiate U cfg req = Inr req' \<Longrightarrow> ur_visibility req' = ur_visibility req"
  by (auto simp: validate_initiate_def split: sum.splits if_splits)

lemma complete_import_core:
  assumes sizes: "sizes_nonneg api" and stage: "stage_upload uenv cfg db0 p req i = (Inr staged, ms)"
    and run: "complete_import env cfg api w p now entry req staged categories paths = (res, w')"
  shows "core_run cfg (w_db w) (w_db w')"
proof -
  obtain r db1 where rec: "record_upload_session (w_db w) staged req (now + seconds (S3_PRESIGNED_URL_EXPIRE_SECONDS cfg)) now = (r, db1)"
    by fastforce
  note one = record_session_core [OF stage refl rec]
  show ?thesis
  proof (cases r)
    case (Inl e)
    then show ?thesis using run rec by (simp add: complete_import_def)
  next
    case (Inr row)
    let ?req = "\<lparr>uc_sha256 = ie_sha256 entry, uc_category_ids = Some (map cat_id categories)\<rparr>"
    obtain res2 where "complete_upload (en_upload env) cfg api (w\<lparr>w_db := db1\<rparr>) p (st_media_id staged) ?req now = (res2, w')"
      using run by (auto simp: complete_import_def rec Inr split: sum.splits prod.splits option.splits)
    from complete_core [OF sizes this] one show ?thesis by simp
  qed
qed

lemma store_entry_db: "store_entry api w staged info mime = (ok, w') \<Longrightarrow> w_db w' = w_db w"
  by (auto simp: store_entry_def Let_def split: option.splits prod.splits)

lemma import_new_file_core:
  assumes sizes: "sizes_nonneg api"
    and run: "import_new_file env cfg api w p now info entry categories paths = (res, w')"
  shows "core_run cfg (w_db w) (w_db w')"
proof -
  consider "w' = w"
    | req e ms where "w' = ticks ms w"
    | req staged ms w1 ok where "stage_upload (en_upload env) cfg (w_db w) p req (ie_id entry) = (Inr staged, ms)"
        "store_entry api (ticks ms w) staged info (ie_mime_type entry) = (ok, w1)"
        "(ok = False \<and> w' = best_effort_remove api (st_bucket staged) (st_object_key staged) w1) \<or>
         (ok = True \<and> complete_import env cfg api w1 p now entry req staged categories paths = (res, w'))"
    using run by (auto simp: import_new_file_def Let_def split: if_splits sum.splits prod.splits option.splits bool.splits)
  then show ?thesis
  proof cases
    case (3 req staged ms w1 ok)
    have "w_db w1 = w_db w" using store_entry_db [OF 3(2)] by simp
    with 3(3) complete_import_core [OF sizes 3(1)] show ?thesis by (auto; metis)
  qed simp_all
qed

lemma import_one_file_core:
  assumes sizes: "sizes_nonneg api"
    and run: "import_one_file env cfg api w p now info entry categories paths = (res, w')"
  shows "core_run cfg (w_db w) (w_db w')"
proof -
  obtain m usable where m: "importable_match (w_db w) p (ie_id entry) = (m, usable)" by fastforce
  consider "w' = w" | obj where "m = Some obj" "w' = w\<lparr>w_db := file_into (w_db w) obj categories now\<rparr>"
    | i where "import_new_file env cfg api w p now i entry categories paths = (res, w')"
    using run by (auto simp: import_one_file_def m link_existing_def split: option.splits if_splits)
  then show ?thesis
    by cases (use file_into_core m import_new_file_core [OF sizes] in auto)
qed

lemma archive_rows_core:
  assumes sizes: "sizes_nonneg api"
  shows "archive_rows env cfg api tree files w p now entries = (res, w') \<Longrightarrow> core_run cfg (w_db w) (w_db w')"
proof (induction entries arbitrary: w res)
  case (Cons entry entries)
  consider "w' = w"
    | categories paths r w1 where "import_one_file env cfg api w p now (map_of files (ie_id entry)) entry categories paths = (r, w1)"
        "w' = w1 \<or> (\<exists>res2. archive_rows env cfg api tree files w1 p now entries = (res2, w'))"
    using Cons.prems by (auto split: sum.splits prod.splits)
  then show ?case
  proof cases
    case (2 categories paths r w1)
    note one = import_one_file_core [OF sizes 2(1)]
    from 2(2) show ?thesis using one Cons.IH rtranclp_trans by metis
  qed simp
qed simp

lemma import_core:
  assumes sizes: "sizes_nonneg api" and run: "run_import env cfg api w p fmt source now = (res, w')"
  shows "core_run cfg (w_db w) (w_db w')"
proof (cases fmt)
  case FMT_manifest
  then obtain r where "import_manifest env cfg (w_db w) p source now = (r, w_db w')"
    using run by (auto simp: run_import_def split: sum.splits prod.splits)
  then show ?thesis by (rule import_manifest_core)
next
  case FMT_archive
  consider "w' = w"
    | manifest r db1 where "recreate_tree env cfg (w_db w) p manifest = (r, db1)" "w_db w' = db1"
    | manifest r db1 tree files res2 where "recreate_tree env cfg (w_db w) p manifest = (r, db1)"
        "archive_rows env cfg api tree files (w\<lparr>w_db := db1\<rparr>) p now (im_objects manifest) = (res2, w')"
    using run FMT_archive
    by (auto simp: run_import_def import_archive_def import_open_archive_def Let_def split: sum.splits prod.splits option.splits)
  then show ?thesis
  proof cases
    case (3 manifest r db1 tree files res2)
    from recreate_tree_core [OF 3(1)] archive_rows_core [OF sizes 3(2)] show ?thesis by simp
  qed (auto dest: recreate_tree_core)
qed

section \<open>Handlers that leave the core tables alone\<close>

lemma shares_tables:
  "core_tables (w_db (snd (create_share senv cfg w p i body fresh now))) = core_tables (w_db w)"
  "core_tables (snd (revoke_share db p t)) = core_tables db"
  by (auto simp: create_share_def revoke_share_def core_tables_def Let_def split: sum.split option.split)

lemma resolve_share_tables:
  "core_tables (w_db (snd (resolve_share senv cfg api w token t1 t2 t3))) = core_tables (w_db w)"
proof -
  obtain r w1 where l: "load_active_share senv w token t1 = (r, w1)" by fastforce
  then have w1: "w_db w1 = w_db w"
    by (auto simp: load_active_share_def split: sum.splits err.splits option.splits if_splits)
  have consume: "core_tables db' = core_tables db" if "consume_use db t n = (ok, db')" for db t n ok db'
    using that by (auto simp: consume_use_def core_tables_def split: option.splits if_splits)
  have "w_db (snd (resolve_share senv cfg api w token t1 t2 t3)) = w_db w \<or>
      (\<exists>i ok. consume_use (w_db w) i t2 = (ok, w_db (snd (resolve_share senv cfg api w token t1 t2 t3))))"
    by (auto simp: resolve_share_def l w1 Let_def split: sum.split option.split prod.split bool.split)
  then show ?thesis using consume by auto
qed

lemma variants_tables:
  "core_tables (snd (generate U db p i presets fresh now)) = core_tables db"
  "core_tables (snd (register_variant db i rq fresh ev now)) = core_tables db"
  "core_tables (snd (update_job_status db j up now)) = core_tables db"
  "core_tables (w_db (snd (delete_variant api w p i v))) = core_tables (w_db w)"
  by (auto simp: generate_def register_variant_def update_job_status_def delete_variant_def record_event_def
      core_tables_def Let_def split: sum.split option.split)

lemma categories_tables:
  "core_tables (snd (create_category cfg db p rq)) = core_tables db"
  "core_tables (snd (update_category cfg db p c rq)) = core_tables db"
  "core_tables (snd (delete_category db p c)) = core_tables db"
  by (auto simp: create_category_def update_category_def delete_category_def insert_category_def
      core_tables_def Let_def split: sum.split option.split)

lemma presets_tables:
  "core_tables (snd (create_preset db p name spec fresh now)) = core_tables db"
  "core_tables (snd (update_preset db p i spec now)) = core_tables db"
  "core_tables (snd (delete_preset db p i)) = core_tables db"
  by (auto simp: create_preset_def update_preset_def delete_preset_def core_tables_def Let_def split: sum.split)

lemma put_job_tables [simp]: "core_tables (put_job db job) = core_tables db"
  by (simp add: put_job_def core_tables_def)

lemma fail_unqueued_tables [simp]: "core_tables (fail_unqueued_export db i now) = core_tables db"
  by (auto simp: fail_unqueued_export_def split: option.split)

lemma start_export_tables: "core_tables (snd (start_archive_export U td mc cfg db p filters fresh now)) = core_tables db"
  by (auto simp: start_archive_export_def core_tables_def Let_def split: sum.split option.split prod.split)

lemma exports_tables:
  "core_tables (snd (export_media U td mc cfg enqueue db p body fresh now)) = core_tables db"
  "core_tables (snd (update_export_job cfg db i up now)) = core_tables db"
  using start_export_tables [of U td mc cfg db p "xr_filters body" fresh now]
  by (auto simp: export_media_def update_export_job_def Let_def split: transfer_format.split sum.split option.split prod.split)

lemma subscriptions_tables:
  "core_tables (snd (create_subscription U nfkc policy show db rq fresh now)) = core_tables db"
  "core_tables (snd (delete_subscription db i)) = core_tables db"
proof -
  show "core_tables (snd (delete_subscription db i)) = core_tables db"
    by (auto simp: delete_subscription_def core_tables_def split: option.split)
  show "core_tables (snd (create_subscription U nfkc policy show db rq fresh now)) = core_tables db"
  proof (cases "check_webhook_url U nfkc policy None (sq_url rq)")
    case (Inl x)
    then show ?thesis by (cases x) (simp_all add: create_subscription_def)
  next
    case (Inr y)
    then show ?thesis by (auto simp: create_subscription_def core_tables_def Let_def split: option.split)
  qed
qed

lemma deliver_all_tables:
  "deliver_all env now m base subs es c db r = (Inr (db', r'), c') \<Longrightarrow> core_tables db' = core_tables db"
  by (induction env now m base subs es c db r rule: deliver_all.induct)
    (auto simp: core_tables_def split: prod.splits sum.splits)

lemma delivery_tables: "core_tables (fst (snd (deliver_pending env c db now limit m base))) = core_tables db"
  by (auto simp: deliver_pending_def dest: deliver_all_tables split: prod.split sum.split)

lemma quota_balances:
  "core_run cfg' db (snd (set_quota cfg db owner update tenant now))"
  "core_run cfg' db (snd (get_quota cfg db owner tenant now))"
proof -
  show "core_run cfg' db (snd (set_quota cfg db owner update tenant now))"
    by (rule core_elsewhere) (simp_all add: set_quota_balance, simp_all add: set_quota_def Let_def split: prod.split)
  show "core_run cfg' db (snd (get_quota cfg db owner tenant now))"
    by (rule core_elsewhere) (auto simp: get_quota_def get_or_create_balance split: prod.split)
qed

section \<open>The service\<close>

text \<open>
  What the deployment supplies: the parameters of the components. \<open>sv_client\<close> is the
  HTTP client a delivery run opens.
\<close>

record ('s, 'c) service_env =
  sv_import :: import_env
  sv_share :: share_env
  sv_text :: text_db
  sv_codec :: manifest_codec
  sv_nfkc :: "ustr \<Rightarrow> ustr"
  sv_policy :: webhook_policy
  sv_show_error :: "target_error \<Rightarrow> ustr"
  sv_delivery :: "'c delivery_env"
  sv_client :: 'c
  sv_storage :: "'s storage_api"
  sv_settings :: settings
  sv_takes_naive :: bool   \<comment> \<open>the database layer takes a naive timestamp\<close>

text \<open>Every request that writes, and every cron run, with its caller, body, fresh ids and clock.\<close>

datatype service_request =
    R_upload upload_op
  | R_patch principal uuid media_object_update datetime bool
  | R_delete principal uuid uuid datetime
  | R_scan uuid scan_status uuid datetime
  | R_import principal transfer_format "blob list" datetime
  | R_hard_purge datetime int nat
  | R_stale_purge datetime
  | R_reconcile datetime "string list" int nat bool
  | R_get_quota uuid "uuid option" datetime
  | R_set_quota uuid quota_update "uuid option" datetime
  | R_share principal uuid share_token_create uuid datetime
  | R_revoke_share principal uuid
  | R_resolve_share ustr datetime datetime datetime
  | R_generate principal uuid "ustr list" uuid datetime
  | R_register_variant uuid variant_register_request uuid uuid datetime
  | R_job_status uuid variant_job_update datetime
  | R_delete_variant principal uuid uuid
  | R_create_category principal category_request
  | R_update_category principal int category_request
  | R_delete_category principal int
  | R_create_preset principal ustr preset_spec uuid datetime
  | R_update_preset principal uuid preset_spec datetime
  | R_delete_preset principal uuid
  | R_export "export_payload \<Rightarrow> bool" principal export_request uuid datetime
  | R_export_callback uuid export_job_update datetime
  | R_subscribe subscription_create uuid datetime
  | R_unsubscribe uuid
  | R_deliver datetime nat int int

abbreviation on_db :: "(database \<Rightarrow> 'a \<times> database) \<Rightarrow> 's world \<Rightarrow> 's world" where
  "on_db f w \<equiv> w\<lparr>w_db := snd (f (w_db w))\<rparr>"

abbreviation sv_unicode :: "('s, 'c) service_env \<Rightarrow> unicode_db" where
  "sv_unicode sv \<equiv> ue_unicode (en_upload (sv_import sv))"

fun serve :: "('s, 'c) service_env \<Rightarrow> service_request \<Rightarrow> 's world \<Rightarrow> 's world" where
  "serve sv (R_upload op) w = exec_upload (en_upload (sv_import sv)) (sv_settings sv) (sv_storage sv) op w"
| "serve sv (R_patch p i upd now ok) w = snd (update_object (sv_settings sv) (sv_storage sv) w p i upd now ok)"
| "serve sv (R_delete p i fresh now) w = snd (delete_object (sv_settings sv) (sv_storage sv) w p i fresh now)"
| "serve sv (R_scan i verdict fresh now) w = snd (apply_scan_result w i verdict fresh now)"
| "serve sv (R_import p fmt source now) w =
     snd (run_import (sv_import sv) (sv_settings sv) (sv_storage sv) w p fmt source now)"
| "serve sv (R_hard_purge now age limit) w = snd (hard_purge_expired (sv_storage sv) w now age limit)"
| "serve sv (R_stale_purge now) w = snd (purge_stale_uploads (sv_takes_naive sv) (sv_storage sv) w now)"
| "serve sv (R_reconcile now buckets grace limit repair) w =
     snd (reconcile_orphans (sv_storage sv) w now buckets grace limit repair)"
| "serve sv (R_get_quota owner tenant now) w = on_db (\<lambda>db. get_quota (sv_settings sv) db owner tenant now) w"
| "serve sv (R_set_quota owner upd tenant now) w = on_db (\<lambda>db. set_quota (sv_settings sv) db owner upd tenant now) w"
| "serve sv (R_share p i body fresh now) w = snd (create_share (sv_share sv) (sv_settings sv) w p i body fresh now)"
| "serve sv (R_revoke_share p t) w = on_db (\<lambda>db. revoke_share db p t) w"
| "serve sv (R_resolve_share token t1 t2 t3) w =
     snd (resolve_share (sv_share sv) (sv_settings sv) (sv_storage sv) w token t1 t2 t3)"
| "serve sv (R_generate p i presets fresh now) w = on_db (\<lambda>db. generate (sv_unicode sv) db p i presets fresh now) w"
| "serve sv (R_register_variant i rq fresh ev now) w = on_db (\<lambda>db. register_variant db i rq fresh ev now) w"
| "serve sv (R_job_status j upd now) w = on_db (\<lambda>db. update_job_status db j upd now) w"
| "serve sv (R_delete_variant p i v) w = snd (delete_variant (sv_storage sv) w p i v)"
| "serve sv (R_create_category p rq) w = on_db (\<lambda>db. create_category (sv_settings sv) db p rq) w"
| "serve sv (R_update_category p c rq) w = on_db (\<lambda>db. update_category (sv_settings sv) db p c rq) w"
| "serve sv (R_delete_category p c) w = on_db (\<lambda>db. delete_category db p c) w"
| "serve sv (R_create_preset p name spec fresh now) w = on_db (\<lambda>db. create_preset db p name spec fresh now) w"
| "serve sv (R_update_preset p i spec now) w = on_db (\<lambda>db. update_preset db p i spec now) w"
| "serve sv (R_delete_preset p i) w = on_db (\<lambda>db. delete_preset db p i) w"
| "serve sv (R_export enqueue p body fresh now) w =
     on_db (\<lambda>db. export_media (sv_unicode sv) (sv_text sv) (sv_codec sv) (sv_settings sv) enqueue db p body fresh now) w"
| "serve sv (R_export_callback i upd now) w = on_db (\<lambda>db. update_export_job (sv_settings sv) db i upd now) w"
| "serve sv (R_subscribe rq fresh now) w =
     on_db (\<lambda>db. create_subscription (sv_unicode sv) (sv_nfkc sv) (sv_policy sv) (sv_show_error sv) db rq fresh now) w"
| "serve sv (R_unsubscribe i) w = on_db (\<lambda>db. delete_subscription db i) w"
| "serve sv (R_deliver now limit attempts base) w =
     w\<lparr>w_db := fst (snd (deliver_pending (sv_delivery sv) (sv_client sv) (w_db w) now limit attempts base))\<rparr>"

lemma exec_upload_core:
  assumes "sizes_nonneg api"
  shows "core_run cfg (w_db w) (w_db (exec_upload env cfg api op w))"
  by (cases op) (simp_all add: initiate_core [OF surjective_pairing] complete_core [OF assms surjective_pairing]
      abort_core [OF surjective_pairing])

text \<open>Every request is a run of the machine.\<close>

lemma serve_core:
  assumes sizes: "sizes_nonneg (sv_storage sv)" and wf: "core_wf (sv_settings sv) (w_db w)"
  shows "core_run (sv_settings sv) (w_db w) (w_db (serve sv rq w))"
proof (cases rq)
  case (R_reconcile now buckets grace limit repair)
  then show ?thesis by (simp add: reconcile_db [OF surjective_pairing])
qed (simp_all add: exec_upload_core [OF sizes] update_core [OF surjective_pairing] delete_core [OF surjective_pairing]
    scan_core [OF surjective_pairing] import_core [OF sizes surjective_pairing] hard_purge_core [OF wf surjective_pairing]
    stale_purge_core [OF wf surjective_pairing] quota_balances core_tables_run shares_tables resolve_share_tables
    variants_tables categories_tables presets_tables exports_tables subscriptions_tables delivery_tables)

section \<open>What holds in every reachable state\<close>

text \<open>
  The world a new deployment starts in satisfies both invariants.
\<close>

lemma empty_core: "core_wf cfg empty_db" "not_overcharged empty_db"
  by (simp_all add: core_wf_def not_overcharged_def empty_db_def balance_def weight_def)

lemma reachable_wf:
  assumes "sizes_nonneg (sv_storage sv)" and "core_wf (sv_settings sv) (w_db w)"
  shows "core_wf (sv_settings sv) (w_db (fold (serve sv) rqs w))"
  using wf.fold_keeps [where f = w_db and exec = "serve sv" and good = "\<lambda>w. core_wf (sv_settings sv) (w_db w)"]
    serve_core [OF assms(1)] wf.run_keeps assms(2) by metis

lemma reachable_books:
  assumes "sizes_nonneg (sv_storage sv)" and "core_wf (sv_settings sv) (w_db w)" and "not_overcharged (w_db w)"
  shows "not_overcharged (w_db (fold (serve sv) rqs w))"
  using books.fold_keeps [where f = w_db and exec = "serve sv" and good = "\<lambda>w. core_wf (sv_settings sv) (w_db w)"]
    serve_core [OF assms(1)] wf.run_keeps assms(2,3) by metis

text \<open>
  C4. In every state the service reaches from an empty database, whatever requests arrive in
  whatever order from whomever: object ids are unique and no two objects share a key, a live
  object's bytes belong in the bucket of its visibility, a row with status DELETED carries
  its deletion time, and an open upload session's id and location are still free, so that
  its completion cannot fail on a taken row.
\<close>

theorem reachable_objects_sound:
  assumes "sizes_nonneg (sv_storage sv)" and "w_db w = empty_db"
    and "w' = fold (serve sv) rqs w"
  shows "objects_wf (sv_settings sv) (w_db w') \<and>
    (\<forall>obj \<in> set (db_objects (w_db w')). mo_status obj = OBJ_DELETED \<longrightarrow> mo_deleted_at obj \<noteq> None) \<and>
    (\<forall>i s. tbl_get us_id (db_sessions (w_db w')) i = Some s \<longrightarrow> us_status s = SES_INITIATED \<longrightarrow>
       row_free (db_objects (w_db w')) s)"
proof -
  have "core_wf (sv_settings sv) (w_db w')"
    unfolding assms(3) by (rule reachable_wf [OF assms(1)]) (simp add: assms(2) empty_core)
  then show ?thesis using core_wf_objects core_wf_open_free core_wfD(4) by (auto simp: row_ok_def)
qed

text \<open>
  C5. Nobody is ever overcharged: in every state the service reaches from an empty database,
  the recorded usage of each owner and tenant is at most the bytes, and the number, of the
  objects that scope really holds, which are live and were not rejected.
\<close>

theorem usage_never_overcharged:
  assumes "sizes_nonneg (sv_storage sv)" and "w_db w = empty_db"
    and "w' = fold (serve sv) rqs w"
  shows "fst (balance (db_usage (w_db w')) k) \<le> weight mo_size_bytes k (db_objects (w_db w')) \<and>
    snd (balance (db_usage (w_db w')) k) \<le> weight (\<lambda>_. 1) k (db_objects (w_db w'))"
proof -
  have "not_overcharged (w_db w')"
    unfolding assms(3) by (rule reachable_books [OF assms(1)]) (simp_all add: assms(2) empty_core)
  then show ?thesis using not_overchargedD by blast
qed

section \<open>A concrete service\<close>

text \<open>An upload and its completion on a store that already holds the bytes.\<close>

definition demo_service :: "(location \<Rightarrow> blob option, unit) service_env" where
  "demo_service = \<lparr>sv_import = demo_import_env None, sv_share = demo_share_env,
     sv_text = \<lparr>td_collate = id, td_like = (\<lambda>_ _. True), td_contains = (\<lambda>_ _. True)\<rparr>,
     sv_codec = \<lparr>mc_node = (\<lambda>_. []), mc_entry = (\<lambda>_. [])\<rparr>, sv_nfkc = id,
     sv_policy = \<lparr>wp_production = False, wp_allowed_internal_hosts = []\<rparr>, sv_show_error = (\<lambda>_. []),
     sv_delivery = Outbox.demo_env 200, sv_client = (), sv_storage = mem_api True,
     sv_settings = default_settings None None, sv_takes_naive = True\<rparr>"

definition demo_requests :: "service_request list" where
  "demo_requests =
     [R_upload (Initiate (demo_caller 7) \<lparr>ur_category = CAT_ASSET, ur_visibility = VIS_PRIVATE,
        ur_original_filename = [97], ur_mime_type = ''image/png'', ur_expected_size_bytes = 3, ur_category_ids = []\<rparr> 5 0),
      R_upload (Complete (demo_caller 7) 5 \<lparr>uc_sha256 = None, uc_category_ids = None\<rparr> 1)]"

definition blank_world :: "(location \<Rightarrow> blob option) world" where
  "blank_world = \<lparr>w_db = empty_db, w_sto = (\<lambda>_. Some [1, 2, 3]), w_metrics = []\<rparr>"

lemma demo_sizes: "sizes_nonneg (sv_storage demo_service)"
  by (auto simp: sizes_nonneg_def demo_service_def mem_api_def)

lemma demo_charged: "balance (db_usage (w_db (fold (serve demo_service) demo_requests blank_world))) (7, None) = (3, 1)"
  by (simp add: demo_requests_def blank_world_def demo_service_def initiate_upload_def stage_upload_def demo_import_env_def
      check_quota_def demo_caller_def is_allowed_declared_mime_def ALLOWED_DECLARED_MIME_def
      resolve_category_ids_def unique_ids_def create_upload_url_def mem_api_def record_upload_session_def
      insert_upload_session_def tbl_insert_def empty_db_def Let_def find_usage_def effective_quota_bytes_def
      effective_quota_objects_def default_settings_def max_size_for_category_def complete_upload_def
      load_owned_session_def ensure_completable_def categories_in_scope_def content_verdict_def
      Uploads.demo_env_def mime_consistent_def seconds_def promote_upload_def insert_media_object_session
      row_free_def put_session_def reserve_storage_for_object_def lock_or_create_usage_def new_usage_def over_def
      su_scope_def credited_def balance_def)

theorem reachable_objects_sound_witness:
  "objects_wf (default_settings None None) (w_db (fold (serve demo_service) demo_requests blank_world))"
  using reachable_objects_sound [OF demo_sizes, of blank_world _ demo_requests, OF _ refl]
  by (simp add: blank_world_def demo_service_def)

theorem usage_never_overcharged_witness:
  "3 \<le> weight mo_size_bytes (7, None) (db_objects (w_db (fold (serve demo_service) demo_requests blank_world)))"
  using usage_never_overcharged [OF demo_sizes, of blank_world _ demo_requests "(7, None)", OF _ refl]
  by (simp add: demo_charged) (simp add: blank_world_def)

end
