(* ===== verification/Isolation.thy ===== *)
theory Isolation
  imports Service
begin

text \<open>
  Isolation between callers. \<open>outside p\<close> is everything in the database that the principal
  \<open>p\<close> has no authority over: the rows of other owners, the categories of other scopes, and
  what hangs on them (variants, filings, events). Each operation a caller can invoke leaves
  it alone, one lemma per operation; together they give the property of the service.
\<close>

section \<open>The part of a table that is somebody else's\<close>

definition others :: "('r \<Rightarrow> bool) \<Rightarrow> ('k \<Rightarrow> 'r option) \<Rightarrow> 'k \<Rightarrow> 'r option" where
  "others P get k = (case get k of Some r \<Rightarrow> if P r then Some r else None | None \<Rightarrow> None)"

lemma others_Some: "others P get k = Some r \<longleftrightarrow> get k = Some r \<and> P r"
  by (auto simp: others_def split: option.splits)

context keyed_table begin

lemma others_put:
  "get t i = Some x \<Longrightarrow> key r = key x \<Longrightarrow> \<not> P x \<Longrightarrow> \<not> P r \<Longrightarrow> others P (get (put t r)) = others P (get t)"
  using get_key [of t i x] by (auto simp: others_def get_put fun_eq_iff)

lemma others_del: "get t i = Some x \<Longrightarrow> \<not> P x \<Longrightarrow> others P (get (del t i)) = others P (get t)"
  by (auto simp: others_def get_del fun_eq_iff)

lemma others_del_row: "get t i = Some x \<Longrightarrow> \<not> P x \<Longrightarrow> others P (get (del t (key x))) = others P (get t)"
  using get_key others_del by metis

end

lemma others_append: "\<not> P r \<Longrightarrow> others P (tbl_get key (t @ [r])) = others P (tbl_get key t)"
  by (auto simp: others_def tbl_get_append fun_eq_iff split: option.splits)

lemma tbl_insert_appends: "tbl_insert key t r = Some t' \<Longrightarrow> t' = t @ [r]"
  by (auto simp: tbl_insert_def split: if_splits)

lemmas others_rules = tbl.others_put tbl.others_del tbl.others_del_row others_append

section \<open>What a caller has no authority over\<close>

definition foreign_object :: "principal \<Rightarrow> database \<Rightarrow> uuid \<Rightarrow> bool" where
  "foreign_object p db i \<longleftrightarrow>
     others (\<lambda>obj. mo_owner_user_id obj \<noteq> p_id p) (tbl_get mo_id (db_objects db)) i \<noteq> None"

definition foreign_category :: "principal \<Rightarrow> database \<Rightarrow> int \<Rightarrow> bool" where
  "foreign_category p db c \<longleftrightarrow> others (\<lambda>row. \<not> in_scope p row) (tbl_get cat_id (db_categories db)) c \<noteq> None"

record outside_view =
  ov_objects :: "uuid \<Rightarrow> media_object option"
  ov_sessions :: "uuid \<Rightarrow> upload_session option"
  ov_usage :: "scope \<Rightarrow> storage_usage option"
  ov_shares :: "uuid \<Rightarrow> share_token option"
  ov_variants :: "uuid \<Rightarrow> media_variant option"
  ov_variant_jobs :: "uuid \<Rightarrow> variant_job option"
  ov_events :: "uuid \<Rightarrow> outbox_event option"
  ov_subscriptions :: "subscription list"
  ov_export_jobs :: "uuid \<Rightarrow> export_job option"
  ov_categories :: "int \<Rightarrow> category option"
  ov_links :: "(uuid \<times> int) set"
  ov_presets :: "uuid \<Rightarrow> image_preset option"

definition outside :: "principal \<Rightarrow> database \<Rightarrow> outside_view" where
  "outside p db = \<lparr>
     ov_objects = others (\<lambda>obj. mo_owner_user_id obj \<noteq> p_id p) (tbl_get mo_id (db_objects db)),
     ov_sessions = others (\<lambda>s. us_owner_user_id s \<noteq> p_id p) (tbl_get us_id (db_sessions db)),
     ov_usage = others (\<lambda>r. su_owner_user_id r \<noteq> p_id p) (tbl_get su_scope (db_usage db)),
     ov_shares = others (\<lambda>t. sh_owner_user_id t \<noteq> p_id p) (tbl_get sh_id (db_shares db)),
     ov_variants = others (\<lambda>v. foreign_object p db (mv_media_object_id v)) (tbl_get mv_id (db_variants db)),
     ov_variant_jobs = others (\<lambda>j. vj_owner_user_id j \<noteq> p_id p) (tbl_get vj_id (db_variant_jobs db)),
     ov_events = others (\<lambda>e. foreign_object p db (oe_object_id e)) (tbl_get oe_id (db_outbox db)),
     ov_subscriptions = db_subscriptions db,
     ov_export_jobs = others (\<lambda>j. ej_owner_user_id j \<noteq> p_id p) (tbl_get ej_id (db_export_jobs db)),
     ov_categories = others (\<lambda>row. \<not> in_scope p row) (tbl_get cat_id (db_categories db)),
     ov_links = {(i, c) \<in> set (db_links db). foreign_object p db i \<and> foreign_category p db c},
     ov_presets = others (\<lambda>r. ip_owner_user_id r \<noteq> p_id p) (tbl_get ip_id (db_presets db))\<rparr>"

text \<open>Only the object table and the category table decide whose a hanging row is.\<close>

lemma foreign_object_cong:
  "others (\<lambda>obj. mo_owner_user_id obj \<noteq> p_id p) (tbl_get mo_id (db_objects db')) =
     others (\<lambda>obj. mo_owner_user_id obj \<noteq> p_id p) (tbl_get mo_id (db_objects db)) \<Longrightarrow>
   foreign_object p db' = foreign_object p db"
  by (simp add: foreign_object_def fun_eq_iff)

lemma foreign_category_cong:
  "others (\<lambda>row. \<not> in_scope p row) (tbl_get cat_id (db_categories db')) = others (\<lambda>row. \<not> in_scope p row) (tbl_get cat_id (db_categories db)) \<Longrightarrow>
   foreign_category p db' = foreign_category p db"
  by (simp add: foreign_category_def fun_eq_iff)

lemma own_not_foreign:
  "tbl_get mo_id (db_objects db) i = Some obj \<Longrightarrow> mo_owner_user_id obj = p_id p \<Longrightarrow> \<not> foreign_object p db i"
  by (simp add: foreign_object_def others_def)

text \<open>The frame rule: a change is outside-preserving when it is one in each table.\<close>

lemma outsideI:
  assumes objects: "others (\<lambda>obj. mo_owner_user_id obj \<noteq> p_id p) (tbl_get mo_id (db_objects db')) =
      others (\<lambda>obj. mo_owner_user_id obj \<noteq> p_id p) (tbl_get mo_id (db_objects db))"
    and categories: "others (\<lambda>row. \<not> in_scope p row) (tbl_get cat_id (db_categories db')) =
      others (\<lambda>row. \<not> in_scope p row) (tbl_get cat_id (db_categories db))"
    and "others (\<lambda>s. us_owner_user_id s \<noteq> p_id p) (tbl_get us_id (db_sessions db')) =
      others (\<lambda>s. us_owner_user_id s \<noteq> p_id p) (tbl_get us_id (db_sessions db))"
    and "others (\<lambda>r. su_owner_user_id r \<noteq> p_id p) (tbl_get su_scope (db_usage db')) =
      others (\<lambda>r. su_owner_user_id r \<noteq> p_id p) (tbl_get su_scope (db_usage db))"
    and "others (\<lambda>t. sh_owner_user_id t \<noteq> p_id p) (tbl_get sh_id (db_shares db')) =
      others (\<lambda>t. sh_owner_user_id t \<noteq> p_id p) (tbl_get sh_id (db_shares db))"
    and "others (\<lambda>v. foreign_object p db (mv_media_object_id v)) (tbl_get mv_id (db_variants db')) =
      others (\<lambda>v. foreign_object p db (mv_media_object_id v)) (tbl_get mv_id (db_variants db))"
    and "others (\<lambda>j. vj_owner_user_id j \<noteq> p_id p) (tbl_get vj_id (db_variant_jobs db')) =
      others (\<lambda>j. vj_owner_user_id j \<noteq> p_id p) (tbl_get vj_id (db_variant_jobs db))"
    and "others (\<lambda>e. foreign_object p db (oe_object_id e)) (tbl_get oe_id (db_outbox db')) =
      others (\<lambda>e. foreign_object p db (oe_object_id e)) (tbl_get oe_id (db_outbox db))"
    and "db_subscriptions db' = db_subscriptions db"
    and "others (\<lambda>j. ej_owner_user_id j \<noteq> p_id p) (tbl_get ej_id (db_export_jobs db')) =
      others (\<lambda>j. ej_owner_user_id j \<noteq> p_id p) (tbl_get ej_id (db_export_jobs db))"
    and "\<And>i c. foreign_object p db i \<Longrightarrow> foreign_category p db c \<Longrightarrow>
      (i, c) \<in> set (db_links db') \<longleftrightarrow> (i, c) \<in> set (db_links db)"
    and "others (\<lambda>r. ip_owner_user_id r \<noteq> p_id p) (tbl_get ip_id (db_presets db')) =
      others (\<lambda>r. ip_owner_user_id r \<noteq> p_id p) (tbl_get ip_id (db_presets db))"
  shows "outside p db' = outside p db"
  using assms foreign_object_cong [OF objects] foreign_category_cong [OF categories]
  by (auto simp: outside_def)

section \<open>Operations on one table\<close>

lemma shares_outside:
  assumes "\<not> p_superuser p"
  shows "outside p (w_db (snd (create_share senv cfg w p i body fresh now))) = outside p (w_db w)"
    and "outside p (snd (revoke_share db p t)) = outside p db"
  using assms
  by (auto simp: create_share_def revoke_share_def load_owned_share_def Let_def load_object_Inr
      split: sum.split option.split intro!: outsideI others_rules dest!: tbl_insert_appends)

lemma presets_outside:
  assumes "\<not> p_superuser p"
  shows "outside p (snd (create_preset db p name spec fresh now)) = outside p db"
    and "outside p (snd (update_preset db p i spec now)) = outside p db"
    and "outside p (snd (delete_preset db p i)) = outside p db"
  using assms
  by (auto simp: create_preset_def update_preset_def delete_preset_def load_owned_preset_def Let_def
      split: option.split intro!: outsideI others_rules dest!: tbl_insert_appends)

lemma generate_outside:
  assumes "\<not> p_superuser p"
  shows "outside p (snd (generate U db p i presets fresh now)) = outside p db"
  using assms by (auto simp: generate_def Let_def load_object_Inr split: sum.split option.split
      intro!: outsideI others_rules dest!: tbl_insert_appends)

lemma delete_variant_outside:
  assumes "\<not> p_superuser p"
  shows "outside p (w_db (snd (delete_variant api w p i v))) = outside p (w_db w)"
  using assms by (auto simp: delete_variant_def load_object_Inr dest: own_not_foreign split: sum.split option.split
      intro!: outsideI others_rules dest!: tbl_insert_appends)

lemma export_outside:
  "outside p (snd (export_media U td mc cfg enqueue db p body fresh now)) = outside p db"
proof -
  have start: "outside p db' = outside p db"
    if "start_archive_export U td mc cfg db p filters fresh now = (Inr (pub, payload), db')" for filters pub payload db'
    using that
    by (auto simp: start_archive_export_def Let_def split: if_splits sum.splits prod.splits option.splits
        intro!: outsideI others_rules dest!: tbl_insert_appends)
  have mine: "\<exists>job. tbl_get ej_id (db_export_jobs db') (xp_id pub) = Some job \<and> ej_owner_user_id job = p_id p"
    if "start_archive_export U td mc cfg db p filters fresh now = (Inr (pub, payload), db')" for filters pub payload db'
    using that
    by (auto simp: start_archive_export_def Let_def job_public_def tbl_get_insert split: if_splits sum.splits prod.splits option.splits)
  have failed: "db' = db" if "start_archive_export U td mc cfg db p filters fresh now = (Inl e, db')" for filters e db'
    using that by (auto simp: start_archive_export_def Let_def split: if_splits sum.splits prod.splits option.splits)
  have unqueued: "outside p (fail_unqueued_export db' i now) = outside p db'"
    if "tbl_get ej_id (db_export_jobs db') i = Some job" "ej_owner_user_id job = p_id p" for db' i job
    using that by (cases "ej_status job = JOB_QUEUED")
      (auto simp: fail_unqueued_export_def put_job_def intro!: outsideI others_rules)
  have undone: "outside p (fail_unqueued_export db' (xp_id pub) now) = outside p db"
    if "start_archive_export U td mc cfg db p filters fresh now = (Inr (pub, payload), db')" for filters pub payload db'
    using mine [OF that] unqueued start [OF that] by metis
  show ?thesis
    by (auto simp: export_media_def dest: start undone failed split: transfer_format.split sum.split prod.split)
qed

section \<open>Operations on the category tree\<close>

lemma insert_category_outside:
  assumes "insert_category db name slug parent (p_id p) (user_tenant_id p) = (row, db')"
  shows "outside p db' = outside p db"
proof -
  have "in_scope p row" using assms by (auto simp: insert_category_def Let_def in_scope_def split: option.split)
  moreover have "db' = db\<lparr>db_categories := db_categories db @ [row], db_next_category := db_next_category db + 1\<rparr>"
    using assms by (auto simp: insert_category_def Let_def)
  ultimately show ?thesis by (auto intro!: outsideI others_rules dest!: tbl_insert_appends)
qed

lemma create_category_outside: "outside p (snd (create_category cfg db p req)) = outside p db"
proof -
  obtain res db' where run: "create_category cfg db p req = (res, db')" by fastforce
  then consider "db' = db" | name slug parent row where "insert_category db name slug parent (p_id p) (user_tenant_id p) = (row, db')"
    by (auto simp: create_category_def Let_def split: option.splits sum.splits prod.splits)
  then show ?thesis using run insert_category_outside by cases auto
qed

lemma update_category_outside: "outside p (snd (update_category cfg db p c req)) = outside p db"
  by (auto simp: update_category_def load_category_def cat_get_def in_scope_def Let_def
      split: option.split sum.split if_splits intro!: outsideI others_rules)

lemma delete_category_outside: "outside p (snd (delete_category db p c)) = outside p db"
  by (auto simp: delete_category_def load_category_def cat_get_def foreign_category_def others_Some
      split: option.split if_splits intro!: outsideI others_rules)

lemma ensure_all_outside:
  assumes "ensure_all db p cs tree = (res, db')"
  shows "outside p db' = outside p db"
  by (rule ensure_all_keeps [of p "\<lambda>d. outside p d = outside p db", OF _ assms]) (auto dest: insert_category_outside)

section \<open>Uploads\<close>

lemma usage_others:
  "others (\<lambda>r. su_owner_user_id r \<noteq> p_id p) (tbl_get su_scope (snd (get_or_create_usage us (p_id p) tenant now))) =
     others (\<lambda>r. su_owner_user_id r \<noteq> p_id p) (tbl_get su_scope us)"
  "others (\<lambda>r. su_owner_user_id r \<noteq> p_id p) (tbl_get su_scope (snd (lock_or_create_usage us (p_id p) tenant now))) =
     others (\<lambda>r. su_owner_user_id r \<noteq> p_id p) (tbl_get su_scope us)"
  by (auto simp: get_or_create_usage_def lock_or_create_usage_def new_usage_def Let_def split: option.split intro!: others_rules)

lemma reserve_others:
  assumes "reserve_storage_for_object cfg us (p_id p) tenant n now = (res, us', ms)"
  shows "others (\<lambda>r. su_owner_user_id r \<noteq> p_id p) (tbl_get su_scope us') =
    others (\<lambda>r. su_owner_user_id r \<noteq> p_id p) (tbl_get su_scope us)"
proof -
  obtain r us1 where c: "lock_or_create_usage us (p_id p) tenant now = (r, us1)" by fastforce
  then have r: "tbl_get su_scope us1 (p_id p, tenant) = Some r"
    by (auto simp: lock_or_create_usage_def new_usage_def su_scope_def Let_def tbl_get_append split: option.splits)
  then have "su_owner_user_id r = p_id p" by (auto simp: su_scope_def dest: tbl_get_key)
  have "others (\<lambda>r. su_owner_user_id r \<noteq> p_id p) (tbl_get su_scope us') =
      others (\<lambda>r. su_owner_user_id r \<noteq> p_id p) (tbl_get su_scope us1)"
    using assms r \<open>su_owner_user_id r = p_id p\<close> by (auto simp: reserve_storage_for_object_def c credited_def su_scope_def Let_def split: if_splits intro!: others_rules)
  then show ?thesis using usage_others(2) [of p us tenant now] c by simp
qed

lemma removed_others:
  "others (\<lambda>r. su_owner_user_id r \<noteq> p_id p) (tbl_get su_scope (record_object_removed us (p_id p) tenant n now)) =
    others (\<lambda>r. su_owner_user_id r \<noteq> p_id p) (tbl_get su_scope us)"
proof -
  obtain r us1 where c: "get_or_create_usage us (p_id p) tenant now = (r, us1)" by fastforce
  then have r: "tbl_get su_scope us1 (p_id p, tenant) = Some r"
    by (auto simp: get_or_create_usage_def find_usage_def new_usage_def su_scope_def Let_def tbl_get_append split: option.splits)
  then have "su_owner_user_id r = p_id p" by (auto simp: su_scope_def dest: tbl_get_key)
  with r have "others (\<lambda>r. su_owner_user_id r \<noteq> p_id p) (tbl_get su_scope (record_object_removed us (p_id p) tenant n now)) =
      others (\<lambda>r. su_owner_user_id r \<noteq> p_id p) (tbl_get su_scope us1)"
    by (auto simp: record_object_removed_def c debited_def su_scope_def Let_def intro!: others_rules)
  then show ?thesis using usage_others(1) [of p us tenant now] c by simp
qed

lemma session_others:
  "tbl_get us_id (db_sessions db) i = Some sess \<Longrightarrow> us_owner_user_id sess = p_id p \<Longrightarrow> us_id s = us_id sess \<Longrightarrow>
   us_owner_user_id s = p_id p \<Longrightarrow> outside p (put_session db s) = outside p db"
  by (auto simp: put_session_def intro!: outsideI others_rules)

lemma record_session_outside:
  assumes "record_upload_session db staged req t now = (r, db')" and "st_owner_id staged = p_id p"
  shows "outside p db' = outside p db"
  using assms by (auto simp: record_upload_session_def insert_upload_session_def Let_def split: if_splits option.splits
      intro!: outsideI others_rules dest!: tbl_insert_appends)

lemma initiate_outside: "outside p (w_db (snd (initiate_upload env cfg api w p req fresh now))) = outside p (w_db w)"
proof -
  obtain res w' where run: "initiate_upload env cfg api w p req fresh now = (res, w')" by fastforce
  then consider "w_db w' = w_db w" | staged ms r t where "stage_upload env cfg (w_db w) p req fresh = (Inr staged, ms)"
      "record_upload_session (w_db w) staged req t now = (r, w_db w')"
    by (auto simp: initiate_upload_def Let_def split: prod.splits sum.splits option.splits)
  then show ?thesis
  proof cases
    case (2 staged ms r t)
    have "st_owner_id staged = p_id p"
      using 2(1) by (auto simp: stage_upload_def split: if_splits sum.splits prod.splits)
    from record_session_outside [OF 2(2) this] run show ?thesis by simp
  qed (use run in simp)
qed

lemma refile_links:
  "\<not> foreign_object p db i \<Longrightarrow> foreign_object p db j \<Longrightarrow> (j, c) \<in> set (refile ls i cats) \<longleftrightarrow> (j, c) \<in> set ls"
  by (auto simp: refile_def)

text \<open>A new object row of the caller: its id was nobody's before.\<close>

lemma new_object_outside:
  assumes "row_free (db_objects db) sess" and "us_owner_user_id sess = p_id p"
    and "tbl_get us_id (db_sessions db) i = Some sess" and "us_id s = us_id sess" and "us_owner_user_id s = p_id p"
    and usage: "others (\<lambda>r. su_owner_user_id r \<noteq> p_id p) (tbl_get su_scope us) =
      others (\<lambda>r. su_owner_user_id r \<noteq> p_id p) (tbl_get su_scope (db_usage db))"
    and links: "ls = db_links db \<or> ls = refile (db_links db) (us_id sess) cats"
  shows "outside p (put_session (db\<lparr>db_objects := db_objects db @ [object_of_session sess mime stat sha st now],
    db_usage := us, db_links := ls\<rparr>) s) = outside p db"
proof -
  have "\<not> foreign_object p db (us_id sess)"
    using assms(1) by (auto simp: foreign_object_def others_Some row_free_def dest: tbl_get_mem tbl_get_key)
  with assms show ?thesis
    by (auto simp: put_session_def object_of_session_def refile_links intro!: outsideI others_rules)
qed

lemma reject_outside:
  assumes "tbl_get us_id (db_sessions (w_db w)) i = Some sess" and "us_owner_user_id sess = p_id p"
    and "others (\<lambda>r. su_owner_user_id r \<noteq> p_id p) (tbl_get su_scope us) =
      others (\<lambda>r. su_owner_user_id r \<noteq> p_id p) (tbl_get su_scope (db_usage (w_db w)))"
  shows "outside p (w_db (snd (reject_upload api w us sess reason mime stat now))) = outside p (w_db w)"
proof (cases "row_free (db_objects (w_db w)) sess")
  case True
  have "outside p (put_session ((w_db w)\<lparr>db_objects := db_objects (w_db w) @ [object_of_session sess mime stat None OBJ_REJECTED now],
      db_usage := us, db_links := db_links (w_db w)\<rparr>) (sess\<lparr>us_status := SES_ABORTED\<rparr>)) = outside p (w_db w)"
    using assms True by (intro new_object_outside) auto
  then show ?thesis using True by (simp add: reject_upload_def insert_media_object_session)
qed (simp add: reject_upload_def insert_media_object_session)

lemma promote_outside:
  assumes sess: "tbl_get us_id (db_sessions (w_db w)) i = Some sess" and own: "us_owner_user_id sess = p_id p"
  shows "outside p (w_db (snd (promote_upload cfg api w p sess cats stat sha now))) = outside p (w_db w)"
proof -
  obtain ok s' where ct: "api_set_content_type api (w_sto w) (us_storage_bucket sess) (us_object_key sess) (us_expected_mime_type sess) = (ok, s')"
    by fastforce
  obtain r us ms where res: "reserve_storage_for_object cfg (db_usage (w_db w)) (p_id p) (us_tenant_id sess) (stat_size stat) now = (r, us, ms)"
    by (cases "reserve_storage_for_object cfg (db_usage (w_db w)) (p_id p) (us_tenant_id sess) (stat_size stat) now")
  note us = reserve_others [OF res]
  show ?thesis
  proof (cases r)
    case (Inl reason)
    have "outside p (w_db (snd (reject_upload api (ticks ms (w\<lparr>w_sto := s'\<rparr>)) us sess reason (us_expected_mime_type sess) stat now))) =
        outside p (w_db (ticks ms (w\<lparr>w_sto := s'\<rparr>)))"
      using sess own us by (intro reject_outside) auto
    then show ?thesis by (cases ok) (simp_all add: promote_upload_def ct res own Inl)
  next
    case (Inr _)
    have "outside p (put_session ((w_db w)\<lparr>db_objects := db_objects (w_db w) @
        [object_of_session sess (us_expected_mime_type sess) stat sha OBJ_UPLOADED now], db_usage := us,
        db_links := refile (db_links (w_db w)) (us_id sess) cats\<rparr>) (sess\<lparr>us_status := SES_COMPLETED, us_completed_at := Some now\<rparr>)) =
        outside p (w_db w)" if "row_free (db_objects (w_db w)) sess"
      using sess own us that by (intro new_object_outside) auto
    moreover have "mo_id (object_of_session sess m stat sha st now) = us_id sess" for m st by (simp add: object_of_session_def)
    ultimately show ?thesis by (cases ok; cases "row_free (db_objects (w_db w)) sess")
      (simp_all add: promote_upload_def ct res own Inr insert_media_object_session Let_def)
  qed
qed

lemma complete_outside:
  assumes own: "\<not> p_superuser p"
  shows "outside p (w_db (snd (complete_upload env cfg api w p i req now))) = outside p (w_db w)"
proof (cases "load_owned_session (w_db w) p i")
  case (Inr sess)
  with own have mine: "tbl_get us_id (db_sessions (w_db w)) i = Some sess" "us_owner_user_id sess = p_id p"
    by (simp_all add: load_owned_session_Inr)
  show ?thesis
    by (auto simp: complete_upload_def Inr ensure_completable_def promote_outside [OF mine] reject_outside [OF mine refl]
        session_others [OF mine] mine split: sum.split option.split)
qed (simp add: complete_upload_def)

lemma abort_outside:
  assumes own: "\<not> p_superuser p"
  shows "outside p (w_db (snd (abort_upload api w p i))) = outside p (w_db w)"
proof (cases "load_owned_session (w_db w) p i")
  case (Inr sess)
  with own have mine: "tbl_get us_id (db_sessions (w_db w)) i = Some sess" "us_owner_user_id sess = p_id p"
    by (simp_all add: load_owned_session_Inr)
  then show ?thesis by (auto simp: abort_upload_def Inr Let_def session_others [OF mine])
qed (simp add: abort_upload_def)

section \<open>Objects\<close>

text \<open>What a patch writes: nothing, or the patched row and perhaps its filing.\<close>

lemma update_object_rows:
  assumes run: "update_object cfg api w p i upd now ok = (res, w')"
  obtains "w_db w' = w_db w"
    | obj row cats where "load_object (w_db w) p i False = Inr obj" "mo_id row = i" "mo_owner_user_id row = mo_owner_user_id obj"
      "w_db w' = (w_db w)\<lparr>db_objects := tbl_put mo_id (db_objects (w_db w)) row,
         db_links := (case cats of None \<Rightarrow> db_links (w_db w) | Some cs \<Rightarrow> refile (db_links (w_db w)) i cs)\<rparr>"
proof (cases "load_object (w_db w) p i False")
  case (Inl e)
  then show ?thesis using that(1) run by (simp add: update_object_def)
next
  case (Inr obj)
  then have i: "mo_id obj = i" by (auto simp: load_object_Inr dest: tbl_get_key)
  let ?cats = "case mu_category_ids upd of Some (Some ids) \<Rightarrow> map_sum id Some (resolve_category_ids (w_db w) p ids) | _ \<Rightarrow> Inr None"
  let ?move = "relocate_for_visibility cfg api (w_sto w) obj (case mu_visibility upd of Some v \<Rightarrow> v | None \<Rightarrow> None)"
  obtain r s' where move: "?move = (r, s')" by fastforce
  show ?thesis
  proof (cases "?cats")
    case (Inl e)
    then show ?thesis using that(1) run Inr by (simp add: update_object_def)
  next
    case cats: (Inr cats)
    show ?thesis
    proof (cases r)
      case (Inl e)
      then show ?thesis using that(1) run Inr cats move by (auto simp: update_object_def)
    next
      case r: (Inr bm)
      obtain old moved where bm: "bm = (old, moved)" by fastforce
      have m: "mo_id moved = i" "mo_owner_user_id moved = mo_owner_user_id obj"
        using move i r bm by (auto simp: relocate_for_visibility_def Let_def split: option.splits if_splits prod.splits bool.splits)
      show ?thesis
      proof (cases "patched upd moved now = None \<or> \<not> ok")
        case True
        then show ?thesis using that(1) run Inr cats move r bm by (auto simp: update_object_def split: option.splits)
      next
        case False
        then obtain row where row: "patched upd moved now = Some row" by auto
        then show ?thesis using that(2) [OF Inr, of row cats] patched_Some [OF row] m False run Inr cats move r bm
          by (auto simp: update_object_def Let_def patched_Some split: option.splits)
      qed
    qed
  qed
qed

lemma update_outside:
  assumes own: "\<not> p_superuser p"
  shows "outside p (w_db (snd (update_object cfg api w p i upd now ok))) = outside p (w_db w)"
proof -
  obtain res w' where run: "update_object cfg api w p i upd now ok = (res, w')" by fastforce
  then show ?thesis
  proof (cases rule: update_object_rows)
    case (2 obj row cats)
    with own have mine: "tbl_get mo_id (db_objects (w_db w)) i = Some obj" "mo_id obj = i" "mo_owner_user_id obj = p_id p"
      by (auto simp: load_object_Inr dest: tbl_get_key)
    then have "\<not> foreign_object p (w_db w) i" by (intro own_not_foreign)
    with 2 mine show ?thesis using run
      by (auto simp: refile_links split: option.splits intro!: outsideI others_rules)
  qed (simp add: run)
qed

lemma commit_soft_delete_outside:
  assumes "tbl_get mo_id (db_objects db) i = Some obj" and "mo_owner_user_id obj = p_id p"
  shows "outside p (commit_soft_delete db obj (deleted_row obj b now) fresh now) = outside p db"
  using assms own_not_foreign [OF assms] tbl_get_key [OF assms(1)]
  by (auto simp: commit_soft_delete_def record_event_def deleted_row_def removed_others intro!: outsideI others_rules)

lemma delete_outside:
  assumes own: "\<not> p_superuser p"
  shows "outside p (w_db (snd (delete_object cfg api w p i fresh now))) = outside p (w_db w)"
proof (cases "\<exists>obj. load_object (w_db w) p i True = Inr obj \<and> mo_deleted_at obj = None")
  case True
  then obtain obj where obj: "load_object (w_db w) p i True = Inr obj" "mo_deleted_at obj = None" by blast
  with own have mine: "tbl_get mo_id (db_objects (w_db w)) i = Some obj" "mo_owner_user_id obj = p_id p"
    by (simp_all add: load_object_Inr)
  obtain res w' where run: "delete_object cfg api w p i fresh now = (res, w')" by fastforce
  from obj run show ?thesis
    by (cases rule: delete_object_outcomes) (simp_all add: run commit_soft_delete_outside [OF mine])
qed (auto simp: delete_object_def split: sum.split)

section \<open>Imports\<close>

lemma file_into_outside:
  assumes "tbl_get mo_id (db_objects db) i = Some obj" and "mo_owner_user_id obj = p_id p"
  shows "outside p (file_into db obj cats now) = outside p db"
  using assms own_not_foreign [OF assms] tbl_get_key [OF assms(1)]
  by (auto simp: file_into_def Let_def intro!: outsideI others_rules)

lemma usable_own:
  "importable_match db p i = (Some obj, True) \<Longrightarrow> tbl_get mo_id (db_objects db) i = Some obj \<and> mo_owner_user_id obj = p_id p"
  by (auto simp: importable_match_def split: option.splits)

lemma manifest_row_outside:
  assumes "manifest_row db p now entry cats paths = (r, db')"
  shows "outside p db' = outside p db"
proof -
  obtain m usable where m: "importable_match db p (ie_id entry) = (m, usable)" by fastforce
  then show ?thesis using assms file_into_outside usable_own [of db p "ie_id entry"]
    by (cases m; cases usable) (auto simp: manifest_row_def link_existing_def)
qed

lemma manifest_rows_outside:
  "manifest_rows env cfg tree db p now entries = (res, db') \<Longrightarrow> outside p db' = outside p db"
proof (induction entries arbitrary: db res)
  case (Cons entry entries)
  consider "db' = db"
    | categories paths result db1 res2 where "manifest_row db p now entry categories paths = (result, db1)"
        "manifest_rows env cfg tree db1 p now entries = (res2, db')"
    using Cons.prems by (fastforce simp: manifest_row_def Let_def split: sum.splits prod.splits)
  then show ?case by cases (simp, metis Cons.IH manifest_row_outside)
qed simp

lemma recreate_tree_outside:
  "recreate_tree env cfg db p manifest = (res, db') \<Longrightarrow> outside p db' = outside p db"
  by (auto simp: recreate_tree_def dest: ensure_all_outside split: sum.splits if_splits)

text \<open>A file brought in: a session, the bytes, then the completion of the upload pipeline.\<close>

lemma complete_import_outside:
  assumes own: "\<not> p_superuser p" and stage: "stage_upload uenv cfg db0 p req i = (Inr staged, ms)"
  shows "outside p (w_db (snd (complete_import env cfg api w p now entry req staged cats paths))) = outside p (w_db w)"
proof -
  have mine: "st_owner_id staged = p_id p"
    using stage by (auto simp: stage_upload_def split: if_splits sum.splits prod.splits)
  obtain r db1 where rec: "record_upload_session (w_db w) staged req (now + seconds (S3_PRESIGNED_URL_EXPIRE_SECONDS cfg)) now = (r, db1)"
    by fastforce
  note one = record_session_outside [OF rec mine]
  let ?req = "\<lparr>uc_sha256 = ie_sha256 entry, uc_category_ids = Some (map cat_id cats)\<rparr>"
  show ?thesis
    using one complete_outside [OF own, of "en_upload env" cfg api "w\<lparr>w_db := db1\<rparr>" "st_media_id staged" ?req now]
    by (auto simp: complete_import_def rec split: sum.split prod.split option.split)
qed

lemma import_one_file_outside:
  assumes own: "\<not> p_superuser p" and run: "import_one_file env cfg api w p now info entry cats paths = (r, w')"
  shows "outside p (w_db w') = outside p (w_db w)"
proof -
  obtain m usable where m: "importable_match (w_db w) p (ie_id entry) = (m, usable)" by fastforce
  consider "w' = w" | obj where "m = Some obj" "usable" "w' = w\<lparr>w_db := file_into (w_db w) obj cats now\<rparr>"
    | j where "import_new_file env cfg api w p now j entry cats paths = (r, w')"
    using run by (auto simp: import_one_file_def m link_existing_def split: option.splits if_splits)
  then show ?thesis
  proof cases
    case (2 obj)
    then show ?thesis using usable_own [of "w_db w" p "ie_id entry" obj] m file_into_outside by auto
  next
    case (3 j)
    then consider "w_db w' = w_db w"
      | req staged ms w1 where "stage_upload (en_upload env) cfg (w_db w) p req (ie_id entry) = (Inr staged, ms)"
        "w_db w1 = w_db w" "complete_import env cfg api w1 p now entry req staged cats paths = (r, w')"
      by (auto simp: import_new_file_def Let_def dest: store_entry_db
          split: if_splits sum.splits prod.splits option.splits bool.splits)
    then show ?thesis
    proof cases
      case (2 req staged ms w1)
      then show ?thesis using complete_import_outside [OF own 2(1), of env api w1 now entry cats paths] by simp
    qed simp
  qed simp
qed

lemma archive_rows_outside:
  assumes own: "\<not> p_superuser p"
  shows "archive_rows env cfg api tree files w p now entries = (res, w') \<Longrightarrow> outside p (w_db w') = outside p (w_db w)"
proof (induction entries arbitrary: w res)
  case (Cons entry entries)
  consider "w' = w"
    | cats paths r w1 where "import_one_file env cfg api w p now (map_of files (ie_id entry)) entry cats paths = (r, w1)"
        "w' = w1 \<or> (\<exists>res2. archive_rows env cfg api tree files w1 p now entries = (res2, w'))"
    using Cons.prems by (auto split: sum.splits prod.splits)
  then show ?case
  proof cases
    case (2 cats paths r w1)
    note one = import_one_file_outside [OF own 2(1)]
    from 2(2) show ?thesis using one Cons.IH by metis
  qed simp
qed simp

lemma import_outside:
  assumes own: "\<not> p_superuser p"
  shows "outside p (w_db (snd (run_import env cfg api w p fmt source now))) = outside p (w_db w)"
proof -
  obtain res w' where run: "run_import env cfg api w p fmt source now = (res, w')" by fastforce
  then consider "w_db w' = w_db w"
    | manifest r where "recreate_tree env cfg (w_db w) p manifest = (r, w_db w')"
    | manifest r db1 tree entries r2 where "recreate_tree env cfg (w_db w) p manifest = (r, db1)"
        "manifest_rows env cfg tree db1 p now entries = (r2, w_db w')"
    | manifest r db1 tree files res2 where "recreate_tree env cfg (w_db w) p manifest = (r, db1)"
        "archive_rows env cfg api tree files (w\<lparr>w_db := db1\<rparr>) p now (im_objects manifest) = (res2, w')"
    by (cases fmt) (auto simp: run_import_def import_manifest_def import_archive_def import_open_archive_def Let_def
        split: sum.splits prod.splits option.splits)
  then have "outside p (w_db w') = outside p (w_db w)"
    by cases (use recreate_tree_outside manifest_rows_outside archive_rows_outside [OF own] in \<open>fastforce+\<close>)
  then show ?thesis by (simp add: run)
qed

section \<open>Every request of a caller\<close>

fun upload_caller :: "upload_op \<Rightarrow> principal" where
  "upload_caller (Initiate p req fresh now) = p"
| "upload_caller (Complete p i req now) = p"
| "upload_caller (Abort p i) = p"

text \<open>Who a request is made for: \<open>None\<close> on the internal, administrative and public surfaces.\<close>

fun caller :: "service_request \<Rightarrow> principal option" where
  "caller (R_upload op) = Some (upload_caller op)"
| "caller (R_patch p i upd now ok) = Some p"
| "caller (R_delete p i fresh now) = Some p"
| "caller (R_import p fmt source now) = Some p"
| "caller (R_share p i body fresh now) = Some p"
| "caller (R_revoke_share p t) = Some p"
| "caller (R_generate p i presets fresh now) = Some p"
| "caller (R_delete_variant p i v) = Some p"
| "caller (R_create_category p rq) = Some p"
| "caller (R_update_category p c rq) = Some p"
| "caller (R_delete_category p c) = Some p"
| "caller (R_create_preset p name spec fresh now) = Some p"
| "caller (R_update_preset p i spec now) = Some p"
| "caller (R_delete_preset p i) = Some p"
| "caller (R_export enqueue p body fresh now) = Some p"
| "caller _ = None"

lemma upload_outside:
  "\<not> p_superuser (upload_caller op) \<Longrightarrow>
   outside (upload_caller op) (w_db (exec_upload env cfg api op w)) = outside (upload_caller op) (w_db w)"
  by (cases op) (simp_all add: initiate_outside complete_outside abort_outside)

text \<open>
  Callers are isolated: whatever request an authenticated caller without superuser rights
  makes, with whatever ids and bodies and in whatever state of the service, the rows of other
  owners (objects, sessions, usage, shares, jobs, exports, presets), the categories of other
  scopes, the subscriptions, and the variants, filings and events that hang on other owners'
  objects are after it exactly what they were.
\<close>

lemma callers_isolated:
  assumes "caller rq = Some p" and "\<not> p_superuser p"
  shows "outside p (w_db (serve sv rq w)) = outside p (w_db w)"
  using assms
  by (cases rq) (auto simp: upload_outside update_outside delete_outside import_outside shares_outside generate_outside
      delete_variant_outside create_category_outside update_category_outside delete_category_outside presets_outside export_outside)

end
