(* ===== verification/Dashboard.thy ===== *)
theory Dashboard
  imports DataModel
begin

text \<open>
  The activity dashboard (\<open>controllers/dashboard.py\<close>, \<open>schemas/dashboard.py\<close>): the calendar
  window around the current time and the counts of category rows added and updated in it.
  What the code uses of \<open>datetime\<close> is modelled on calendar fields: \<open>replace\<close> checks the new
  fields, adding a \<open>timedelta\<close> overflows past the year 9999, and comparison is that of the
  instants. The time stamps of a row are kept by \<open>TimestampMixin\<close> of the SDK and are a
  parameter, as is what \<open>BaseController.handle_exception\<close> makes of an exception.
\<close>

section \<open>Calendar time\<close>

text \<open>An aware UTC \<open>datetime\<close> by its fields.\<close>

record civil =
  cv_year :: int
  cv_month :: int
  cv_day :: int
  cv_hour :: int
  cv_minute :: int
  cv_second :: int
  cv_micro :: int

definition is_leap :: "int \<Rightarrow> bool" where
  "is_leap y \<longleftrightarrow> y mod 4 = 0 \<and> (y mod 100 \<noteq> 0 \<or> y mod 400 = 0)"

definition days_in_month :: "int \<Rightarrow> int \<Rightarrow> int" where
  "days_in_month y m =
     (if m = 2 then (if is_leap y then 29 else 28) else if m \<in> {4, 6, 9, 11} then 30 else 31)"

definition days_in_year :: "int \<Rightarrow> int" where
  "days_in_year y = (if is_leap y then 366 else 365)"

definition days_before_year :: "int \<Rightarrow> int" where
  "days_before_year y = (y - 1) * 365 + (y - 1) div 4 - (y - 1) div 100 + (y - 1) div 400"

definition days_before_month :: "int \<Rightarrow> int \<Rightarrow> int" where
  "days_before_month y m = sum_list (map (days_in_month y) [1..m - 1])"

definition ordinal :: "civil \<Rightarrow> int" where   \<comment> \<open>\<open>datetime.toordinal\<close>\<close>
  "ordinal c = days_before_year (cv_year c) + days_before_month (cv_year c) (cv_month c) + cv_day c"

definition time_of_day :: "civil \<Rightarrow> datetime" where
  "time_of_day c = seconds ((cv_hour c * 60 + cv_minute c) * 60 + cv_second c) + cv_micro c"

definition a_day :: datetime where
  "a_day = seconds 86400"

definition instant :: "civil \<Rightarrow> datetime" where
  "instant c = ordinal c * a_day + time_of_day c"

definition valid_civil :: "civil \<Rightarrow> bool" where
  "valid_civil c \<longleftrightarrow> 1 \<le> cv_year c \<and> cv_year c \<le> 9999 \<and> 1 \<le> cv_month c \<and> cv_month c \<le> 12 \<and>
     1 \<le> cv_day c \<and> cv_day c \<le> days_in_month (cv_year c) (cv_month c) \<and>
     0 \<le> cv_hour c \<and> cv_hour c < 24 \<and> 0 \<le> cv_minute c \<and> cv_minute c < 60 \<and>
     0 \<le> cv_second c \<and> cv_second c < 60 \<and> 0 \<le> cv_micro c \<and> cv_micro c < 1000000"

text \<open>The instant of \<open>replace\<close>d fields, and of \<open>start + timedelta\<close>.\<close>

definition replaced :: "civil \<Rightarrow> datetime result" where
  "replaced c = (if valid_civil c then Inr (instant c) else Inl (Raised ''ValueError''))"

definition max_instant :: datetime where   \<comment> \<open>\<open>datetime.max\<close>\<close>
  "max_instant = (days_before_year 10000 + 1) * a_day - 1"

definition shifted :: "datetime \<Rightarrow> datetime \<Rightarrow> datetime result" where
  "shifted t delta = (if t + delta > max_instant then Inl (Raised ''OverflowError'') else Inr (t + delta))"

section \<open>The window\<close>

datatype range_activity = RANGE_HOUR | RANGE_DAY | RANGE_MONTH | RANGE_YEAR

text \<open>The enumeration has no other member, so the final \<open>else\<close> of the source is unreachable.\<close>

fun get_range_activity :: "range_activity \<Rightarrow> civil \<Rightarrow> (datetime \<times> datetime) result" where
  "get_range_activity RANGE_HOUR now =
     (let start = instant (now\<lparr>cv_minute := 0, cv_second := 0, cv_micro := 0\<rparr>)
      in map_sum id (Pair start) (shifted start (seconds 3600)))"
| "get_range_activity RANGE_DAY now =
     (let start = instant (now\<lparr>cv_hour := 0, cv_minute := 0, cv_second := 0, cv_micro := 0\<rparr>)
      in map_sum id (Pair start) (shifted start a_day))"
| "get_range_activity RANGE_MONTH now =
     (let start = now\<lparr>cv_day := 1, cv_hour := 0, cv_minute := 0, cv_second := 0, cv_micro := 0\<rparr>;
          next_month = (if cv_month start = 12 then start\<lparr>cv_year := cv_year start + 1, cv_month := 1\<rparr>
                  else start\<lparr>cv_month := cv_month start + 1\<rparr>)
      in map_sum id (Pair (instant start)) (replaced next_month))"
| "get_range_activity RANGE_YEAR now =
     (let start = now\<lparr>cv_month := 1, cv_day := 1, cv_hour := 0, cv_minute := 0, cv_second := 0, cv_micro := 0\<rparr>
      in map_sum id (Pair (instant start)) (replaced (start\<lparr>cv_year := cv_year start + 1\<rparr>)))"

section \<open>The counts\<close>

record activity_counter =
  ac_model :: string
  ac_updated :: int
  ac_added :: int

record activity_stats =
  at_min :: int
  at_max :: int
  at_activity :: "activity_counter list"

record users_activity =
  ua_nb_users :: nat
  ua_activity :: activity_stats

text \<open>The stamps \<open>TimestampMixin\<close> keeps on a row.\<close>

record row_stamps =
  rs_created_at :: datetime
  rs_updated_at :: datetime

definition sql_sum :: "int list \<Rightarrow> int option" where   \<comment> \<open>\<open>SUM\<close> over no row is \<open>NULL\<close>\<close>
  "sql_sum xs = (if xs = [] then None else Some (sum_list xs))"

definition count_within :: "datetime \<times> datetime \<Rightarrow> ('a \<Rightarrow> datetime) \<Rightarrow> 'a list \<Rightarrow> int" where
  "count_within win stamp rows =
     (case sql_sum (map (\<lambda>r. if fst win \<le> stamp r \<and> stamp r < snd win then 1 else 0) rows) of
        None \<Rightarrow> 0 | Some n \<Rightarrow> n)"

definition counted_rows :: "database \<Rightarrow> principal \<Rightarrow> bool \<Rightarrow> category list" where
  "counted_rows db p is_current =
     filter (\<lambda>c. (\<not> p_superuser p \<or> is_current) \<longrightarrow> cat_owner_id c = p_id p) (db_categories db)"

definition get_activity_count_by_model ::
  "(category \<Rightarrow> row_stamps) \<Rightarrow> database \<Rightarrow> principal \<Rightarrow> range_activity \<Rightarrow> bool \<Rightarrow> civil \<Rightarrow> activity_stats result" where
  "get_activity_count_by_model stamps db p time_range is_current now =
     (case get_range_activity time_range now of
        Inl e \<Rightarrow> Inl e
      | Inr win \<Rightarrow>
          (let rows = counted_rows db p is_current;
               updated = count_within win (\<lambda>c. rs_updated_at (stamps c)) rows;
               added = count_within win (\<lambda>c. rs_created_at (stamps c)) rows
           in Inr \<lparr>at_min = min (min 0 updated) added, at_max = max (max 0 updated) added,
                at_activity = [\<lparr>ac_model = ''Category'', ac_updated = updated, ac_added = added\<rparr>]\<rparr>))"

definition get_dash_users_stats ::
  "(err \<Rightarrow> err) \<Rightarrow> (category \<Rightarrow> row_stamps) \<Rightarrow> database \<Rightarrow> principal \<Rightarrow> range_activity \<Rightarrow> bool \<Rightarrow> civil \<Rightarrow>
   users_activity result" where
  "get_dash_users_stats handle_exception stamps db p time_range is_current now =
     (case get_activity_count_by_model stamps db p time_range is_current now of
        Inl e \<Rightarrow> Inl (handle_exception e)
      | Inr activity \<Rightarrow> Inr \<lparr>ua_nb_users = 0, ua_activity = activity\<rparr>)"

section \<open>Calendar arithmetic\<close>

lemma div_step:
  fixes x n :: int
  assumes "0 < n"
  shows "(x + 1) div n = x div n + of_bool (n dvd x + 1)"
proof -
  have x: "x + 1 = n * (x div n) + (x mod n + 1)" by simp
  have bounds: "0 \<le> x mod n" "x mod n < n" using assms by simp_all
  show ?thesis
  proof (cases "x mod n + 1 = n")
    case True
    have "x + 1 = n * (x div n + 1)" using x [unfolded True] by (simp only: distrib_left mult_1_right)
    then show ?thesis using assms by simp
  next
    case False
    with bounds have r: "0 \<le> x mod n + 1" "x mod n + 1 < n" by linarith+
    have "(x + 1) div n = x div n" "(x + 1) mod n = x mod n + 1"
      by (rule int_div_pos_eq [OF x r], rule int_mod_pos_eq [OF x r])
    then show ?thesis using bounds by (simp add: dvd_eq_mod_eq_0)
  qed
qed

lemma is_leap_dvd: "is_leap y \<longleftrightarrow> 4 dvd y \<and> (\<not> 100 dvd y \<or> 400 dvd y)"
  by (simp only: is_leap_def dvd_eq_mod_eq_0)

lemma days_before_next_year: "days_before_year (y + 1) = days_before_year y + days_in_year y"
proof -
  have s: "y div n = (y - 1) div n + of_bool (n dvd y)" if "0 < n" for n
    using div_step [OF that, of "y - 1"] by simp
  have "400 dvd y \<Longrightarrow> 100 dvd y" "100 dvd y \<Longrightarrow> 4 dvd y" by (rule dvd_trans; simp)+
  then have leaps: "of_bool (4 dvd y) - of_bool (100 dvd y) + of_bool (400 dvd y) = days_in_year y - 365"
    unfolding days_in_year_def is_leap_dvd by (cases "4 dvd y"; cases "100 dvd y"; cases "400 dvd y") simp_all
  have "days_before_year (y + 1) = y * 365 + y div 4 - y div 100 + y div 400" by (simp add: days_before_year_def)
  also have "\<dots> = days_before_year y + days_in_year y"
    using leaps s [of 4] s [of 100] s [of 400] by (simp add: days_before_year_def)
  finally show ?thesis .
qed

lemma days_before_next_month: "1 \<le> m \<Longrightarrow> days_before_month y (m + 1) = days_before_month y m + days_in_month y m"
  by (simp add: days_before_month_def upto_rec2)

lemma days_before_thirteen: "days_before_month y 13 = days_in_year y"
  by (simp add: days_before_month_def days_in_month_def days_in_year_def upto_rec1)

lemma days_before_january: "days_before_month y 1 = 0"
  by (simp add: days_before_month_def)

lemma days_in_month_pos: "0 < days_in_month y m"
  by (simp add: days_in_month_def)

lemma days_in_year_pos: "0 < days_in_year y"
  by (simp add: days_in_year_def)

text \<open>Consecutive blocks of positive length: later blocks start after earlier ones end.\<close>

lemma blocks_ordered:
  fixes base len :: "int \<Rightarrow> int"
  assumes "\<And>k. lo \<le> k \<Longrightarrow> base (k + 1) = base k + len k" and "\<And>k. 0 < len k" and "lo \<le> i" and "i < j"
  shows "base i + len i \<le> base j"
  using assms(4)
proof (induction j rule: int_gr_induct)
  case base then show ?case using assms by simp
next
  case (step k) then show ?case using assms(1) [of k] assms(2) [of k] assms(3) by simp
qed

lemma blocks_unique:
  fixes base len :: "int \<Rightarrow> int"
  assumes "\<And>k. lo \<le> k \<Longrightarrow> base (k + 1) = base k + len k" and "\<And>k. 0 < len k" and "lo \<le> i" "lo \<le> j"
    and "base i \<le> x" "x < base i + len i" and "base j \<le> x" "x < base j + len j"
  shows "i = j"
proof (cases i j rule: linorder_cases)
  case less
  then show ?thesis using blocks_ordered [of lo base len i j] assms by fastforce
next
  case greater
  then show ?thesis using blocks_ordered [of lo base len j i] assms by fastforce
qed

text \<open>The calendar blocks: a date lies in its year and in its month, a time in its day.\<close>

definition day_of_year :: "civil \<Rightarrow> int" where
  "day_of_year c = days_before_month (cv_year c) (cv_month c) + cv_day c"

lemma ordinal_day_of_year: "ordinal c = days_before_year (cv_year c) + day_of_year c"
  by (simp add: ordinal_def day_of_year_def)

lemmas month_blocks = blocks_ordered [of 1 "days_before_month y" "days_in_month y" for y, OF days_before_next_month days_in_month_pos]
lemmas year_blocks = blocks_ordered [of 1 days_before_year days_in_year, OF days_before_next_year days_in_year_pos]

lemma day_of_year_bounds: "valid_civil c \<Longrightarrow> 1 \<le> day_of_year c \<and> day_of_year c \<le> days_in_year (cv_year c)"
  using month_blocks [of 1 "cv_month c" "cv_year c"] month_blocks [of "cv_month c" 13 "cv_year c"] days_in_month_pos [of "cv_year c" 1]
  by (cases "cv_month c = 1") (auto simp: valid_civil_def day_of_year_def days_before_thirteen days_before_january)

lemma time_of_day_bounds: "valid_civil c \<Longrightarrow> 0 \<le> time_of_day c \<and> time_of_day c < a_day"
  by (auto simp: valid_civil_def time_of_day_def a_day_def seconds_def)

definition same_year :: "civil \<Rightarrow> civil \<Rightarrow> bool" where
  "same_year c d \<longleftrightarrow> cv_year c = cv_year d"

definition same_month :: "civil \<Rightarrow> civil \<Rightarrow> bool" where
  "same_month c d \<longleftrightarrow> same_year c d \<and> cv_month c = cv_month d"

definition same_day :: "civil \<Rightarrow> civil \<Rightarrow> bool" where
  "same_day c d \<longleftrightarrow> same_month c d \<and> cv_day c = cv_day d"

definition same_hour :: "civil \<Rightarrow> civil \<Rightarrow> bool" where
  "same_hour c d \<longleftrightarrow> same_day c d \<and> cv_hour c = cv_hour d"

fun same_unit :: "range_activity \<Rightarrow> civil \<Rightarrow> civil \<Rightarrow> bool" where
  "same_unit RANGE_HOUR c d = same_hour c d"
| "same_unit RANGE_DAY c d = same_day c d"
| "same_unit RANGE_MONTH c d = same_month c d"
| "same_unit RANGE_YEAR c d = same_year c d"

lemma within_year:
  assumes "valid_civil c" "1 \<le> y"
  shows "days_before_year y < ordinal c \<and> ordinal c \<le> days_before_year y + days_in_year y \<longleftrightarrow> cv_year c = y"
  using day_of_year_bounds [OF assms(1)] year_blocks [of y "cv_year c"] year_blocks [of "cv_year c" y] assms
  by (cases "cv_year c" y rule: linorder_cases) (auto simp: ordinal_day_of_year valid_civil_def)

lemma within_month:
  assumes "valid_civil c" "1 \<le> y" "1 \<le> m" "m \<le> 12"
  defines "b \<equiv> days_before_year y + days_before_month y m"
  shows "b < ordinal c \<and> ordinal c \<le> b + days_in_month y m \<longleftrightarrow> cv_year c = y \<and> cv_month c = m"
proof (cases "cv_year c = y")
  case True
  then show ?thesis using assms(1) month_blocks [of m "cv_month c" y] month_blocks [of "cv_month c" m y] assms(2-4)
    by (cases "cv_month c" m rule: linorder_cases) (auto simp: ordinal_def valid_civil_def b_def)
next
  case False
  have "0 \<le> days_before_month y m" "days_before_month y m + days_in_month y m \<le> days_in_year y"
    using month_blocks [of 1 m y] month_blocks [of m 13 y] days_in_month_pos [of y 1] assms(3,4)
    by (cases "m = 1"; auto simp: days_before_thirteen days_before_january)+
  then show ?thesis using within_year [OF assms(1,2)] False by (auto simp: b_def)
qed

lemma ordinal_same_day:
  assumes "valid_civil c" "valid_civil d"
  shows "ordinal c = ordinal d \<longleftrightarrow> same_day c d"
proof
  assume "ordinal c = ordinal d"
  then show "same_day c d"
    using within_month [OF assms(1), of "cv_year d" "cv_month d"] assms
    by (auto simp: same_day_def same_month_def same_year_def ordinal_def valid_civil_def)
qed (simp add: same_day_def same_month_def same_year_def ordinal_def)

section \<open>The window is the calendar unit\<close>

lemma day_le_instant: "valid_civil c \<Longrightarrow> k * a_day \<le> instant c \<longleftrightarrow> k \<le> ordinal c"
  using time_of_day_bounds [of c] by (auto simp: instant_def a_day_def seconds_def)

lemma instant_less_day: "valid_civil c \<Longrightarrow> instant c < k * a_day \<longleftrightarrow> ordinal c < k"
  using day_le_instant [of c k] by linarith

text \<open>The same for hours, counted from the beginning.\<close>

definition hours :: "civil \<Rightarrow> int" where
  "hours c = ordinal c * 24 + cv_hour c"

lemma instant_hours:
  assumes "valid_civil c"
  shows "k * seconds 3600 \<le> instant c \<longleftrightarrow> k \<le> hours c" "instant c < k * seconds 3600 \<longleftrightarrow> hours c < k"
  using assms by (auto simp: instant_def a_day_def seconds_def time_of_day_def hours_def valid_civil_def)

lemma hours_same: "valid_civil c \<Longrightarrow> valid_civil d \<Longrightarrow> hours c = hours d \<longleftrightarrow> same_hour c d"
  using ordinal_same_day [of c d] by (auto simp: hours_def same_hour_def valid_civil_def)

lemmas window_rules = replaced_def shifted_def map_sum_Inr Let_def

lemma first_of_month: "ordinal (c\<lparr>cv_day := 1, cv_hour := h, cv_minute := m, cv_second := s, cv_micro := x\<rparr>) =
    days_before_year (cv_year c) + days_before_month (cv_year c) (cv_month c) + 1"
  by (simp add: ordinal_def)

text \<open>
  Whatever the current time, the window that \<open>get_range_activity\<close> answers holds exactly the
  instants of the same calendar hour, day, month or year.
\<close>

lemma range_activity_exact:
  assumes now: "valid_civil now" and c: "valid_civil c" and win: "get_range_activity r now = Inr (s, e)"
  shows "s \<le> instant c \<and> instant c < e \<longleftrightarrow> same_unit r c now"
proof (cases r)
  case RANGE_HOUR
  then have "s = hours now * seconds 3600" "e = (hours now + 1) * seconds 3600"
    using win by (auto simp: window_rules instant_def time_of_day_def hours_def ordinal_def a_day_def seconds_def split: if_splits)
  then show ?thesis using instant_hours [OF c] hours_same [OF c now] RANGE_HOUR by auto
next
  case RANGE_DAY
  then have "s = ordinal now * a_day" "e = (ordinal now + 1) * a_day"
    using win by (auto simp: window_rules instant_def time_of_day_def ordinal_def a_day_def seconds_def split: if_splits)
  then show ?thesis using day_le_instant [OF c] instant_less_day [OF c] ordinal_same_day [OF c now] RANGE_DAY by auto
next
  case RANGE_MONTH
  define b where "b = days_before_year (cv_year now) + days_before_month (cv_year now) (cv_month now)"
  have e: "e = (b + days_in_month (cv_year now) (cv_month now) + 1) * a_day"
    using win RANGE_MONTH now days_before_next_month [of "cv_month now" "cv_year now"] days_before_next_year [of "cv_year now"]
      days_before_thirteen [of "cv_year now"]
    by (auto simp: window_rules instant_def time_of_day_def ordinal_def b_def days_before_january valid_civil_def seconds_def
        split: if_splits)
  have "s = (b + 1) * a_day"
    using win RANGE_MONTH by (auto simp: window_rules instant_def time_of_day_def ordinal_def b_def seconds_def)
  then show ?thesis
    using e day_le_instant [OF c] instant_less_day [OF c] within_month [OF c, of "cv_year now" "cv_month now"] now RANGE_MONTH
    by (auto simp: same_month_def same_year_def b_def valid_civil_def)
next
  case RANGE_YEAR
  have e: "e = (days_before_year (cv_year now) + days_in_year (cv_year now) + 1) * a_day"
    using win RANGE_YEAR days_before_next_year [of "cv_year now"]
    by (auto simp: window_rules instant_def time_of_day_def ordinal_def days_before_january seconds_def split: if_splits)
  have "s = (days_before_year (cv_year now) + 1) * a_day"
    using win RANGE_YEAR by (auto simp: window_rules instant_def time_of_day_def ordinal_def days_before_january seconds_def)
  then show ?thesis
    using e day_le_instant [OF c] instant_less_day [OF c] within_year [OF c, of "cv_year now"] now RANGE_YEAR
    by (auto simp: same_year_def valid_civil_def)
qed

text \<open>The window exists except in the last unit before the year 10000.\<close>

definition last_unit :: "range_activity \<Rightarrow> civil \<Rightarrow> bool" where
  "last_unit r c \<longleftrightarrow> cv_year c = 9999 \<and> (r = RANGE_YEAR \<or> cv_month c = 12 \<and>
     (r = RANGE_MONTH \<or> cv_day c = 31 \<and> (r = RANGE_DAY \<or> cv_hour c = 23)))"

section \<open>What the dashboard counts\<close>

lemma count_within_length:
  "count_within win stamp rows = int (length (filter (\<lambda>r. fst win \<le> stamp r \<and> stamp r < snd win) rows))"
proof -
  have "sum_list (map (\<lambda>r. if P r then 1 else 0) rows) = int (length (filter P rows))" for P :: "'a \<Rightarrow> bool"
    by (induction rows) auto
  then show ?thesis by (simp add: count_within_def sql_sum_def)
qed

definition last_hour :: civil where
  "last_hour = \<lparr>cv_year = 9999, cv_month = 12, cv_day = 31, cv_hour = 23, cv_minute = 0, cv_second = 0, cv_micro = 0\<rparr>"

lemma last_hour_simps:
  "valid_civil last_hour" "ordinal last_hour = days_before_year 10000" "hours last_hour = days_before_year 10000 * 24 + 23"
  "same_day c last_hour \<longleftrightarrow> last_unit RANGE_DAY c" "same_hour c last_hour \<longleftrightarrow> last_unit RANGE_HOUR c"
proof -
  have "ordinal last_hour = days_before_year 10000"
    using days_before_next_year [of 9999] days_before_next_month [of 12 9999] days_before_thirteen [of 9999]
    by (simp add: ordinal_def last_hour_def days_in_month_def)
  then show "valid_civil last_hour" "ordinal last_hour = days_before_year 10000" "hours last_hour = days_before_year 10000 * 24 + 23"
    "same_day c last_hour \<longleftrightarrow> last_unit RANGE_DAY c" "same_hour c last_hour \<longleftrightarrow> last_unit RANGE_HOUR c"
    by (auto simp: hours_def valid_civil_def days_in_month_def same_hour_def same_day_def same_month_def same_year_def
        last_unit_def last_hour_def)
qed

lemma ordinal_max: "valid_civil c \<Longrightarrow> ordinal c \<le> days_before_year 10000"
  using within_year [of c "cv_year c"] year_blocks [of "cv_year c" 10000] by (auto simp: valid_civil_def)

lemma ordinal_before_last: "valid_civil c \<Longrightarrow> \<not> last_unit RANGE_DAY c \<Longrightarrow> ordinal c < days_before_year 10000"
  using ordinal_max [of c] ordinal_same_day [of c last_hour] by (auto simp: last_hour_simps order_less_le)

lemma hours_before_last:
  assumes "valid_civil c" "\<not> last_unit RANGE_HOUR c"
  shows "hours c < days_before_year 10000 * 24 + 23"
proof -
  have "hours c \<noteq> hours last_hour" using assms hours_same [OF assms(1) last_hour_simps(1)] by (simp add: last_hour_simps)
  moreover have "hours c \<le> hours last_hour" using ordinal_max [OF assms(1)] assms(1)
    unfolding last_hour_simps(3) by (simp add: hours_def valid_civil_def)
  ultimately show ?thesis by (simp add: last_hour_simps(3))
qed

lemma range_activity_exists:
  assumes "valid_civil now" and "\<not> last_unit r now"
  shows "\<exists>s e. get_range_activity r now = Inr (s, e)"
proof (cases r)
  case RANGE_HOUR
  then have "instant (now\<lparr>cv_minute := 0, cv_second := 0, cv_micro := 0\<rparr>) + seconds 3600 = (hours now + 1) * seconds 3600"
    "hours now < days_before_year 10000 * 24 + 23" using assms hours_before_last
    by (auto simp: instant_def time_of_day_def hours_def ordinal_def a_day_def seconds_def)
  then show ?thesis using RANGE_HOUR by (simp add: shifted_def max_instant_def a_day_def seconds_def Let_def)
next
  case RANGE_DAY
  then have "instant (now\<lparr>cv_hour := 0, cv_minute := 0, cv_second := 0, cv_micro := 0\<rparr>) + a_day = (ordinal now + 1) * a_day"
    "ordinal now < days_before_year 10000" using assms ordinal_before_last
    by (auto simp: instant_def time_of_day_def ordinal_def a_day_def seconds_def)
  then show ?thesis using RANGE_DAY by (simp add: shifted_def max_instant_def a_day_def seconds_def Let_def)
next
  case RANGE_MONTH
  then show ?thesis using assms by (auto simp: window_rules valid_civil_def last_unit_def days_in_month_def)
next
  case RANGE_YEAR
  then show ?thesis using assms by (auto simp: window_rules valid_civil_def last_unit_def days_in_month_def)
qed

text \<open>The number of rows whose time is in the calendar unit of the current one.\<close>

definition rows_in_unit :: "range_activity \<Rightarrow> civil \<Rightarrow> ('a \<Rightarrow> civil) \<Rightarrow> 'a list \<Rightarrow> int" where
  "rows_in_unit r now time rows = int (length (filter (\<lambda>x. same_unit r (time x) now) rows))"

lemma count_within_unit:
  assumes "valid_civil now" "get_range_activity r now = Inr win"
    and "\<And>x. x \<in> set rows \<Longrightarrow> valid_civil (time x) \<and> stamp x = instant (time x)"
  shows "count_within win stamp rows = rows_in_unit r now time rows"
proof -
  have win: "get_range_activity r now = Inr (fst win, snd win)" using assms(2) by simp
  have "(fst win \<le> stamp x \<and> stamp x < snd win) = same_unit r (time x) now" if "x \<in> set rows" for x
    using range_activity_exact [OF assms(1) _ win, of "time x"] assms(3) [OF that] by simp
  then show ?thesis unfolding count_within_length rows_in_unit_def by (simp cong: filter_cong)
qed

text \<open>
  C27. The dashboard counts the current calendar unit: outside the last unit before the year
  10000 the request succeeds, and the counts it answers are the numbers of the categories in
  scope that were created, and last updated, in the same hour, day, month or year as the
  current time; the reported maximum is the larger of the two. In scope are all categories
  for a superuser, and for everybody else, and on the route for the current user's own
  activity (\<open>is_current\<close>), the caller's own. The two figures of the answer that do not
  depend on any row are stated apart, below.
\<close>

theorem dashboard_counts_current_unit:
  assumes now: "valid_civil now" "\<not> last_unit r now"
    and stamps: "\<forall>c\<in>set (db_categories db). valid_civil (born c) \<and> valid_civil (touched c) \<and>
      stamps c = \<lparr>rs_created_at = instant (born c), rs_updated_at = instant (touched c)\<rparr>"
  shows "\<exists>answer. get_dash_users_stats handle_exception stamps db p r is_current now = Inr answer \<and>
    (let rows = (if p_superuser p \<and> \<not> is_current then db_categories db
                 else filter (\<lambda>c. cat_owner_id c = p_id p) (db_categories db));
         added = int (length (filter (\<lambda>c. same_unit r (born c) now) rows));
         updated = int (length (filter (\<lambda>c. same_unit r (touched c) now) rows))
     in at_activity (ua_activity answer) = [\<lparr>ac_model = ''Category'', ac_updated = updated, ac_added = added\<rparr>] \<and>
        at_max (ua_activity answer) = max updated added)"
proof -
  obtain win where win: "get_range_activity r now = Inr win" using range_activity_exists [OF now] by blast
  let ?rows = "counted_rows db p is_current"
  have row: "valid_civil (born c) \<and> rs_created_at (stamps c) = instant (born c)"
    "valid_civil (touched c) \<and> rs_updated_at (stamps c) = instant (touched c)" if "c \<in> set ?rows" for c
    using that stamps by (simp_all add: counted_rows_def split: if_splits)
  note counts = count_within_unit [OF now(1) win row(1)] count_within_unit [OF now(1) win row(2)]
  have scope: "?rows = (if p_superuser p \<and> \<not> is_current then db_categories db
      else filter (\<lambda>c. cat_owner_id c = p_id p) (db_categories db))"
    by (auto simp: counted_rows_def)
  have "0 \<le> rows_in_unit r now t ?rows" for t by (simp add: rows_in_unit_def)
  then show ?thesis
    unfolding scope [symmetric] Let_def rows_in_unit_def [symmetric]
    by (simp add: get_dash_users_stats_def get_activity_count_by_model_def win counts Let_def)
qed

text \<open>A plain caller's figures depend on its own rows only.\<close>

lemma dashboard_own_rows:
  assumes "\<not> p_superuser p \<or> is_current"
    and "filter (\<lambda>c. cat_owner_id c = p_id p) (db_categories db) = filter (\<lambda>c. cat_owner_id c = p_id p) (db_categories db')"
  shows "get_dash_users_stats handle_exception stamps db p r is_current now =
    get_dash_users_stats handle_exception stamps db' p r is_current now"
proof -
  have "counted_rows d p is_current = filter (\<lambda>c. cat_owner_id c = p_id p) (db_categories d)" for d
    using assms(1) by (auto simp: counted_rows_def)
  then have "counted_rows db p is_current = counted_rows db' p is_current" by (simp only: assms(2))
  then show ?thesis by (simp only: get_dash_users_stats_def get_activity_count_by_model_def)
qed

text \<open>
  The minimum starts from zero and a count is never negative, so it is zero whatever the
  counts are.
\<close>

lemma dashboard_min_is_zero:
  "get_activity_count_by_model stamps db p r is_current now = Inr a \<Longrightarrow> at_min a = 0"
  by (auto simp: get_activity_count_by_model_def count_within_length Let_def split: sum.splits)

text \<open>
  The number of users is the constant zero for every caller, although the handler's
  documentation announces the total number of users for a superuser.
\<close>

lemma dashboard_user_count_is_zero:
  "get_dash_users_stats handle_exception stamps db p r is_current now = Inr answer \<Longrightarrow> ua_nb_users answer = 0"
  by (auto simp: get_dash_users_stats_def split: sum.splits)

text \<open>In the last month before the year 10000 the request fails.\<close>

lemma dashboard_last_month_fails:
  "cv_year now = 9999 \<Longrightarrow> cv_month now = 12 \<Longrightarrow>
   get_dash_users_stats handle_exception stamps db p RANGE_MONTH is_current now = Inl (handle_exception (Raised ''ValueError''))"
  by (simp add: get_dash_users_stats_def get_activity_count_by_model_def replaced_def valid_civil_def Let_def)

text \<open>December 2024: a row of November, one of the month, one of the month of somebody else.\<close>

definition noon :: "int \<Rightarrow> int \<Rightarrow> int \<Rightarrow> civil" where
  "noon y m d = \<lparr>cv_year = y, cv_month = m, cv_day = d, cv_hour = 12, cv_minute = 0, cv_second = 0, cv_micro = 0\<rparr>"

definition demo_categories :: database where
  "demo_categories = empty_db\<lparr>db_categories := map (\<lambda>(i, owner). \<lparr>cat_id = i, cat_name = [97], cat_slug = [97],
     cat_parent_id = None, cat_owner_id = owner, cat_tenant_id = None\<rparr>) [(1, 7), (2, 7), (3, 8)]\<rparr>"

definition demo_born :: "category \<Rightarrow> civil" where
  "demo_born c = (if cat_id c = 1 then noon 2024 11 30 else noon 2024 12 31)"

theorem dashboard_counts_current_unit_witness:
  "\<exists>answer. get_dash_users_stats id (\<lambda>c. \<lparr>rs_created_at = instant (demo_born c), rs_updated_at = instant (noon 2024 12 1)\<rparr>)
     demo_categories \<lparr>p_id = 7, p_superuser = False, p_tenant = None\<rparr> RANGE_MONTH False (noon 2024 12 15) = Inr answer \<and>
   at_activity (ua_activity answer) = [\<lparr>ac_model = ''Category'', ac_updated = 2, ac_added = 1\<rparr>] \<and> at_max (ua_activity answer) = 2"
  using dashboard_counts_current_unit [of "noon 2024 12 15" RANGE_MONTH demo_categories demo_born "\<lambda>_. noon 2024 12 1"
      "\<lambda>c. \<lparr>rs_created_at = instant (demo_born c), rs_updated_at = instant (noon 2024 12 1)\<rparr>"
      id "\<lparr>p_id = 7, p_superuser = False, p_tenant = None\<rparr>" False]
  by (simp add: demo_categories_def demo_born_def noon_def valid_civil_def days_in_month_def last_unit_def
      same_month_def same_year_def)

end
