(* ===== verification/Routes.thy ===== *)
theory Routes
  imports Isolation RateLimit Dashboard
begin

text \<open>
  The HTTP surface (\<open>app/routes/*.py\<close>, \<open>core/deps.py\<close>): for every route its mounted floor,
  its rate limiter, the tier its signature names, the request validation, and the handler it
  delegates to. \<open>handle\<close> runs a request the way FastAPI does: router dependencies, route
  dependencies, signature dependencies, body validation, handler. Paths, methods and status
  codes of the success answers are left out: a request names its route.
\<close>

section \<open>Who is calling\<close>

text \<open>
  The guards of the SDK, as functions of the bearer token FastAPI extracted (\<open>None\<close> without
  one): \<open>get_current_user\<close>, the role tiers, and the superuser guard of the admin surface.
\<close>

record auth_api =
  au_user :: "ustr option \<Rightarrow> principal result"
  au_reader :: "ustr option \<Rightarrow> principal result"
  au_writer :: "ustr option \<Rightarrow> principal result"
  au_superuser :: "ustr option \<Rightarrow> principal result"

text \<open>
  What \<open>core/deps.py\<close> documents of them: each tier resolves the caller on the path of
  \<open>get_current_user\<close>, a writer is a reader, the superuser guard admits superusers only, and
  nobody passes without a token.
\<close>

definition auth_laws :: "auth_api \<Rightarrow> bool" where
  "auth_laws au \<longleftrightarrow>
     (\<forall>t p. au_reader au t = Inr p \<longrightarrow> au_user au t = Inr p) \<and>
     (\<forall>t p. au_writer au t = Inr p \<longrightarrow> au_reader au t = Inr p) \<and>
     (\<forall>t p. au_superuser au t = Inr p \<longrightarrow> au_user au t = Inr p \<and> p_superuser p) \<and>
     (\<forall>p. au_user au None \<noteq> Inr p)"

lemma auth_lawsD:
  assumes "auth_laws au"
  shows "au_reader au t = Inr p \<Longrightarrow> au_user au t = Inr p" "au_writer au t = Inr p \<Longrightarrow> au_user au t = Inr p"
    "au_superuser au t = Inr p \<Longrightarrow> au_user au t = Inr p" "au_superuser au t = Inr p \<Longrightarrow> p_superuser p"
    "au_user au None \<noteq> Inr p"
  using assms unfolding auth_laws_def by blast+

datatype floor = F_open | F_optional | F_reader | F_writer | F_superuser | F_service

record credentials =
  cr_bearer :: "ustr option"            \<comment> \<open>what \<open>OAuth2PasswordBearer\<close> extracts\<close>
  cr_authorization :: "ustr option"     \<comment> \<open>the raw header the service guard reads\<close>

fun pass :: "auth_api \<Rightarrow> settings \<Rightarrow> floor \<Rightarrow> credentials \<Rightarrow> principal option result" where
  "pass au cfg F_open cr = Inr None"
| "pass au cfg F_optional cr = get_optional_user (\<lambda>t. au_user au (Some t)) (cr_bearer cr)"
| "pass au cfg F_reader cr = map_sum id Some (au_reader au (cr_bearer cr))"
| "pass au cfg F_writer cr = map_sum id Some (au_writer au (cr_bearer cr))"
| "pass au cfg F_superuser cr = map_sum id Some (au_superuser au (cr_bearer cr))"
| "pass au cfg F_service cr = map_sum id (\<lambda>_. None) (require_service_token cfg (cr_authorization cr))"

lemma pass_Inr:
  "pass au cfg F_writer cr = Inr who \<longleftrightarrow> (\<exists>p. au_writer au (cr_bearer cr) = Inr p \<and> who = Some p)"
  "pass au cfg F_superuser cr = Inr who \<longleftrightarrow> (\<exists>p. au_superuser au (cr_bearer cr) = Inr p \<and> who = Some p)"
  "pass au cfg F_service cr = Inr who \<longleftrightarrow> (\<exists>x. require_service_token cfg (cr_authorization cr) = Inr x \<and> who = None)"
  by (simp_all add: map_sum_Inr)

text \<open>The dependencies of a route: the router's floor, the route's limiter, the signature's tier.\<close>

datatype limit_dep = PerUser limiter | PerOptionalUser limiter | PerAddress limiter

record gate =
  ga_mounted :: floor
  ga_limiter :: "limit_dep option"
  ga_signature :: floor

section \<open>The deployment and the request\<close>

record scan_payload =
  sc_object_id :: uuid
  sc_bucket :: string
  sc_object_key :: ustr
  sc_owner_user_id :: uuid

definition scan_payload_of :: "media_object \<Rightarrow> scan_payload" where
  "scan_payload_of obj = \<lparr>sc_object_id = mo_id obj, sc_bucket = mo_storage_bucket obj,
     sc_object_key = mo_object_key obj, sc_owner_user_id = mo_owner_user_id obj\<rparr>"

text \<open>
  What the deployment supplies beyond \<open>service_env\<close>. An enqueue function is \<open>False\<close> when
  the queue raised.
\<close>

record ('s, 'c, 'r) http_env =
  ht_service :: "('s, 'c) service_env"
  ht_auth :: auth_api
  ht_cursor :: py_codec
  ht_redis :: "'r redis_api"
  ht_printable :: "nat \<Rightarrow> bool"
  ht_enqueue_scan :: "scan_payload \<Rightarrow> bool"
  ht_enqueue_variants :: "variant_job_payload \<Rightarrow> bool"
  ht_enqueue_export :: "export_payload \<Rightarrow> bool"
  ht_stamps :: "category \<Rightarrow> row_stamps"      \<comment> \<open>the columns \<open>TimestampMixin\<close> keeps\<close>
  ht_handle_exception :: "err \<Rightarrow> err"       \<comment> \<open>\<open>BaseController.handle_exception\<close>\<close>

abbreviation ht_settings :: "('s, 'c, 'r) http_env \<Rightarrow> settings" where
  "ht_settings env \<equiv> sv_settings (ht_service env)"

abbreviation ht_storage :: "('s, 'c, 'r) http_env \<Rightarrow> 's storage_api" where
  "ht_storage env \<equiv> sv_storage (ht_service env)"

text \<open>The clock readings and fresh ids of one call, and whether the database accepts its commit.\<close>

record call_context =
  cx_now :: datetime
  cx_now2 :: datetime
  cx_now3 :: datetime
  cx_fresh :: uuid
  cx_fresh2 :: uuid
  cx_commit_ok :: bool
  cx_civil :: civil     \<comment> \<open>\<open>datetime.now(timezone.utc)\<close> by its fields\<close>

datatype reply =
    RP_none
  | RP_page object_page
  | RP_object media_object_public
  | RP_url ustr datetime
  | RP_initiated upload_initiate_response
  | RP_variant_job variant_job
  | RP_variants "media_variant list" nat
  | RP_variant media_variant
  | RP_share share_token_public
  | RP_shares "share_token_public list" nat
  | RP_presets "image_preset_public list"
  | RP_preset image_preset_public
  | RP_categories "category list" nat
  | RP_tree "category_node list" int
  | RP_category category
  | RP_export export_answer
  | RP_export_job export_job_public
  | RP_import import_report
  | RP_stats storage_stats
  | RP_stale nat "upload_session list"
  | RP_purged nat
  | RP_quota storage_usage_public
  | RP_orphans orphan_report
  | RP_subscription subscription_public
  | RP_subscriptions nat "subscription_public list"
  | RP_activity users_activity

text \<open>A handler's result as a reply, over the world, the database or neither.\<close>

definition answer :: "('a \<Rightarrow> reply) \<Rightarrow> 'a result \<times> 's world \<Rightarrow> reply result \<times> 's world" where
  "answer f rw = (map_sum id f (fst rw), snd rw)"

definition answer_db :: "('a \<Rightarrow> reply) \<Rightarrow> 's world \<Rightarrow> 'a result \<times> database \<Rightarrow> reply result \<times> 's world" where
  "answer_db f w rd = (map_sum id f (fst rd), w\<lparr>w_db := snd rd\<rparr>)"

definition answer_read :: "('a \<Rightarrow> reply) \<Rightarrow> 's world \<Rightarrow> 'a result \<Rightarrow> reply result \<times> 's world" where
  "answer_read f w r = (map_sum id f r, w)"

text \<open>A handler whose signature names a tier receives that principal.\<close>

definition as_user ::
  "principal option \<Rightarrow> 's world \<Rightarrow> (principal \<Rightarrow> reply result \<times> 's world) \<Rightarrow> reply result \<times> 's world" where
  "as_user current_user w body =
     (case current_user of Some p \<Rightarrow> body p | None \<Rightarrow> (Inl (Raised ''TypeError''), w))"

text \<open>A request body FastAPI refuses before the handler runs.\<close>

definition unprocessable :: err where
  "unprocessable = Http 422 (DText ''Validation error'')"

definition validated :: "bool \<Rightarrow> 's world \<Rightarrow> reply result \<times> 's world \<Rightarrow> reply result \<times> 's world" where
  "validated ok w handled = (if ok then handled else (Inl unprocessable, w))"

section \<open>Objects\<close>

text \<open>The request schemas: a rename passes the filename policy, a filing is bounded.\<close>

definition filing_valid :: "int list option option \<Rightarrow> bool" where
  "filing_valid ids \<longleftrightarrow> (case ids of Some (Some l) \<Rightarrow> length l \<le> MAX_CATEGORY_ASSIGNMENTS | _ \<Rightarrow> True)"

definition validate_update :: "unicode_db \<Rightarrow> media_object_update \<Rightarrow> media_object_update result" where
  "validate_update U upd =
     (if \<not> filing_valid (mu_category_ids upd) then Inl unprocessable
      else case mu_original_filename upd of
        Some (Some name) \<Rightarrow>
          (case validate_filename U name of
             Inl _ \<Rightarrow> Inl unprocessable
           | Inr clean \<Rightarrow> Inr (upd\<lparr>mu_original_filename := Some (Some clean)\<rparr>))
      | _ \<Rightarrow> Inr upd)"

datatype objects_route =
    GET_objects object_list_params
  | GET_object uuid
  | GET_download_url uuid
  | PATCH_object uuid media_object_update
  | DELETE_object uuid

fun objects_gate :: "objects_route \<Rightarrow> gate" where
  "objects_gate (GET_objects params) = \<lparr>ga_mounted = F_open,
     ga_limiter = Some (PerOptionalUser (route_limiter ''objects:list'' 120)), ga_signature = F_optional\<rparr>"
| "objects_gate (GET_object i) = \<lparr>ga_mounted = F_open, ga_limiter = None, ga_signature = F_optional\<rparr>"
| "objects_gate (GET_download_url i) = \<lparr>ga_mounted = F_open,
     ga_limiter = Some (PerOptionalUser (route_limiter ''objects:download-url'' 60)), ga_signature = F_optional\<rparr>"
| "objects_gate (PATCH_object i upd) = \<lparr>ga_mounted = F_writer, ga_limiter = None, ga_signature = F_writer\<rparr>"
| "objects_gate (DELETE_object i) = \<lparr>ga_mounted = F_writer, ga_limiter = None, ga_signature = F_writer\<rparr>"

fun objects_handler ::
  "('s, 'c, 'r) http_env \<Rightarrow> call_context \<Rightarrow> principal option \<Rightarrow> objects_route \<Rightarrow> 's world \<Rightarrow> reply result \<times> 's world" where
  "objects_handler env cx who (GET_objects params) w =
     validated (list_params_valid params) w
       (answer_read RP_page w (list_objects (sv_text (ht_service env)) (ht_cursor env) (w_db w) who params))"
| "objects_handler env cx who (GET_object i) w = answer_read RP_object w (get_object (w_db w) who i)"
| "objects_handler env cx who (GET_download_url i) w =
     answer (\<lambda>(url, t). RP_url url t) (download_url (ht_settings env) (ht_storage env) w who i (cx_now cx))"
| "objects_handler env cx who (PATCH_object i upd) w = as_user who w (\<lambda>p.
     case validate_update (sv_unicode (ht_service env)) upd of
       Inl e \<Rightarrow> (Inl e, w)
     | Inr upd' \<Rightarrow> answer RP_object
         (update_object (ht_settings env) (ht_storage env) w p i upd' (cx_now cx) (cx_commit_ok cx)))"
| "objects_handler env cx who (DELETE_object i) w = as_user who w (\<lambda>p. answer (\<lambda>_. RP_none)
     (delete_object (ht_settings env) (ht_storage env) w p i (cx_fresh cx) (cx_now cx)))"

section \<open>Uploads\<close>

datatype uploads_route =
    POST_initiate upload_initiate_request
  | POST_complete uuid upload_complete_request
  | POST_abort uuid

fun uploads_gate :: "uploads_route \<Rightarrow> gate" where
  "uploads_gate (POST_initiate req) = \<lparr>ga_mounted = F_writer,
     ga_limiter = Some (PerUser (route_limiter ''uploads:initiate'' 20)), ga_signature = F_writer\<rparr>"
| "uploads_gate (POST_complete i req) = \<lparr>ga_mounted = F_writer,
     ga_limiter = Some (PerUser (route_limiter ''uploads:complete'' 20)), ga_signature = F_writer\<rparr>"
| "uploads_gate (POST_abort i) = \<lparr>ga_mounted = F_writer, ga_limiter = None, ga_signature = F_writer\<rparr>"

text \<open>The completion route commits first and queues the scan second: a failing queue raises after the commit.\<close>

definition complete_then_enqueue ::
  "('s, 'c, 'r) http_env \<Rightarrow> 's world \<Rightarrow> principal \<Rightarrow> uuid \<Rightarrow> upload_complete_request \<Rightarrow> datetime \<Rightarrow>
   reply result \<times> 's world" where
  "complete_then_enqueue env w p i req now =
     (case complete_upload (en_upload (sv_import (ht_service env))) (ht_settings env) (ht_storage env) w p i req now of
        (Inl e, w') \<Rightarrow> (Inl e, w')
      | (Inr public, w') \<Rightarrow>
          if ht_enqueue_scan env (scan_payload_of (mop_object public)) then (Inr (RP_object public), w')
          else (Inl (Raised ''ConnectionError''), w'))"

fun uploads_handler ::
  "('s, 'c, 'r) http_env \<Rightarrow> call_context \<Rightarrow> principal option \<Rightarrow> uploads_route \<Rightarrow> 's world \<Rightarrow> reply result \<times> 's world" where
  "uploads_handler env cx who (POST_initiate req) w = as_user who w (\<lambda>p.
     case validate_initiate (sv_unicode (ht_service env)) (ht_settings env) req of
       Inl e \<Rightarrow> (Inl e, w)
     | Inr req' \<Rightarrow> answer RP_initiated (initiate_upload (en_upload (sv_import (ht_service env))) (ht_settings env)
         (ht_storage env) w p req' (cx_fresh cx) (cx_now cx)))"
| "uploads_handler env cx who (POST_complete i req) w = as_user who w (\<lambda>p.
     validated (filing_valid (Some (uc_category_ids req))) w (complete_then_enqueue env w p i req (cx_now cx)))"
| "uploads_handler env cx who (POST_abort i) w = as_user who w (\<lambda>p.
     answer (\<lambda>_. RP_none) (abort_upload (ht_storage env) w p i))"

section \<open>Variants\<close>

datatype variants_route =
    POST_generate uuid "ustr list"
  | GET_variants uuid
  | GET_variant_job uuid uuid
  | DELETE_variant uuid uuid

fun variants_gate :: "variants_route \<Rightarrow> gate" where
  "variants_gate (POST_generate i presets) = \<lparr>ga_mounted = F_writer,
     ga_limiter = Some (PerUser (route_limiter ''variants:generate'' 30)), ga_signature = F_writer\<rparr>"
| "variants_gate (GET_variants i) = \<lparr>ga_mounted = F_open, ga_limiter = None, ga_signature = F_optional\<rparr>"
| "variants_gate (GET_variant_job i j) = \<lparr>ga_mounted = F_open, ga_limiter = None, ga_signature = F_reader\<rparr>"
| "variants_gate (DELETE_variant i v) = \<lparr>ga_mounted = F_writer, ga_limiter = None, ga_signature = F_writer\<rparr>"

definition generate_then_enqueue ::
  "('s, 'c, 'r) http_env \<Rightarrow> 's world \<Rightarrow> principal \<Rightarrow> uuid \<Rightarrow> ustr list \<Rightarrow> uuid \<Rightarrow> datetime \<Rightarrow> reply result \<times> 's world" where
  "generate_then_enqueue env w p i presets fresh now =
     (case generate (sv_unicode (ht_service env)) (w_db w) p i presets fresh now of
        (Inl e, db') \<Rightarrow> (Inl e, w\<lparr>w_db := db'\<rparr>)
      | (Inr (job, payload), db') \<Rightarrow>
          if ht_enqueue_variants env payload then (Inr (RP_variant_job job), w\<lparr>w_db := db'\<rparr>)
          else (Inl (Raised ''ConnectionError''), w\<lparr>w_db := db'\<rparr>))"

fun variants_handler ::
  "('s, 'c, 'r) http_env \<Rightarrow> call_context \<Rightarrow> principal option \<Rightarrow> variants_route \<Rightarrow> 's world \<Rightarrow> reply result \<times> 's world" where
  "variants_handler env cx who (POST_generate i presets) w = as_user who w (\<lambda>p.
     case validate_generate presets of
       Inl e \<Rightarrow> (Inl e, w)
     | Inr names \<Rightarrow> generate_then_enqueue env w p i names (cx_fresh cx) (cx_now cx))"
| "variants_handler env cx who (GET_variants i) w =
     answer_read (\<lambda>(vs, n). RP_variants vs n) w (list_variants (w_db w) who i)"
| "variants_handler env cx who (GET_variant_job i j) w = as_user who w (\<lambda>p.
     answer_read RP_variant_job w (get_job (w_db w) p i j))"
| "variants_handler env cx who (DELETE_variant i v) w = as_user who w (\<lambda>p.
     answer (\<lambda>_. RP_none) (delete_variant (ht_storage env) w p i v))"

section \<open>Shares\<close>

datatype shares_route =
    POST_share uuid share_token_create
  | GET_shares uuid
  | DELETE_share uuid
  | GET_share_token ustr

fun shares_gate :: "shares_route \<Rightarrow> gate" where
  "shares_gate (POST_share i body) = \<lparr>ga_mounted = F_reader, ga_limiter = None, ga_signature = F_writer\<rparr>"
| "shares_gate (GET_shares i) = \<lparr>ga_mounted = F_reader, ga_limiter = None, ga_signature = F_reader\<rparr>"
| "shares_gate (DELETE_share t) = \<lparr>ga_mounted = F_reader, ga_limiter = None, ga_signature = F_writer\<rparr>"
| "shares_gate (GET_share_token token) = \<lparr>ga_mounted = F_open,
     ga_limiter = Some (PerAddress (route_limiter ''shares:resolve'' 60)), ga_signature = F_open\<rparr>"

fun shares_handler ::
  "('s, 'c, 'r) http_env \<Rightarrow> call_context \<Rightarrow> principal option \<Rightarrow> shares_route \<Rightarrow> 's world \<Rightarrow> reply result \<times> 's world" where
  "shares_handler env cx who (POST_share i body) w = as_user who w (\<lambda>p. validated (share_create_valid body) w
     (answer RP_share (create_share (sv_share (ht_service env)) (ht_settings env) w p i body (cx_fresh cx) (cx_now cx))))"
| "shares_handler env cx who (GET_shares i) w = as_user who w (\<lambda>p.
     answer_read (\<lambda>(ss, n). RP_shares ss n) w (list_shares (sv_share (ht_service env)) w p i))"
| "shares_handler env cx who (DELETE_share t) w = as_user who w (\<lambda>p. answer_db (\<lambda>_. RP_none) w (revoke_share (w_db w) p t))"
| "shares_handler env cx who (GET_share_token token) w = answer (\<lambda>(url, t). RP_url url t)
     (resolve_share (sv_share (ht_service env)) (ht_settings env) (ht_storage env) w token (cx_now cx) (cx_now2 cx) (cx_now3 cx))"

section \<open>Presets\<close>

datatype presets_route =
    GET_presets
  | POST_preset ustr preset_spec
  | PATCH_preset uuid preset_spec
  | DELETE_preset uuid

fun presets_gate :: "presets_route \<Rightarrow> gate" where
  "presets_gate GET_presets = \<lparr>ga_mounted = F_reader, ga_limiter = None, ga_signature = F_reader\<rparr>"
| "presets_gate (POST_preset name spec) = \<lparr>ga_mounted = F_reader, ga_limiter = None, ga_signature = F_writer\<rparr>"
| "presets_gate (PATCH_preset i spec) = \<lparr>ga_mounted = F_reader, ga_limiter = None, ga_signature = F_writer\<rparr>"
| "presets_gate (DELETE_preset i) = \<lparr>ga_mounted = F_reader, ga_limiter = None, ga_signature = F_writer\<rparr>"

definition preset_body_valid :: "ustr option \<Rightarrow> preset_spec \<Rightarrow> bool" where
  "preset_body_valid name spec \<longleftrightarrow> model_validate_spec spec = Inr spec \<and>
     (case name of None \<Rightarrow> True | Some n \<Rightarrow> 1 \<le> length n \<and> length n \<le> 64)"

fun presets_handler ::
  "('s, 'c, 'r) http_env \<Rightarrow> call_context \<Rightarrow> principal option \<Rightarrow> presets_route \<Rightarrow> 's world \<Rightarrow> reply result \<times> 's world" where
  "presets_handler env cx who GET_presets w = as_user who w (\<lambda>p. answer_read RP_presets w (list_presets (w_db w) p))"
| "presets_handler env cx who (POST_preset name spec) w = as_user who w (\<lambda>p. validated (preset_body_valid (Some name) spec) w
     (answer_db RP_preset w (create_preset (w_db w) p name spec (cx_fresh cx) (cx_now cx))))"
| "presets_handler env cx who (PATCH_preset i spec) w = as_user who w (\<lambda>p. validated (preset_body_valid None spec) w
     (answer_db RP_preset w (update_preset (w_db w) p i spec (cx_now cx))))"
| "presets_handler env cx who (DELETE_preset i) w = as_user who w (\<lambda>p. answer_db (\<lambda>_. RP_none) w (delete_preset (w_db w) p i))"

section \<open>Categories\<close>

text \<open>\<open>skip\<close> and \<open>limit\<close> are natural numbers here; a negative one is refused by the database.\<close>

datatype category_route =
    GET_categories nat nat
  | GET_category_tree
  | GET_category int
  | POST_category ustr "int option option"
  | PUT_category int ustr "int option option"
  | DELETE_category int

fun category_gate :: "category_route \<Rightarrow> gate" where
  "category_gate (GET_categories skip limit) = \<lparr>ga_mounted = F_reader, ga_limiter = None, ga_signature = F_reader\<rparr>"
| "category_gate GET_category_tree = \<lparr>ga_mounted = F_reader, ga_limiter = None, ga_signature = F_reader\<rparr>"
| "category_gate (GET_category i) = \<lparr>ga_mounted = F_reader, ga_limiter = None, ga_signature = F_reader\<rparr>"
| "category_gate (POST_category name parent) = \<lparr>ga_mounted = F_reader, ga_limiter = None, ga_signature = F_writer\<rparr>"
| "category_gate (PUT_category i name parent) = \<lparr>ga_mounted = F_reader, ga_limiter = None, ga_signature = F_writer\<rparr>"
| "category_gate (DELETE_category i) = \<lparr>ga_mounted = F_reader, ga_limiter = None, ga_signature = F_writer\<rparr>"

fun category_handler ::
  "('s, 'c, 'r) http_env \<Rightarrow> call_context \<Rightarrow> principal option \<Rightarrow> category_route \<Rightarrow> 's world \<Rightarrow> reply result \<times> 's world" where
  "category_handler env cx who (GET_categories skip limit) w = as_user who w (\<lambda>p.
     answer_read (\<lambda>(cs, n). RP_categories cs n) w (Inr (list_categories (w_db w) p skip limit)))"
| "category_handler env cx who GET_category_tree w = as_user who w (\<lambda>p.
     answer_read (\<lambda>(ns, n). RP_tree ns n) w (Inr (get_category_tree (sv_unicode (ht_service env)) (w_db w) p)))"
| "category_handler env cx who (GET_category i) w = as_user who w (\<lambda>p. answer_read RP_category w (get_category (w_db w) p i))"
| "category_handler env cx who (POST_category name parent) w = as_user who w (\<lambda>p.
     case generate_slug (en_slugify (sv_import (ht_service env))) name parent of
       Inl e \<Rightarrow> (Inl e, w)
     | Inr req \<Rightarrow> answer_db RP_category w (create_category (ht_settings env) (w_db w) p req))"
| "category_handler env cx who (PUT_category i name parent) w = as_user who w (\<lambda>p.
     case generate_slug (en_slugify (sv_import (ht_service env))) name parent of
       Inl e \<Rightarrow> (Inl e, w)
     | Inr req \<Rightarrow> answer_db RP_category w (update_category (ht_settings env) (w_db w) p i req))"
| "category_handler env cx who (DELETE_category i) w = as_user who w (\<lambda>p. answer_db (\<lambda>_. RP_none) w (delete_category (w_db w) p i))"

section \<open>Export and import\<close>

datatype transfer_route =
    POST_export export_request
  | GET_export uuid
  | POST_import transfer_format "blob list"

fun transfer_gate :: "transfer_route \<Rightarrow> gate" where
  "transfer_gate (POST_export body) = \<lparr>ga_mounted = F_writer, ga_limiter = None, ga_signature = F_writer\<rparr>"
| "transfer_gate (GET_export i) = \<lparr>ga_mounted = F_reader, ga_limiter = None, ga_signature = F_reader\<rparr>"
| "transfer_gate (POST_import fmt source) = \<lparr>ga_mounted = F_writer,
     ga_limiter = Some (PerUser (route_limiter ''transfer:import'' 5)), ga_signature = F_writer\<rparr>"

fun transfer_handler ::
  "('s, 'c, 'r) http_env \<Rightarrow> call_context \<Rightarrow> principal option \<Rightarrow> transfer_route \<Rightarrow> 's world \<Rightarrow> reply result \<times> 's world" where
  "transfer_handler env cx who (POST_export body) w = as_user who w (\<lambda>p.
     validated (case xr_filters body of None \<Rightarrow> True | Some params \<Rightarrow> list_params_valid params) w
     (answer_db RP_export w (export_media (sv_unicode (ht_service env)) (sv_text (ht_service env)) (sv_codec (ht_service env))
        (ht_settings env) (ht_enqueue_export env) (w_db w) p body (cx_fresh cx) (cx_now cx))))"
| "transfer_handler env cx who (GET_export i) w = as_user who w (\<lambda>p.
     answer_read RP_export_job w (get_export_job (ht_settings env) (ht_storage env) (w_db w) p i (cx_now cx)))"
| "transfer_handler env cx who (POST_import fmt source) w = as_user who w (\<lambda>p. answer RP_import
     (import_media (sv_import (ht_service env)) (ht_settings env) (ht_storage env)
        (\<lambda>obj. ht_enqueue_scan env (scan_payload_of obj)) w p fmt source (cx_now cx)))"

section \<open>The internal surface\<close>

datatype internal_route =
    PATCH_export_job uuid export_job_update
  | POST_scan_result uuid scan_status
  | POST_variant uuid variant_register_request
  | PATCH_variant_job uuid variant_job_update

fun internal_gate :: "internal_route \<Rightarrow> gate" where
  "internal_gate r = \<lparr>ga_mounted = F_service, ga_limiter = None, ga_signature = F_open\<rparr>"

definition register_body_valid :: "variant_register_request \<Rightarrow> bool" where
  "register_body_valid body \<longleftrightarrow> 1 \<le> length (vr_variant_name body) \<and> length (vr_variant_name body) \<le> 64 \<and>
     3 \<le> length (vr_storage_bucket body) \<and> length (vr_storage_bucket body) \<le> 63 \<and>
     1 \<le> length (vr_object_key body) \<and> length (vr_object_key body) \<le> 1024 \<and> opt_ge 1 (vr_width body) \<and>
     opt_ge 1 (vr_height body) \<and> 0 \<le> vr_size_bytes body \<and> 1 \<le> length (vr_format body) \<and> length (vr_format body) \<le> 32"

definition job_body_valid :: "variant_job_update \<Rightarrow> bool" where
  "job_body_valid body \<longleftrightarrow> opt_ge 0 (vu_variants_created body) \<and>
     (case vu_error body of None \<Rightarrow> True | Some text \<Rightarrow> length text \<le> 1024)"

fun internal_handler ::
  "('s, 'c, 'r) http_env \<Rightarrow> call_context \<Rightarrow> internal_route \<Rightarrow> 's world \<Rightarrow> reply result \<times> 's world" where
  "internal_handler env cx (PATCH_export_job i body) w = validated (export_update_valid body) w
     (answer_db RP_export_job w (update_export_job (ht_settings env) (w_db w) i body (cx_now cx)))"
| "internal_handler env cx (POST_scan_result i verdict) w =
     answer RP_object (apply_scan_result w i verdict (cx_fresh cx) (cx_now cx))"
| "internal_handler env cx (POST_variant i body) w = validated (register_body_valid body) w
     (answer_db RP_variant w (register_variant (w_db w) i body (cx_fresh cx) (cx_fresh2 cx) (cx_now cx)))"
| "internal_handler env cx (PATCH_variant_job j body) w = validated (job_body_valid body) w
     (answer_db RP_variant_job w (update_job_status (w_db w) j body (cx_now cx)))"

section \<open>The administrative surface\<close>

datatype admin_route =
    GET_storage_stats
  | GET_stale_uploads
  | POST_purge_stale
  | GET_quota uuid "uuid option"
  | PUT_quota uuid quota_update "uuid option"
  | GET_orphans
  | POST_repair_orphans bool
  | POST_purge_expired
  | POST_subscription subscription_create
  | GET_subscriptions
  | DELETE_subscription uuid

fun admin_gate :: "admin_route \<Rightarrow> gate" where
  "admin_gate r = \<lparr>ga_mounted = F_superuser, ga_limiter = None, ga_signature = F_open\<rparr>"

text \<open>The reconciliation over all buckets with the configured grace and bound.\<close>

definition sweep_orphans ::
  "('s, 'c, 'r) http_env \<Rightarrow> 's world \<Rightarrow> datetime \<Rightarrow> bool \<Rightarrow> orphan_report result \<times> 's world" where
  "sweep_orphans env w now repair =
     reconcile_orphans (ht_storage env) w now (all_buckets (ht_settings env))
       (seconds (60 * MEDIA_RECONCILE_GRACE_MINUTES (ht_settings env)))
       (nat (MEDIA_RECONCILE_BATCH_LIMIT (ht_settings env))) repair"

fun admin_handler ::
  "('s, 'c, 'r) http_env \<Rightarrow> call_context \<Rightarrow> admin_route \<Rightarrow> 's world \<Rightarrow> reply result \<times> 's world" where
  "admin_handler env cx GET_storage_stats w = answer_read RP_stats w (Inr (get_storage_stats (ht_settings env) (w_db w)))"
| "admin_handler env cx GET_stale_uploads w =
     answer_read (\<lambda>(n, ss). RP_stale n ss) w (get_stale_uploads (sv_takes_naive (ht_service env)) (w_db w) (cx_now cx))"
| "admin_handler env cx POST_purge_stale w =
     answer RP_purged (purge_stale_uploads (sv_takes_naive (ht_service env)) (ht_storage env) w (cx_now cx))"
| "admin_handler env cx (GET_quota owner tenant) w =
     (let (r, db') = get_quota (ht_settings env) (w_db w) owner tenant (cx_now cx) in (Inr (RP_quota r), w\<lparr>w_db := db'\<rparr>))"
| "admin_handler env cx (PUT_quota owner upd tenant) w =
     (let (r, db') = set_quota (ht_settings env) (w_db w) owner upd tenant (cx_now cx) in (Inr (RP_quota r), w\<lparr>w_db := db'\<rparr>))"
| "admin_handler env cx GET_orphans w = answer RP_orphans (sweep_orphans env w (cx_now cx) False)"
| "admin_handler env cx (POST_repair_orphans confirm) w = answer RP_orphans (sweep_orphans env w (cx_now cx) confirm)"
| "admin_handler env cx POST_purge_expired w =
     (let (n, w') = hard_purge_expired (ht_storage env) w (cx_now cx)
        (seconds (86400 * MEDIA_RETENTION_PURGE_DAYS (ht_settings env))) (nat (MEDIA_PURGE_BATCH_LIMIT (ht_settings env)))
      in (Inr (RP_purged n), w'))"
| "admin_handler env cx (POST_subscription req) w =
     (case validate_subscription req of
        Inl e \<Rightarrow> (Inl e, w)
      | Inr req' \<Rightarrow> answer_db RP_subscription w (create_subscription (sv_unicode (ht_service env)) (sv_nfkc (ht_service env))
          (sv_policy (ht_service env)) (sv_show_error (ht_service env)) (w_db w) req' (cx_fresh cx) (cx_now cx)))"
| "admin_handler env cx GET_subscriptions w = answer_read (\<lambda>(n, ss). RP_subscriptions n ss) w (Inr (list_subscriptions (w_db w)))"
| "admin_handler env cx (DELETE_subscription i) w = answer_db (\<lambda>_. RP_none) w (delete_subscription (w_db w) i)"

section \<open>The dashboard\<close>

datatype dashboard_route = GET_activity | GET_activity_current

fun dashboard_gate :: "dashboard_route \<Rightarrow> gate" where
  "dashboard_gate r = \<lparr>ga_mounted = F_writer, ga_limiter = None, ga_signature = F_writer\<rparr>"

fun dashboard_handler ::
  "('s, 'c, 'r) http_env \<Rightarrow> call_context \<Rightarrow> principal option \<Rightarrow> dashboard_route \<Rightarrow> 's world \<Rightarrow> reply result \<times> 's world" where
  "dashboard_handler env cx who GET_activity w = as_user who w (\<lambda>p. answer_read RP_activity w
     (get_dash_users_stats (ht_handle_exception env) (ht_stamps env) (w_db w) p RANGE_MONTH False (cx_civil cx)))"
| "dashboard_handler env cx who GET_activity_current w = as_user who w (\<lambda>p. answer_read RP_activity w
     (get_dash_users_stats (ht_handle_exception env) (ht_stamps env) (w_db w) p RANGE_MONTH True (cx_civil cx)))"

section \<open>One request\<close>

datatype endpoint =
    Objects objects_route | Uploads uploads_route | Variants variants_route | Shares shares_route | Presets presets_route
  | Category category_route | Transfer transfer_route | Internal internal_route | Admin admin_route
  | Dashboard dashboard_route

fun gate_of :: "endpoint \<Rightarrow> gate" where
  "gate_of (Objects r) = objects_gate r"
| "gate_of (Uploads r) = uploads_gate r"
| "gate_of (Variants r) = variants_gate r"
| "gate_of (Shares r) = shares_gate r"
| "gate_of (Presets r) = presets_gate r"
| "gate_of (Category r) = category_gate r"
| "gate_of (Transfer r) = transfer_gate r"
| "gate_of (Internal r) = internal_gate r"
| "gate_of (Admin r) = admin_gate r"
| "gate_of (Dashboard r) = dashboard_gate r"

fun run_handler ::
  "('s, 'c, 'r) http_env \<Rightarrow> call_context \<Rightarrow> principal option \<Rightarrow> endpoint \<Rightarrow> 's world \<Rightarrow> reply result \<times> 's world" where
  "run_handler env cx who (Objects r) w = objects_handler env cx who r w"
| "run_handler env cx who (Uploads r) w = uploads_handler env cx who r w"
| "run_handler env cx who (Variants r) w = variants_handler env cx who r w"
| "run_handler env cx who (Shares r) w = shares_handler env cx who r w"
| "run_handler env cx who (Presets r) w = presets_handler env cx who r w"
| "run_handler env cx who (Category r) w = category_handler env cx who r w"
| "run_handler env cx who (Transfer r) w = transfer_handler env cx who r w"
| "run_handler env cx who (Internal r) w = internal_handler env cx r w"
| "run_handler env cx who (Admin r) w = admin_handler env cx r w"
| "run_handler env cx who (Dashboard r) w = dashboard_handler env cx who r w"

record http_request =
  hq_credentials :: credentials
  hq_peer :: "ustr option"
  hq_at :: datetime
  hq_context :: call_context
  hq_endpoint :: endpoint

datatype refusal = Refused err | Limited rate_error

text \<open>The limiter dependency: it first resolves the caller it counts.\<close>

definition check_limit ::
  "('s, 'c, 'r) http_env \<Rightarrow> limit_dep option \<Rightarrow> http_request \<Rightarrow> 'r limiter_state \<Rightarrow> (refusal + unit) \<times> 'r limiter_state" where
  "check_limit env dep rq ls =
     (let call = (\<lambda>c. let (r, ls') = rate_call (ht_redis env) (ht_printable env) (ht_settings env)
              \<lparr>rq_at = hq_at rq, rq_peer = hq_peer rq, rq_call = c\<rparr> ls
            in (map_sum Limited id r, ls'))
      in case dep of
           None \<Rightarrow> (Inr (), ls)
         | Some (PerUser lm) \<Rightarrow>
             (case au_user (ht_auth env) (cr_bearer (hq_credentials rq)) of
                Inl e \<Rightarrow> (Inl (Refused e), ls) | Inr p \<Rightarrow> call (UserCall lm p))
         | Some (PerOptionalUser lm) \<Rightarrow>
             (case pass (ht_auth env) (ht_settings env) F_optional (hq_credentials rq) of
                Inl e \<Rightarrow> (Inl (Refused e), ls) | Inr who \<Rightarrow> call (OptionalCall lm who))
         | Some (PerAddress lm) \<Rightarrow> call (AnonCall lm))"

definition handle ::
  "('s, 'c, 'r) http_env \<Rightarrow> http_request \<Rightarrow> 's world \<times> 'r limiter_state \<Rightarrow>
   (refusal + reply) \<times> 's world \<times> 'r limiter_state" where
  "handle env rq st =
     (let (w, ls) = st; g = gate_of (hq_endpoint rq);
          enter = (\<lambda>f. pass (ht_auth env) (ht_settings env) f (hq_credentials rq))
      in case enter (ga_mounted g) of
           Inl e \<Rightarrow> (Inl (Refused e), w, ls)
         | Inr _ \<Rightarrow>
             (case check_limit env (ga_limiter g) rq ls of
                (Inl x, ls') \<Rightarrow> (Inl x, w, ls')
              | (Inr _, ls') \<Rightarrow>
                  (case enter (ga_signature g) of
                     Inl e \<Rightarrow> (Inl (Refused e), w, ls')
                   | Inr who \<Rightarrow>
                       (let (r, w') = run_handler env (hq_context rq) who (hq_endpoint rq) w
                        in (map_sum Refused id r, w', ls')))))"

section \<open>What a request writes\<close>

text \<open>
  The service request an HTTP request amounts to for the database: \<open>None\<close> when it only
  reads or its body is refused.
\<close>

definition for_user :: "principal option \<Rightarrow> (principal \<Rightarrow> service_request option) \<Rightarrow> service_request option" where
  "for_user who f = (case who of None \<Rightarrow> None | Some p \<Rightarrow> f p)"

definition when_valid :: "err + 'a \<Rightarrow> ('a \<Rightarrow> service_request) \<Rightarrow> service_request option" where
  "when_valid r f = (case r of Inl _ \<Rightarrow> None | Inr x \<Rightarrow> Some (f x))"

fun write_of :: "('s, 'c, 'r) http_env \<Rightarrow> call_context \<Rightarrow> principal option \<Rightarrow> endpoint \<Rightarrow> service_request option" where
  "write_of env cx who (Objects (PATCH_object i upd)) = for_user who (\<lambda>p.
     when_valid (validate_update (sv_unicode (ht_service env)) upd) (\<lambda>upd'. R_patch p i upd' (cx_now cx) (cx_commit_ok cx)))"
| "write_of env cx who (Objects (DELETE_object i)) = for_user who (\<lambda>p. Some (R_delete p i (cx_fresh cx) (cx_now cx)))"
| "write_of env cx who (Uploads (POST_initiate req)) = for_user who (\<lambda>p.
     when_valid (validate_initiate (sv_unicode (ht_service env)) (ht_settings env) req)
       (\<lambda>req'. R_upload (Initiate p req' (cx_fresh cx) (cx_now cx))))"
| "write_of env cx who (Uploads (POST_complete i req)) = for_user who (\<lambda>p.
     if filing_valid (Some (uc_category_ids req)) then Some (R_upload (Complete p i req (cx_now cx))) else None)"
| "write_of env cx who (Uploads (POST_abort i)) = for_user who (\<lambda>p. Some (R_upload (Abort p i)))"
| "write_of env cx who (Variants (POST_generate i presets)) = for_user who (\<lambda>p.
     when_valid (validate_generate presets) (\<lambda>names. R_generate p i names (cx_fresh cx) (cx_now cx)))"
| "write_of env cx who (Variants (DELETE_variant i v)) = for_user who (\<lambda>p. Some (R_delete_variant p i v))"
| "write_of env cx who (Shares (POST_share i body)) = for_user who (\<lambda>p.
     if share_create_valid body then Some (R_share p i body (cx_fresh cx) (cx_now cx)) else None)"
| "write_of env cx who (Shares (DELETE_share t)) = for_user who (\<lambda>p. Some (R_revoke_share p t))"
| "write_of env cx who (Shares (GET_share_token token)) = Some (R_resolve_share token (cx_now cx) (cx_now2 cx) (cx_now3 cx))"
| "write_of env cx who (Presets (POST_preset name spec)) = for_user who (\<lambda>p.
     if preset_body_valid (Some name) spec then Some (R_create_preset p name spec (cx_fresh cx) (cx_now cx)) else None)"
| "write_of env cx who (Presets (PATCH_preset i spec)) = for_user who (\<lambda>p.
     if preset_body_valid None spec then Some (R_update_preset p i spec (cx_now cx)) else None)"
| "write_of env cx who (Presets (DELETE_preset i)) = for_user who (\<lambda>p. Some (R_delete_preset p i))"
| "write_of env cx who (Category (POST_category name parent)) = for_user who (\<lambda>p.
     when_valid (generate_slug (en_slugify (sv_import (ht_service env))) name parent) (\<lambda>req. R_create_category p req))"
| "write_of env cx who (Category (PUT_category i name parent)) = for_user who (\<lambda>p.
     when_valid (generate_slug (en_slugify (sv_import (ht_service env))) name parent) (\<lambda>req. R_update_category p i req))"
| "write_of env cx who (Category (DELETE_category i)) = for_user who (\<lambda>p. Some (R_delete_category p i))"
| "write_of env cx who (Transfer (POST_export body)) = for_user who (\<lambda>p.
     if (case xr_filters body of None \<Rightarrow> True | Some params \<Rightarrow> list_params_valid params)
     then Some (R_export (ht_enqueue_export env) p body (cx_fresh cx) (cx_now cx)) else None)"
| "write_of env cx who (Transfer (POST_import fmt source)) = for_user who (\<lambda>p. Some (R_import p fmt source (cx_now cx)))"
| "write_of env cx who (Internal (PATCH_export_job i body)) =
     (if export_update_valid body then Some (R_export_callback i body (cx_now cx)) else None)"
| "write_of env cx who (Internal (POST_scan_result i verdict)) = Some (R_scan i verdict (cx_fresh cx) (cx_now cx))"
| "write_of env cx who (Internal (POST_variant i body)) =
     (if register_body_valid body then Some (R_register_variant i body (cx_fresh cx) (cx_fresh2 cx) (cx_now cx)) else None)"
| "write_of env cx who (Internal (PATCH_variant_job j body)) =
     (if job_body_valid body then Some (R_job_status j body (cx_now cx)) else None)"
| "write_of env cx who (Admin POST_purge_stale) = Some (R_stale_purge (cx_now cx))"
| "write_of env cx who (Admin (GET_quota owner tenant)) = Some (R_get_quota owner tenant (cx_now cx))"
| "write_of env cx who (Admin (PUT_quota owner upd tenant)) = Some (R_set_quota owner upd tenant (cx_now cx))"
| "write_of env cx who (Admin POST_purge_expired) = Some (R_hard_purge (cx_now cx)
     (seconds (86400 * MEDIA_RETENTION_PURGE_DAYS (ht_settings env))) (nat (MEDIA_PURGE_BATCH_LIMIT (ht_settings env))))"
| "write_of env cx who (Admin (POST_subscription req)) =
     when_valid (validate_subscription req) (\<lambda>req'. R_subscribe req' (cx_fresh cx) (cx_now cx))"
| "write_of env cx who (Admin (DELETE_subscription i)) = Some (R_unsubscribe i)"
| "write_of env cx who e = None"

lemmas reply_rules = answer_def answer_db_def answer_read_def as_user_def validated_def for_user_def when_valid_def

lemma complete_then_enqueue_db:
  "w_db (snd (complete_then_enqueue env w p i req now)) =
     w_db (serve (ht_service env) (R_upload (Complete p i req now)) w)"
  by (simp add: complete_then_enqueue_def split: prod.split sum.split)

lemma generate_then_enqueue_db:
  "w_db (snd (generate_then_enqueue env w p i presets fresh now)) =
     w_db (serve (ht_service env) (R_generate p i presets fresh now) w)"
  by (simp add: generate_then_enqueue_def split: prod.split sum.split)

lemma import_media_world: "snd (import_media env cfg api enqueue w p fmt source now) = snd (run_import env cfg api w p fmt source now)"
  by (simp add: import_media_def split: prod.split sum.split)

lemma download_url_db: "w_db (snd (download_url cfg api w who i now)) = w_db w"
  by (simp add: download_url_def Let_def split: sum.split option.split)

text \<open>Every handler writes what the service request writes, and nothing when there is none.\<close>

lemma run_handler_writes:
  "w_db (snd (run_handler env cx who e w)) =
     (case write_of env cx who e of None \<Rightarrow> w_db w | Some sr \<Rightarrow> w_db (serve (ht_service env) sr w))"
proof (cases e)
  case (Objects r)
  then show ?thesis by (cases r) (auto simp: reply_rules download_url_db split: option.split sum.split)
next
  case (Uploads r)
  then show ?thesis by (cases r) (auto simp: reply_rules complete_then_enqueue_db split: option.split sum.split)
next
  case (Variants r)
  then show ?thesis by (cases r) (auto simp: reply_rules generate_then_enqueue_db split: option.split sum.split)
next
  case (Shares r)
  then show ?thesis by (cases r) (auto simp: reply_rules split: option.split sum.split)
next
  case (Presets r)
  then show ?thesis by (cases r) (auto simp: reply_rules split: option.split sum.split)
next
  case (Category r)
  then show ?thesis by (cases r) (auto simp: reply_rules split: option.split sum.split)
next
  case (Transfer r)
  then show ?thesis by (cases r) (auto simp: reply_rules import_media_world split: option.split sum.split)
next
  case (Internal r)
  then show ?thesis by (cases r) (auto simp: reply_rules split: option.split sum.split)
next
  case (Admin r)
  then show ?thesis
    by (cases r) (auto simp: reply_rules sweep_orphans_def reconcile_db [OF surjective_pairing] split: option.split sum.split prod.split)
next
  case (Dashboard r)
  then show ?thesis by (cases r) (auto simp: reply_rules split: option.split)
qed

lemma write_authority:
  assumes "write_of env cx who e = Some sr"
  obtains (user) p where "who = Some p" "caller sr = Some p" "ga_signature (gate_of e) = F_writer"
    | (share_link) token t1 t2 t3 where "sr = R_resolve_share token t1 t2 t3" "e = Shares (GET_share_token token)"
    | (service) "ga_mounted (gate_of e) = F_service"
    | (superuser) "ga_mounted (gate_of e) = F_superuser"
proof (cases e)
  case (Objects r)
  then show ?thesis using assms user by (cases r) (auto simp: reply_rules split: option.splits sum.splits)
next
  case (Uploads r)
  then show ?thesis using assms user by (cases r) (auto simp: reply_rules split: option.splits sum.splits if_splits)
next
  case (Variants r)
  then show ?thesis using assms user by (cases r) (auto simp: reply_rules split: option.splits sum.splits)
next
  case (Shares r)
  then show ?thesis using assms user share_link by (cases r) (auto simp: reply_rules split: option.splits if_splits)
next
  case (Presets r)
  then show ?thesis using assms user by (cases r) (auto simp: reply_rules split: option.splits if_splits)
next
  case (Category r)
  then show ?thesis using assms user by (cases r) (auto simp: reply_rules split: option.splits sum.splits)
next
  case (Transfer r)
  then show ?thesis using assms user by (cases r) (auto simp: reply_rules split: option.splits if_splits)
next
  case (Internal r)
  then show ?thesis using service by simp
next
  case (Admin r)
  then show ?thesis using superuser by simp
next
  case (Dashboard r)
  then show ?thesis using assms by (cases r) simp_all
qed

lemma handle_writes:
  assumes "handle env rq (w, ls) = (res, w', ls')"
  obtains "w_db w' = w_db w"
    | m who sr where "pass (ht_auth env) (ht_settings env) (ga_mounted (gate_of (hq_endpoint rq))) (hq_credentials rq) = Inr m"
      "pass (ht_auth env) (ht_settings env) (ga_signature (gate_of (hq_endpoint rq))) (hq_credentials rq) = Inr who"
      "write_of env (hq_context rq) who (hq_endpoint rq) = Some sr" "w_db w' = w_db (serve (ht_service env) sr w)"
proof -
  from assms consider "w' = w"
    | m who where "pass (ht_auth env) (ht_settings env) (ga_mounted (gate_of (hq_endpoint rq))) (hq_credentials rq) = Inr m"
      "pass (ht_auth env) (ht_settings env) (ga_signature (gate_of (hq_endpoint rq))) (hq_credentials rq) = Inr who"
      "w' = snd (run_handler env (hq_context rq) who (hq_endpoint rq) w)"
    by (auto simp: handle_def Let_def split: sum.splits prod.splits)
  then show ?thesis
  proof cases
    case (2 m who)
    then show ?thesis using that run_handler_writes [of env "hq_context rq" who "hq_endpoint rq" w]
      by (cases "write_of env (hq_context rq) who (hq_endpoint rq)") auto
  qed (use that in simp)
qed

section \<open>When the queue is down\<close>

text \<open>
  The completion commits before it queues the scan. When the queue raises, the client gets an
  error for an object that exists, unscanned; completing again is refused (409), so nothing
  ever scans it.
\<close>

lemma unqueued_scan_is_stuck:
  assumes down: "\<And>x. ht_enqueue_scan env x = False"
    and run: "complete_upload (en_upload (sv_import (ht_service env))) (ht_settings env) (ht_storage env) w p i req now = (Inr public, w')"
  shows "complete_then_enqueue env w p i req now = (Inl (Raised ''ConnectionError''), w') \<and>
    mop_object public \<in> set (db_objects (w_db w')) \<and> mo_scan_status (mop_object public) = SCAN_PENDING \<and>
    (\<exists>d. fst (complete_then_enqueue env w' p i req' retry_at) = Inl (Http 409 d))"
proof -
  from run obtain sess cats stat usage' ms s' where
    c: "completable (en_upload (sv_import (ht_service env))) (ht_settings env) (ht_storage env) w p i req now sess cats stat"
    and obj: "mop_object public = object_of_session sess (us_expected_mime_type sess) stat (uc_sha256 req) OBJ_UPLOADED now"
    and db: "w_db w' = put_session ((w_db w)\<lparr>db_objects := db_objects (w_db w) @ [mop_object public], db_usage := usage',
       db_links := refile (db_links (w_db w)) (us_id sess) cats\<rparr>) (sess\<lparr>us_status := SES_COMPLETED, us_completed_at := Some now\<rparr>)"
    by (rule complete_upload_effect)
  from c have got: "tbl_get us_id (db_sessions (w_db w)) i = Some sess" "p_superuser p \<or> us_owner_user_id sess = p_id p"
    by (auto simp: completable_def)
  have "load_owned_session (w_db w') p i = Inr (sess\<lparr>us_status := SES_COMPLETED, us_completed_at := Some now\<rparr>)"
    using got tbl_get_key [OF got(1)] by (simp add: load_owned_session_Inr db put_session_def table_simps)
  then have "\<exists>d. fst (complete_then_enqueue env w' p i req' retry_at) = Inl (Http 409 d)"
    by (simp add: complete_then_enqueue_def complete_upload_def ensure_completable_def)
  moreover have "complete_then_enqueue env w p i req now = (Inl (Raised ''ConnectionError''), w')"
    by (simp add: complete_then_enqueue_def run down)
  moreover have "mop_object public \<in> set (db_objects (w_db w'))" by (simp add: db put_session_def)
  ultimately show ?thesis by (simp add: obj object_of_session_def)
qed

text \<open>
  So does the generation of variants: the job row stays queued although no worker was told,
  which is what the export route takes care to avoid.
\<close>

lemma unqueued_variants_stay_queued:
  assumes "\<And>x. ht_enqueue_variants env x = False"
    and "generate (sv_unicode (ht_service env)) (w_db w) p i presets fresh now = (Inr (job, payload), db')"
  shows "generate_then_enqueue env w p i presets fresh now = (Inl (Raised ''ConnectionError''), w\<lparr>w_db := db'\<rparr>) \<and>
    job \<in> set (db_variant_jobs db') \<and> vj_status job = JOB_QUEUED"
  using assms
  by (auto simp: generate_then_enqueue_def generate_def Let_def split: sum.splits if_splits option.splits dest!: tbl_insert_appends)

section \<open>No authority, no effect\<close>

text \<open>The database without the use counters, the one thing a public link moves.\<close>

definition uncounted :: "share_token \<Rightarrow> share_token" where
  "uncounted s = s\<lparr>sh_uses := 0\<rparr>"

definition without_uses :: "database \<Rightarrow> database" where
  "without_uses db = db\<lparr>db_shares := map uncounted (db_shares db)\<rparr>"

lemma uncounted_used:
  "tbl_get sh_id t i = Some s \<Longrightarrow> map uncounted (tbl_put sh_id t (s\<lparr>sh_uses := n\<rparr>)) = map uncounted t"
  by (rule put_same_map [of _ _ _ s]) (auto simp: uncounted_def dest: tbl_get_key)

lemma resolve_share_uses:
  "w_db (snd (resolve_share senv cfg api w token t1 t2 t3)) = w_db w \<or>
   (\<exists>s. verify senv token = Inr (sh_id s) \<and> tbl_get sh_id (db_shares (w_db w)) (sh_id s) = Some s \<and> consumable s t2 \<and>
      w_db (snd (resolve_share senv cfg api w token t1 t2 t3)) =
        (w_db w)\<lparr>db_shares := tbl_put sh_id (db_shares (w_db w)) (s\<lparr>sh_uses := sh_uses s + 1\<rparr>)\<rparr>)"
proof -
  obtain r w1 where l: "load_active_share senv w token t1 = (r, w1)" by fastforce
  then have w1: "w_db w1 = w_db w"
    by (auto simp: load_active_share_def split: sum.splits err.splits option.splits if_splits)
  show ?thesis
  proof (cases r)
    case (Inr s)
    with l have "verify senv token = Inr (sh_id s) \<and> tbl_get sh_id (db_shares (w_db w)) (sh_id s) = Some s"
      by (auto simp: load_active_share_def split: sum.splits err.splits option.splits if_splits dest: tbl_get_key)
    then show ?thesis
      by (auto simp: resolve_share_def l w1 Inr consume_use_def Let_def split: sum.split option.split prod.split bool.split)
  qed (simp add: resolve_share_def l w1)
qed

lemma resolve_share_without_uses:
  "without_uses (w_db (snd (resolve_share senv cfg api w token t1 t2 t3))) = without_uses (w_db w)"
  using resolve_share_uses [of senv cfg api w token t1 t2 t3] by (auto simp: without_uses_def uncounted_used)

text \<open>
  C6. Without authority nothing changes: a request whose token neither the writer guard nor
  the superuser guard admits, and which does not present the service token, leaves the whole
  database as it was, on every route and whatever its ids and body. The one exception is the
  use counter of a share link that is resolved.
\<close>

theorem no_authority_no_effect:
  assumes "\<forall>p. au_writer (ht_auth env) (cr_bearer (hq_credentials rq)) \<noteq> Inr p"
    and "\<forall>p. au_superuser (ht_auth env) (cr_bearer (hq_credentials rq)) \<noteq> Inr p"
    and "require_service_token (ht_settings env) (cr_authorization (hq_credentials rq)) \<noteq> Inr ()"
    and run: "handle env rq (w, ls) = (res, w', ls')"
  shows "without_uses (w_db w') = without_uses (w_db w)"
  using run
proof (cases rule: handle_writes)
  case (2 m who sr)
  from 2(3) show ?thesis
  proof (cases rule: write_authority)
    case (share_link token t1 t2 t3)
    then show ?thesis using 2(4) by (simp add: resolve_share_without_uses)
  qed (use 2(1,2) assms(1-3) in \<open>auto simp: pass_Inr simp del: pass.simps\<close>)
qed simp

text \<open>
  C7. Isolation at the HTTP surface: a request that carries the token of a principal without
  superuser rights, and not the service token, changes nothing outside that principal's own
  rows and scope, whatever its ids and body and whatever the queue and the storage do. There
  is one exception, on the one public route: resolving a share link may add one to the use
  counter of the share its authentic, still consumable token names, who ever owns the share,
  and then that is the whole change of the database.
\<close>

theorem http_callers_isolated:
  assumes laws: "auth_laws (ht_auth env)"
    and user: "au_user (ht_auth env) (cr_bearer (hq_credentials rq)) = Inr p" and plain: "\<not> p_superuser p"
    and token: "require_service_token (ht_settings env) (cr_authorization (hq_credentials rq)) \<noteq> Inr ()"
    and run: "handle env rq (w, ls) = (res, w', ls')"
  shows "outside p (w_db w') = outside p (w_db w) \<or>
    (\<exists>link s. hq_endpoint rq = Shares (GET_share_token link) \<and>
       verify (sv_share (ht_service env)) link = Inr (sh_id s) \<and>
       tbl_get sh_id (db_shares (w_db w)) (sh_id s) = Some s \<and> consumable s (cx_now2 (hq_context rq)) \<and>
       w_db w' = (w_db w)\<lparr>db_shares := tbl_put sh_id (db_shares (w_db w)) (s\<lparr>sh_uses := sh_uses s + 1\<rparr>)\<rparr>)"
  using run
proof (cases rule: handle_writes)
  case (2 m who sr)
  from 2(3) show ?thesis
  proof (cases rule: write_authority)
    case (user q)
    with 2(2) have "au_writer (ht_auth env) (cr_bearer (hq_credentials rq)) = Inr q" by (simp add: pass_Inr del: pass.simps)
    from auth_lawsD(2) [OF laws this] assms(2) have "q = p" by simp
    with user(2) have "caller sr = Some p" by simp
    then show ?thesis by (simp add: 2(4) callers_isolated [OF _ plain])
  next
    case (share_link link t1 t2 t3)
    with 2(3) have "t2 = cx_now2 (hq_context rq)" by simp
    with share_link show ?thesis
      using 2(4) resolve_share_uses [of "sv_share (ht_service env)" "ht_settings env" "ht_storage env" w link t1 t2 t3] by auto
  next
    case service
    then show ?thesis using 2(1) token by (simp add: pass_Inr del: pass.simps)
  next
    case superuser
    then obtain q where "au_superuser (ht_auth env) (cr_bearer (hq_credentials rq)) = Inr q"
      using 2(1) by (auto simp: pass_Inr simp del: pass.simps)
    from auth_lawsD(3,4) [OF laws this] user plain show ?thesis by simp
  qed
qed simp

text \<open>Requests over HTTP are runs of the abstract machine too, so its invariants hold for them.\<close>

lemma handle_core:
  assumes "sizes_nonneg (ht_storage env)" and "core_wf (ht_settings env) (w_db w)"
    and run: "handle env rq (w, ls) = (res, w', ls')"
  shows "core_run (ht_settings env) (w_db w) (w_db w')"
  using run
proof (cases rule: handle_writes)
  case (2 m who sr)
  then show ?thesis using serve_core [OF assms(1,2)] by simp
qed simp

lemma http_reachable_wf:
  assumes "sizes_nonneg (ht_storage env)"
  shows "core_wf (ht_settings env) (w_db (fst st)) \<Longrightarrow>
    core_wf (ht_settings env) (w_db (fst (fold (\<lambda>rq st. snd (handle env rq st)) rqs st)))"
proof (induction rqs arbitrary: st)
  case (Cons rq rqs)
  obtain w ls where st: "st = (w, ls)" by fastforce
  obtain res w' ls' where run: "handle env rq (w, ls) = (res, w', ls')" by (cases "handle env rq (w, ls)") auto
  have "core_wf (ht_settings env) (w_db w')"
    using wf.run_keeps [OF handle_core [OF assms _ run]] Cons.prems st by simp
  then show ?case using Cons.IH [of "(w', ls')"] by (simp add: st run)
qed simp

section \<open>A concrete deployment\<close>

text \<open>Token \<open>w\<close> is a writer's, token \<open>r\<close> a reader's, both of user 7.\<close>

definition demo_auth :: auth_api where
  "demo_auth = (let known = (\<lambda>t. if t = Some [119] \<or> t = Some [114] then Inr (demo_caller 7)
       else Inl (Http 401 (DText ''Not authenticated'')))
     in \<lparr>au_user = known, au_reader = known,
         au_writer = (\<lambda>t. if t = Some [114] then Inl (Http 403 (DText ''Not enough permissions'')) else known t),
         au_superuser = (\<lambda>t. Inl (Http 403 (DText ''Not enough permissions'')))\<rparr>)"

definition demo_http :: "(location \<Rightarrow> blob option, unit, ustr \<Rightarrow> counter option) http_env" where
  "demo_http = \<lparr>ht_service = demo_service, ht_auth = demo_auth, ht_cursor = demo_codec, ht_redis = mem_redis True True,
     ht_printable = (\<lambda>_. True), ht_enqueue_scan = (\<lambda>_. True), ht_enqueue_variants = (\<lambda>_. True),
     ht_enqueue_export = (\<lambda>_. True), ht_stamps = (\<lambda>_. \<lparr>rs_created_at = 0, rs_updated_at = 0\<rparr>),
     ht_handle_exception = id\<rparr>"

definition demo_abort :: "ustr \<Rightarrow> http_request" where
  "demo_abort token = \<lparr>hq_credentials = \<lparr>cr_bearer = Some token, cr_authorization = None\<rparr>, hq_peer = None, hq_at = 0,
     hq_context = \<lparr>cx_now = 0, cx_now2 = 0, cx_now3 = 0, cx_fresh = 0, cx_fresh2 = 0, cx_commit_ok = True,
       cx_civil = noon 2024 12 15\<rparr>,
     hq_endpoint = Uploads (POST_abort 1)\<rparr>"

text \<open>Two open sessions: one of owner 8, one of owner 7.\<close>

definition two_sessions :: "(location \<Rightarrow> blob option) world" where
  "two_sessions = blank_world\<lparr>w_db := empty_db\<lparr>db_sessions := [demo_session\<lparr>us_id := 8, us_owner_user_id := 8\<rparr>, demo_session]\<rparr>\<rparr>"

definition demo_counters :: "(ustr \<Rightarrow> counter option) limiter_state" where
  "demo_counters = \<lparr>ls_redis = (\<lambda>_. None), ls_metrics = []\<rparr>"

lemma demo_auth_laws: "auth_laws demo_auth"
  by (auto simp: auth_laws_def demo_auth_def Let_def split: if_splits)

lemma demo_no_service: "require_service_token (ht_settings demo_http) (cr_authorization (hq_credentials (demo_abort t))) \<noteq> Inr ()"
  by (simp add: require_service_token_def compare_digest_def demo_http_def demo_abort_def demo_service_def default_settings_def
      u_def Let_def)

text \<open>The reader may not abandon the session.\<close>

theorem no_authority_no_effect_witness:
  "case handle demo_http (demo_abort [114]) (two_sessions, demo_counters) of (res, w', ls') \<Rightarrow>
     res = Inl (Refused (Http 403 (DText ''Not enough permissions''))) \<and> without_uses (w_db w') = without_uses (w_db two_sessions)"
proof -
  obtain res w' ls' where run: "handle demo_http (demo_abort [114]) (two_sessions, demo_counters) = (res, w', ls')"
    by (cases "handle demo_http (demo_abort [114]) (two_sessions, demo_counters)") auto
  have "without_uses (w_db w') = without_uses (w_db two_sessions)"
    by (rule no_authority_no_effect [OF _ _ demo_no_service run]) (simp_all add: demo_http_def demo_auth_def demo_abort_def Let_def)
  moreover have "res = Inl (Refused (Http 403 (DText ''Not enough permissions'')))"
    using run by (auto simp: handle_def demo_http_def demo_auth_def demo_abort_def Let_def)
  ultimately show ?thesis by (simp add: run)
qed

text \<open>The writer may, and the session of owner 8 is untouched.\<close>

theorem http_callers_isolated_witness:
  "case handle demo_http (demo_abort [119]) (two_sessions, demo_counters) of (res, w', ls') \<Rightarrow>
     map us_status (db_sessions (w_db w')) = [SES_INITIATED, SES_ABORTED] \<and>
     outside (demo_caller 7) (w_db w') = outside (demo_caller 7) (w_db two_sessions)"
proof -
  obtain res w' ls' where run: "handle demo_http (demo_abort [119]) (two_sessions, demo_counters) = (res, w', ls')"
    by (cases "handle demo_http (demo_abort [119]) (two_sessions, demo_counters)") auto
  have "au_user (ht_auth demo_http) (cr_bearer (hq_credentials (demo_abort [119]))) = Inr (demo_caller 7)"
    by (simp add: demo_http_def demo_auth_def demo_abort_def Let_def)
  from http_callers_isolated [OF _ this _ demo_no_service run]
  have "outside (demo_caller 7) (w_db w') = outside (demo_caller 7) (w_db two_sessions)"
    by (simp add: demo_auth_laws demo_http_def demo_caller_def) (auto simp: demo_abort_def)
  moreover have "map us_status (db_sessions (w_db w')) = [SES_INITIATED, SES_ABORTED]"
    using run by (auto simp: handle_def check_limit_def demo_http_def demo_auth_def demo_abort_def Let_def as_user_def answer_def
        two_sessions_def blank_world_def empty_db_def demo_session_def demo_service_def abort_upload_def
        load_owned_session_def demo_caller_def put_session_def split: prod.splits)
  ultimately show ?thesis by (simp add: run)
qed

end
