(* ===== verification/Worker.thy ===== *)
theory Worker
  imports Routes
begin

text \<open>
  The service-owned maintenance worker (\<open>maintenance_worker.py\<close>): the cron bodies over the
  configured bounds, with the outbox delivery behind the guard built from the settings; and
  the system as a whole, HTTP requests and cron jobs in any order. When the jobs run, and
  how arq runs them, is left out.
\<close>

section \<open>The jobs\<close>

text \<open>What the worker process has beside the storage and the settings.\<close>

record 'c worker_env =
  wk_unicode :: unicode_db
  wk_nfkc :: "ustr \<Rightarrow> ustr"
  wk_resolver :: "ustr \<Rightarrow> resolution"
  wk_environment :: ustr
  wk_strict :: bool
  wk_post :: "'c http"
  wk_serialize :: "outbox_event \<Rightarrow> blob"
  wk_hmac :: "ustr \<Rightarrow> blob \<Rightarrow> ustr"
  wk_client :: 'c
  wk_takes_naive :: bool

definition worker_policy :: "settings \<Rightarrow> 'c worker_env \<Rightarrow> webhook_policy" where
  "worker_policy cfg wk =
     policy_from_settings (wk_unicode wk) (wk_environment wk) (wk_strict wk) (MEDIA_WEBHOOK_ALLOWED_INTERNAL_HOSTS cfg)"

definition outbox_delivery :: "settings \<Rightarrow> 'c worker_env \<Rightarrow> 'c delivery_env" where
  "outbox_delivery cfg wk = \<lparr>de_post = wk_post wk, de_serialize = wk_serialize wk, de_hmac = wk_hmac wk,
     de_guard = build_url_guard (wk_unicode wk) (wk_nfkc wk) (worker_policy cfg wk) (wk_resolver wk)\<rparr>"

definition cron_deliver_outbox ::
  "settings \<Rightarrow> 'c worker_env \<Rightarrow> 's world \<Rightarrow> datetime \<Rightarrow> nat result \<times> 's world" where
  "cron_deliver_outbox cfg wk w now =
     (case deliver_pending (outbox_delivery cfg wk) (wk_client wk) (w_db w) now (nat (OUTBOX_BATCH_LIMIT cfg))
             (OUTBOX_MAX_ATTEMPTS cfg) (OUTBOX_BACKOFF_BASE_SECONDS cfg) of
        (r, db', _) \<Rightarrow> (map_sum id dr_delivered r, w\<lparr>w_db := db'\<rparr>))"

datatype worker_job = Purge_expired | Expire_stale | Report_orphans | Deliver_outbox

fun run_job ::
  "settings \<Rightarrow> 's storage_api \<Rightarrow> 'c worker_env \<Rightarrow> worker_job \<Rightarrow> datetime \<Rightarrow> 's world \<Rightarrow> nat result \<times> 's world" where
  "run_job cfg api wk Purge_expired now w = (case cron_hard_purge cfg api w now of (n, w') \<Rightarrow> (Inr n, w'))"
| "run_job cfg api wk Expire_stale now w = cron_expire_stale (wk_takes_naive wk) api w now"
| "run_job cfg api wk Report_orphans now w = cron_reconcile cfg api w now"
| "run_job cfg api wk Deliver_outbox now w = cron_deliver_outbox cfg wk w now"

text \<open>The service request a job amounts to for the database.\<close>

fun job_request :: "settings \<Rightarrow> worker_job \<Rightarrow> datetime \<Rightarrow> service_request" where
  "job_request cfg Purge_expired now =
     R_hard_purge now (seconds (86400 * MEDIA_RETENTION_PURGE_DAYS cfg)) (nat (MEDIA_PURGE_BATCH_LIMIT cfg))"
| "job_request cfg Expire_stale now = R_stale_purge now"
| "job_request cfg Report_orphans now = R_reconcile now (all_buckets cfg)
     (seconds (60 * MEDIA_RECONCILE_GRACE_MINUTES cfg)) (nat (MEDIA_RECONCILE_BATCH_LIMIT cfg)) False"
| "job_request cfg Deliver_outbox now =
     R_deliver now (nat (OUTBOX_BATCH_LIMIT cfg)) (OUTBOX_MAX_ATTEMPTS cfg) (OUTBOX_BACKOFF_BASE_SECONDS cfg)"

lemma run_job_writes:
  "w_db (snd (run_job (sv_settings sv) (sv_storage sv) wk job now w)) =
   w_db (serve (sv\<lparr>sv_delivery := outbox_delivery (sv_settings sv) wk, sv_client := wk_client wk, sv_takes_naive := wk_takes_naive wk\<rparr>)
     (job_request (sv_settings sv) job now) w)"
  by (cases job) (simp_all add: cron_hard_purge_def cron_expire_stale_def cron_reconcile_def cron_deliver_outbox_def
      split: prod.split sum.split)

lemma run_job_core:
  fixes sv :: "('s, 'c) service_env" and wk :: "'c worker_env"
  assumes "sizes_nonneg (sv_storage sv)" and "core_wf (sv_settings sv) (w_db w)"
  shows "core_run (sv_settings sv) (w_db w) (w_db (snd (run_job (sv_settings sv) (sv_storage sv) wk job now w)))"
  unfolding run_job_writes
  using serve_core [of "sv\<lparr>sv_delivery := outbox_delivery (sv_settings sv) wk, sv_client := wk_client wk, sv_takes_naive := wk_takes_naive wk\<rparr>"] assms by simp

section \<open>What is delivered where\<close>

text \<open>A URL the deployment may be made to call.\<close>

definition safe_target :: "settings \<Rightarrow> 'c worker_env \<Rightarrow> ustr \<Rightarrow> bool" where
  "safe_target cfg wk url \<longleftrightarrow> (\<exists>host scheme. split_target (wk_unicode wk) (wk_nfkc wk) url = Inr (host, scheme) \<and>
     (scheme = u ''http'' \<or> scheme = u ''https'') \<and>
     (uc_lower (wk_unicode wk) host \<in> set (wp_allowed_internal_hosts (worker_policy cfg wk)) \<or>
      (wp_production (worker_policy cfg wk) \<longrightarrow> scheme = u ''https'') \<and> denotes (wk_resolver wk) host \<noteq> {} \<and>
      (\<forall>a \<in> denotes (wk_resolver wk) host. permitted_ip (wp_production (worker_policy cfg wk)) a)))"

text \<open>
  C33. Whatever subscribers registered and whatever the clients and the resolver answer, every
  request of an outbox run goes to an active subscriber that wants the event, carries the
  serialisation of a claimed event signed with that subscriber's own secret, and its URL is
  a safe target: on the operator's allowlist, or \<open>http(s)\<close> at addresses that are all outside
  loopback, link-local, multicast, reserved and unspecified space, and in production \<open>https\<close>
  and outside the RFC 1918 and unique-local ranges and everything else private to \<open>ipaddress\<close>.
  Of the ranges documented as refused in production CGNAT is the one that is let through
  (\<open>cgnat_accepted_in_production\<close>).
\<close>

theorem delivered_requests_safe:
  assumes "deliver_pending (logged_env (outbox_delivery cfg wk)) (c, []) db now limit attempts base = (res, db', c', sent)"
  shows "\<forall>r \<in> set sent. safe_target cfg wk (rq_url r) \<and>
    (\<exists>sub \<in> set (active_subscriptions db). \<exists>e \<in> set (claim_due db now limit). wants sub (oe_event_type e) \<and>
       rq_url r = sub_url sub \<and> rq_content r = wk_serialize wk e \<and>
       (SIGNATURE_HEADER, sign_payload (wk_hmac wk) (sub_secret sub) (rq_content r)) \<in> set (rq_headers r))"
proof
  fix r assume "r \<in> set sent"
  with delivery_requests_legitimate [OF assms]
  have "legitimate (outbox_delivery cfg wk) (active_subscriptions db) (claim_due db now limit) r" by blast
  then obtain sub e where sub: "sub \<in> set (active_subscriptions db)" "e \<in> set (claim_due db now limit)"
      "wants sub (oe_event_type e)" "rq_url r = sub_url sub" "rq_content r = wk_serialize wk e"
      "(SIGNATURE_HEADER, sign_payload (wk_hmac wk) (sub_secret sub) (rq_content r)) \<in> set (rq_headers r)"
    and guard: "build_url_guard (wk_unicode wk) (wk_nfkc wk) (worker_policy cfg wk) (wk_resolver wk) (sub_url sub) = Inr True"
    by (auto simp: legitimate_def outbox_delivery_def)
  from guard_accepts_only_safe_targets [OF guard] have "safe_target cfg wk (rq_url r)"
    unfolding safe_target_def sub(4) .
  with sub show "safe_target cfg wk (rq_url r) \<and>
    (\<exists>sub \<in> set (active_subscriptions db). \<exists>e \<in> set (claim_due db now limit). wants sub (oe_event_type e) \<and>
       rq_url r = sub_url sub \<and> rq_content r = wk_serialize wk e \<and>
       (SIGNATURE_HEADER, sign_payload (wk_hmac wk) (sub_secret sub) (rq_content r)) \<in> set (rq_headers r))" by blast
qed

text \<open>A production worker, one subscriber at a public address.\<close>

definition demo_worker :: "unit worker_env" where
  "demo_worker = \<lparr>wk_unicode = ascii_db, wk_nfkc = id, wk_resolver = (\<lambda>_. Addrs [u ''93.184.216.34'']),
     wk_environment = u ''production'', wk_strict = False, wk_post = de_post (Outbox.demo_env 200),
     wk_serialize = (\<lambda>_. []), wk_hmac = (\<lambda>_ _. []), wk_client = (), wk_takes_naive = True\<rparr>"

lemma demo_worker_simps:
  "wk_unicode demo_worker = ascii_db" "wk_nfkc demo_worker = id" "wk_resolver demo_worker = (\<lambda>_. Addrs [u ''93.184.216.34''])"
  "wk_post demo_worker = (\<lambda>c r. (Some 200, c))" "wk_serialize demo_worker = (\<lambda>_. [])" "wk_hmac demo_worker = (\<lambda>_ _. [])"
  by (simp_all add: demo_worker_def Outbox.demo_env_def)

definition demo_outbox :: database where
  "demo_outbox = empty_db\<lparr>db_outbox := [demo_event 1], db_subscriptions := [demo_subscription ''https://hooks.example/x'']\<rparr>"

lemma demo_guard:
  "build_url_guard ascii_db id (worker_policy (default_settings None None) demo_worker) (\<lambda>_. Addrs [u ''93.184.216.34''])
     (u ''https://hooks.example/x'') = Inr True"
proof -
  have "worker_policy (default_settings None None) demo_worker = strict_policy"
    by (simp add: worker_policy_def policy_from_settings_def demo_worker_def default_settings_def strict_policy_def)
  then show ?thesis
    using guard_one_address [OF hooks_target _ refl dotted_public(1) public_quads(1,3)] by (simp add: strict_policy_def)
qed

theorem delivered_requests_safe_witness:
  "\<exists>res db' c' sent. deliver_pending (logged_env (outbox_delivery (default_settings None None) demo_worker)) ((), []) demo_outbox
      5 1 8 30 = (res, db', c', sent) \<and> sent \<noteq> [] \<and>
    list_all (\<lambda>r. safe_target (default_settings None None) demo_worker (rq_url r) \<and> rq_url r = u ''https://hooks.example/x'') sent"
proof -
  let ?env = "outbox_delivery (default_settings None None) demo_worker"
  have "\<exists>res db' c' sent. deliver_pending (logged_env ?env) ((), []) demo_outbox 5 1 8 30 = (res, db', c', sent) \<and> sent \<noteq> []"
    by (simp add: deliver_pending_def claim_due_def demo_event_def active_subscriptions_def deliver_event_def demo_outbox_def
        wants_def post_one_def logged_env_def logging_def demo_subscription_def outbox_delivery_def
        demo_worker_simps demo_guard)
  then obtain res db' c' sent where r: "deliver_pending (logged_env ?env) ((), []) demo_outbox 5 1 8 30 = (res, db', c', sent)"
    and ne: "sent \<noteq> []" by blast
  from delivered_requests_safe [OF r]
  have "list_all (\<lambda>r. safe_target (default_settings None None) demo_worker (rq_url r) \<and> rq_url r = u ''https://hooks.example/x'') sent"
    by (auto simp: list_all_iff active_subscriptions_def demo_subscription_def demo_outbox_def)
  with r ne show ?thesis by blast
qed

section \<open>The system\<close>

datatype system_event = Http http_request | Cron worker_job datetime

fun system_step ::
  "('s, 'c, 'r) http_env \<Rightarrow> 'c worker_env \<Rightarrow> system_event \<Rightarrow> 's world \<times> 'r limiter_state \<Rightarrow> 's world \<times> 'r limiter_state" where
  "system_step env wk (Http rq) st = snd (handle env rq st)"
| "system_step env wk (Cron job now) (w, ls) = (snd (run_job (ht_settings env) (ht_storage env) wk job now w), ls)"

lemma system_step_core:
  assumes "sizes_nonneg (ht_storage env)" and "core_wf (ht_settings env) (w_db (fst st))"
  shows "core_run (ht_settings env) (w_db (fst st)) (w_db (fst (system_step env wk event st)))"
proof (cases st)
  case st: (Pair w ls)
  show ?thesis
  proof (cases event)
    case (Http rq)
    obtain res w' ls' where "handle env rq (w, ls) = (res, w', ls')" by (cases "handle env rq (w, ls)") auto
    with handle_core [OF assms(1) _ this] assms(2) show ?thesis by (simp add: st Http)
  next
    case (Cron job now)
    then show ?thesis using run_job_core [of "ht_service env" w wk job now] assms by (simp add: st)
  qed
qed

text \<open>Every invariant of the atomic changes holds after every run of the system.\<close>

lemma system_run_wf:
  assumes "sizes_nonneg (ht_storage env)" and "core_wf (ht_settings env) (w_db (fst st))"
  shows "core_wf (ht_settings env) (w_db (fst (fold (system_step env wk) events st)))"
  using wf.fold_keeps [where f = "\<lambda>st. w_db (fst st)" and exec = "system_step env wk"
      and good = "\<lambda>st. core_wf (ht_settings env) (w_db (fst st))"]
    system_step_core [OF assms(1)] wf.run_keeps assms(2) by metis

lemma system_run_books:
  assumes "sizes_nonneg (ht_storage env)" and "core_wf (ht_settings env) (w_db (fst st))" and "not_overcharged (w_db (fst st))"
  shows "not_overcharged (w_db (fst (fold (system_step env wk) events st)))"
  using books.fold_keeps [where f = "\<lambda>st. w_db (fst st)" and exec = "system_step env wk"
      and good = "\<lambda>st. core_wf (ht_settings env) (w_db (fst st))"]
    system_step_core [OF assms(1)] wf.run_keeps assms(2,3) by metis

end
