(* ===== verification/Configuration.thy ===== *)
theory Configuration
  imports Ssrf
begin

text \<open>
  The checks of the settings (\<open>core/config.py\<close>): the declared bounds of the fields the model
  reads, and the validators of the two storage endpoints, the scheme-less internal
  \<open>host[:port]\<close> and the browser-facing URL. A refused value raises \<open>ValueError\<close>, with which
  the settings do not load. URLs and addresses are read as in the webhook guard; which
  characters are digits, and which of them \<open>int\<close> reads, is a parameter.
\<close>

section \<open>The internal endpoint\<close>

record digit_db =
  dg_isdigit :: "nat \<Rightarrow> bool"          \<comment> \<open>\<open>str.isdigit\<close> of one character\<close>
  dg_value :: "nat \<Rightarrow> nat option"     \<comment> \<open>what \<open>int\<close> reads; superscripts are digits without a value\<close>

text \<open>\<open>s.rpartition(c)\<close> of a text in which the character occurs: around its last occurrence.\<close>

definition rpartition_at :: "nat \<Rightarrow> ustr \<Rightarrow> ustr \<times> ustr" where
  "rpartition_at c s = (rev (tl (dropWhile (\<lambda>x. x \<noteq> c) (rev s))), rev (takeWhile (\<lambda>x. x \<noteq> c) (rev s)))"

text \<open>\<open>int\<close> of a text of digits: too many of them raise, as does one without a value.\<close>

definition int_of_digits :: "digit_db \<Rightarrow> ustr \<Rightarrow> nat option" where
  "int_of_digits dg s =
     (if length s > 4300 \<or> (\<exists>c\<in>set s. dg_value dg c = None) then None
      else Some (foldl (\<lambda>n c. n * 10 + the (dg_value dg c)) 0 s))"

definition port_ok :: "digit_db \<Rightarrow> ustr \<Rightarrow> bool" where
  "port_ok dg port \<longleftrightarrow> port \<noteq> [] \<and> list_all (dg_isdigit dg) port \<and>
     (case int_of_digits dg port of None \<Rightarrow> False | Some n \<Rightarrow> 1 \<le> n \<and> n \<le> 65535)"

definition validate_s3_endpoint :: "digit_db \<Rightarrow> ustr \<Rightarrow> ustr result" where
  "validate_s3_endpoint dg text =
     (let endpoint = strip text; (host, port) = rpartition_at 58 endpoint
      in if endpoint = [] then Inl (Raised ''ValueError'')
         else if partition_at (u ''://'') endpoint \<noteq> None then Inl (Raised ''ValueError'')
         else if 58 \<in> set endpoint \<and> last endpoint \<noteq> 93
         then (if \<not> port_ok dg port then Inl (Raised ''ValueError'')
               else if host = [] then Inl (Raised ''ValueError'') else Inr endpoint)
         else Inr endpoint)"

section \<open>The browser-facing endpoint\<close>

fun is_loopback :: "ip \<Rightarrow> bool" where
  "is_loopback (IPv4 a) = in_net a (quad 127 0 0 0, 24)"
| "is_loopback (IPv6 a) = (case ipv4_mapped a of Some b \<Rightarrow> in_net b (quad 127 0 0 0, 24) | None \<Rightarrow> a = 1)"

definition is_loopback_host :: "unicode_db \<Rightarrow> ustr \<Rightarrow> bool" where
  "is_loopback_host U host \<longleftrightarrow> uc_lower U host = u ''localhost'' \<or>
     (case ip_address host of Some a \<Rightarrow> is_loopback a | None \<Rightarrow> False)"

text \<open>The arguments are \<open>ENVIRONMENT\<close>, \<open>STRICT_PRODUCTION_MODE\<close> and the endpoint.\<close>

definition validate_s3_public_endpoint ::
  "unicode_db \<Rightarrow> (ustr \<Rightarrow> ustr) \<Rightarrow> string \<Rightarrow> bool \<Rightarrow> ustr \<Rightarrow> unit result" where
  "validate_s3_public_endpoint U nfkc environment strict endpoint =
     (if endpoint = [] then Inr ()
      else if partition_at (u ''://'') endpoint = None then Inl (Raised ''ValueError'')
      else case urlsplit U nfkc endpoint of
        None \<Rightarrow> Inl (Raised ''ValueError'')
      | Some (scheme, hostname) \<Rightarrow>
          if scheme \<notin> {u ''http'', u ''https''} then Inl (Raised ''ValueError'')
          else if (environment = ''production'' \<or> strict) \<and> scheme = u ''http'' \<and>
              \<not> is_loopback_host U (case hostname of None \<Rightarrow> [] | Some h \<Rightarrow> h)
          then Inl (Raised ''ValueError'') else Inr ())"

section \<open>Loading the settings\<close>

definition at_least :: "int \<Rightarrow> int option \<Rightarrow> bool" where
  "at_least n v \<longleftrightarrow> (case v of None \<Rightarrow> True | Some i \<Rightarrow> n \<le> i)"

definition settings_valid :: "settings \<Rightarrow> bool" where
  "settings_valid cfg \<longleftrightarrow>
     1 \<le> MEDIA_SHARE_DEFAULT_EXPIRES_SECONDS cfg \<and> 1 \<le> MEDIA_SHARE_MAX_EXPIRES_SECONDS cfg \<and>
     1 \<le> S3_PRESIGNED_URL_EXPIRE_SECONDS cfg \<and> 1 \<le> MEDIA_MAX_UPLOAD_SIZE_BYTES cfg \<and>
     1 \<le> MEDIA_SHA256_VERIFY_CHUNK_SIZE cfg \<and> 1 \<le> MEDIA_EXPORT_MAX_OBJECTS cfg \<and>
     1 \<le> MEDIA_EXPORT_MAX_TOTAL_BYTES cfg \<and> 1 \<le> MEDIA_EXPORT_ARCHIVE_TTL_SECONDS cfg \<and>
     1 \<le> MEDIA_EXPORT_STREAM_CHUNK_SIZE cfg \<and> 1 \<le> MEDIA_IMPORT_MAX_MANIFEST_BYTES cfg \<and>
     1 \<le> MEDIA_IMPORT_MAX_ARCHIVE_BYTES cfg \<and> 1 \<le> MEDIA_IMPORT_MAX_OBJECTS cfg \<and>
     1 \<le> MEDIA_IMPORT_MAX_TOTAL_BYTES cfg \<and> 1 \<le> MEDIA_IMPORT_MAX_CATEGORIES cfg \<and>
     1 \<le> MEDIA_IMPORT_MAX_CATEGORY_DEPTH cfg \<and> at_least 1 (MEDIA_DEFAULT_QUOTA_BYTES cfg) \<and>
     at_least 1 (MEDIA_DEFAULT_QUOTA_OBJECTS cfg) \<and> 1 \<le> MEDIA_RETENTION_PURGE_DAYS cfg \<and>
     1 \<le> MEDIA_PURGE_BATCH_LIMIT cfg \<and> 0 \<le> MEDIA_RECONCILE_GRACE_MINUTES cfg \<and>
     1 \<le> MEDIA_RECONCILE_BATCH_LIMIT cfg \<and> 1 \<le> OUTBOX_BATCH_LIMIT cfg \<and> 1 \<le> OUTBOX_MAX_ATTEMPTS cfg \<and>
     1 \<le> OUTBOX_BACKOFF_BASE_SECONDS cfg \<and> MEDIA_RATE_LIMIT_FAILURE_MODE cfg \<in> {''fail_open'', ''fail_closed''}"

text \<open>The module raises \<open>RuntimeError\<close> on any refusal; the service does not start.\<close>

definition load_settings ::
  "unicode_db \<Rightarrow> (ustr \<Rightarrow> ustr) \<Rightarrow> digit_db \<Rightarrow> string \<Rightarrow> bool \<Rightarrow> ustr \<Rightarrow> ustr \<Rightarrow> settings \<Rightarrow> (settings \<times> ustr) result" where
  "load_settings U nfkc dg environment strict endpoint public_endpoint cfg =
     (case (validate_s3_endpoint dg endpoint, validate_s3_public_endpoint U nfkc environment strict public_endpoint) of
        (Inr clean, Inr _) \<Rightarrow> if settings_valid cfg then Inr (cfg, clean) else Inl (Raised ''RuntimeError'')
      | _ \<Rightarrow> Inl (Raised ''RuntimeError''))"

lemma default_settings_valid: "at_least 1 qb \<Longrightarrow> at_least 1 qo \<Longrightarrow> settings_valid (default_settings qb qo)"
  by (simp add: settings_valid_def default_settings_def)

text \<open>The cut-offs of the maintenance jobs never lie in the future, and their batches are not empty.\<close>

lemma loaded_maintenance_bounds:
  assumes "load_settings U nfkc dg environment strict endpoint public_endpoint cfg = Inr (cfg', clean)"
  shows "now - seconds (86400 * MEDIA_RETENTION_PURGE_DAYS cfg') < now" "now - seconds (60 * MEDIA_RECONCILE_GRACE_MINUTES cfg') \<le> now"
    "0 < nat (MEDIA_PURGE_BATCH_LIMIT cfg')" "0 < nat (MEDIA_RECONCILE_BATCH_LIMIT cfg')"
  using assms by (auto simp: load_settings_def settings_valid_def seconds_def split: sum.splits if_splits)

section \<open>What the validators guarantee\<close>

lemma rpartition_split: "c \<in> set s \<Longrightarrow> rpartition_at c s = (a, b) \<Longrightarrow> s = a @ c # b \<and> c \<notin> set b"
proof -
  assume c: "c \<in> set s" and p: "rpartition_at c s = (a, b)"
  let ?d = "dropWhile (\<lambda>x. x \<noteq> c) (rev s)"
  have d: "?d \<noteq> []" using c by simp
  have "hd ?d = c" using hd_dropWhile [OF d] by simp
  with d have "?d = c # tl ?d" by (metis list.collapse)
  then have "rev s = takeWhile (\<lambda>x. x \<noteq> c) (rev s) @ c # tl ?d" by (metis takeWhile_dropWhile_id)
  then have "s = rev (takeWhile (\<lambda>x. x \<noteq> c) (rev s) @ c # tl ?d)" by (metis rev_rev_ident)
  moreover have "c \<notin> set (takeWhile (\<lambda>x. x \<noteq> c) (rev s))" by (auto dest: set_takeWhileD)
  ultimately show ?thesis using p by (auto simp: rpartition_at_def)
qed

text \<open>
  An accepted internal endpoint is not empty, has no surrounding white space and no scheme,
  and is accepted again as it stands. Unless it ends in a bracket, a colon in it is followed
  by a port between 1 and 65535 and preceded by a host.
\<close>

lemma s3_endpoint_accepted:
  assumes "validate_s3_endpoint dg text = Inr endpoint"
  shows "endpoint \<noteq> []" "strip endpoint = endpoint" "partition_at (u ''://'') endpoint = None"
    "validate_s3_endpoint dg endpoint = Inr endpoint"
  using assms by (auto simp: validate_s3_endpoint_def Let_def simp del: not_None_eq split: prod.splits if_splits)

lemma s3_endpoint_port:
  assumes "validate_s3_endpoint dg text = Inr endpoint" and "58 \<in> set endpoint" "last endpoint \<noteq> 93"
  obtains host port n where "endpoint = host @ 58 # port" "host \<noteq> []" "58 \<notin> set port"
    "int_of_digits dg port = Some n" "1 \<le> n" "n \<le> 65535"
proof -
  obtain host port where split: "rpartition_at 58 endpoint = (host, port)" by fastforce
  from assms have "endpoint = strip text" by (auto simp: validate_s3_endpoint_def Let_def split: prod.splits if_splits)
  with assms split have "port_ok dg port" "host \<noteq> []"
    by (auto simp: validate_s3_endpoint_def Let_def split: if_splits)
  then show ?thesis using that rpartition_split [OF assms(2) split] by (auto simp: port_ok_def split: option.splits)
qed

text \<open>
  In production, a presigned URL is minted for an \<open>http\<close> endpoint only if its host is
  \<open>localhost\<close> or a loopback address.
\<close>

lemma public_endpoint_accepted:
  assumes "validate_s3_public_endpoint U nfkc environment strict endpoint = Inr ()" and "endpoint \<noteq> []"
    and "uc_lower U [] = []"
  obtains scheme hostname where "urlsplit U nfkc endpoint = Some (scheme, hostname)" "scheme = u ''https'' \<or> scheme = u ''http''"
    "environment = ''production'' \<or> strict \<Longrightarrow> scheme = u ''http'' \<Longrightarrow>
       \<exists>host. hostname = Some host \<and> is_loopback_host U host"
proof -
  from assms obtain scheme hostname where split: "urlsplit U nfkc endpoint = Some (scheme, hostname)"
      "scheme \<in> {u ''http'', u ''https''}"
      "(environment = ''production'' \<or> strict) \<and> scheme = u ''http'' \<Longrightarrow> is_loopback_host U (case hostname of None \<Rightarrow> [] | Some h \<Rightarrow> h)"
    by (auto simp: validate_s3_public_endpoint_def split: if_splits option.splits)
  have "ip_address [] = None" by code_simp
  then show ?thesis using that [OF split(1)] split(2,3) by (cases hostname) (auto simp: is_loopback_host_def assms(3) u_def)
qed

text \<open>A URL without a host is accepted, in production too, when its scheme is \<open>https\<close>.\<close>

lemma https_without_host_accepted:
  "validate_s3_public_endpoint ascii_db id ''production'' True (u ''https://'') = Inr ()"
  by code_simp

end
