(* ===== verification/MigrationDigests.thy ===== *)
theory MigrationDigests
  imports PyText "HOL-Library.List_Lexorder" "HOL-Library.Multiset"
begin

text \<open>
  The digest check of the storage migration
  (\<open>docker_compose/hardened_media_m8/verify_migration_digests.py\<close>): the readers of its three
  input formats, the classification of the exported rows, and the run as a whole. Files are
  their decoded text; a run maps file names to texts. What the script uses of the standard
  library is modelled: reading text lines with and without newline translation, and
  \<open>csv.DictReader\<close> with its default dialect, character by character. Command-line parsing is
  left out: a run starts from the parsed options.
\<close>

section \<open>Text files\<close>

text \<open>\<open>open(...)\<close> translates \<open>"\r\n"\<close> and \<open>"\r"\<close>; the flag says that a \<open>"\r"\<close> came before.\<close>

fun translate_newlines :: "bool \<Rightarrow> ustr \<Rightarrow> ustr" where
  "translate_newlines cr [] = []"
| "translate_newlines cr (c # s) =
     (if c = 13 then 10 # translate_newlines True s
      else if c = 10 \<and> cr then translate_newlines False s else c # translate_newlines False s)"

text \<open>Iteration keeps the line ends; with \<open>newline=""\<close> all three kinds end a line, untranslated.\<close>

fun raw_lines :: "ustr \<Rightarrow> ustr \<Rightarrow> ustr list" where
  "raw_lines cur [] = (if cur = [] then [] else [cur])"
| "raw_lines cur (c # s) =
     (if c = 10 \<or> c = 13 \<and> (s = [] \<or> hd s \<noteq> 10) then (cur @ [c]) # raw_lines [] s else raw_lines (cur @ [c]) s)"

definition text_lines :: "ustr \<Rightarrow> ustr list" where
  "text_lines s = raw_lines [] (translate_newlines False s)"

definition rstrip_newlines :: "ustr \<Rightarrow> ustr" where   \<comment> \<open>\<open>rstrip("\r\n")\<close>\<close>
  "rstrip_newlines s = rev (dropWhile (\<lambda>c. c = 13 \<or> c = 10) (rev s))"

section \<open>The listings\<close>

type_synonym digests = "ustr \<Rightarrow> ustr option"   \<comment> \<open>\<open>dict[str, str]\<close>\<close>

definition hashsum_line :: "unicode_db \<Rightarrow> ustr \<Rightarrow> digests \<Rightarrow> digests result" where
  "hashsum_line U raw acc =
     (let line = rstrip_newlines raw
      in if line = [] then Inr acc
         else case partition_at [32, 32] line of
           None \<Rightarrow> Inl (Raised ''SystemExit'')
         | Some (digest, key) \<Rightarrow>
             if length digest \<noteq> 64 then Inl (Raised ''SystemExit'') else Inr (acc(key \<mapsto> uc_lower U digest)))"

fun hashsum_lines :: "unicode_db \<Rightarrow> ustr list \<Rightarrow> digests \<Rightarrow> digests result" where
  "hashsum_lines U [] acc = Inr acc"
| "hashsum_lines U (raw # rest) acc =
     (case hashsum_line U raw acc of Inl e \<Rightarrow> Inl e | Inr acc' \<Rightarrow> hashsum_lines U rest acc')"

definition load_hashsums :: "unicode_db \<Rightarrow> ustr \<Rightarrow> digests result" where
  "load_hashsums U content = hashsum_lines U (text_lines content) (\<lambda>_. None)"

definition load_listing :: "ustr \<Rightarrow> digests" where
  "load_listing content =
     map_of (map (\<lambda>line. (rstrip_newlines line, [])) (filter (\<lambda>line. strip line \<noteq> []) (text_lines content)))"

section \<open>The reader of the exported rows\<close>

text \<open>The states of the reader of \<open>csv\<close>; the end of a line is \<open>None\<close>.\<close>

datatype csv_state = START_RECORD | START_FIELD | IN_FIELD | IN_QUOTED_FIELD | QUOTE_IN_QUOTED_FIELD | EAT_CRNL

record csv_reader =
  cs_state :: csv_state
  cs_field :: ustr
  cs_fields :: "ustr list"

definition FIELD_LIMIT :: nat where
  "FIELD_LIMIT = 131072"

definition csv_add :: "nat \<Rightarrow> csv_state \<Rightarrow> csv_reader \<Rightarrow> csv_reader result" where
  "csv_add c st r =
     (if length (cs_field r) \<ge> FIELD_LIMIT then Inl (Raised ''csv.Error'')
      else Inr (r\<lparr>cs_field := cs_field r @ [c], cs_state := st\<rparr>))"

definition csv_save :: "csv_state \<Rightarrow> csv_reader \<Rightarrow> csv_reader" where
  "csv_save st r = r\<lparr>cs_fields := cs_fields r @ [cs_field r], cs_field := [], cs_state := st\<rparr>"

definition csv_ends :: "nat option \<Rightarrow> csv_state option" where   \<comment> \<open>the state after a line end, of either kind\<close>
  "csv_ends c = (if c = None then Some START_RECORD else if c = Some 10 \<or> c = Some 13 then Some EAT_CRNL else None)"

definition csv_start_field :: "nat option \<Rightarrow> csv_reader \<Rightarrow> csv_reader result" where
  "csv_start_field c r =
     (case csv_ends c of Some st \<Rightarrow> Inr (csv_save st r)
      | None \<Rightarrow> if c = Some 34 then Inr (r\<lparr>cs_state := IN_QUOTED_FIELD\<rparr>)
                else if c = Some 44 then Inr (csv_save START_FIELD r) else csv_add (the c) IN_FIELD r)"

definition csv_char :: "nat option \<Rightarrow> csv_reader \<Rightarrow> csv_reader result" where
  "csv_char c r =
     (case cs_state r of
        START_RECORD \<Rightarrow>
          if c = None then Inr r
          else if csv_ends c \<noteq> None then Inr (r\<lparr>cs_state := EAT_CRNL\<rparr>) else csv_start_field c r
      | START_FIELD \<Rightarrow> csv_start_field c r
      | IN_FIELD \<Rightarrow>
          (case csv_ends c of Some st \<Rightarrow> Inr (csv_save st r)
           | None \<Rightarrow> if c = Some 44 then Inr (csv_save START_FIELD r) else csv_add (the c) IN_FIELD r)
      | IN_QUOTED_FIELD \<Rightarrow>
          if c = None then Inr r
          else if c = Some 34 then Inr (r\<lparr>cs_state := QUOTE_IN_QUOTED_FIELD\<rparr>)
          else csv_add (the c) IN_QUOTED_FIELD r
      | QUOTE_IN_QUOTED_FIELD \<Rightarrow>
          if c = Some 34 then csv_add 34 IN_QUOTED_FIELD r
          else if c = Some 44 then Inr (csv_save START_FIELD r)
          else (case csv_ends c of Some st \<Rightarrow> Inr (csv_save st r) | None \<Rightarrow> csv_add (the c) IN_FIELD r)
      | EAT_CRNL \<Rightarrow>
          if c = None then Inr (r\<lparr>cs_state := START_RECORD\<rparr>)
          else if csv_ends c \<noteq> None then Inr r else Inl (Raised ''csv.Error''))"

fun csv_chars :: "nat option list \<Rightarrow> csv_reader \<Rightarrow> csv_reader result" where
  "csv_chars [] r = Inr r"
| "csv_chars (c # cs) r = (case csv_char c r of Inl e \<Rightarrow> Inl e | Inr r' \<Rightarrow> csv_chars cs r')"

definition csv_fresh :: csv_reader where
  "csv_fresh = \<lparr>cs_state = START_RECORD, cs_field = [], cs_fields = []\<rparr>"

text \<open>
  The records of a file, one per run of lines that brings the reader back to its start, and
  the error that ends the reading.
\<close>

fun csv_records :: "ustr list \<Rightarrow> csv_reader \<Rightarrow> ustr list list \<times> err option" where
  "csv_records [] r =
     (if cs_field r \<noteq> [] \<or> cs_state r = IN_QUOTED_FIELD then [cs_fields (csv_save START_RECORD r)] else [], None)"
| "csv_records (line # rest) r =
     (case csv_chars (map Some line @ [None]) r of
        Inl e \<Rightarrow> ([], Some e)
      | Inr r' \<Rightarrow>
          if cs_state r' = START_RECORD
          then (case csv_records rest csv_fresh of (records, e) \<Rightarrow> (cs_fields r' # records, e))
          else csv_records rest r')"

definition EXPECTED_COLUMNS :: "ustr list" where
  "EXPECTED_COLUMNS = [u ''storage_bucket'', u ''object_key'', u ''sha256'']"

record digest_row =
  dr_bucket :: ustr
  dr_key :: "ustr option"     \<comment> \<open>\<open>None\<close> when the record is short\<close>
  dr_sha256 :: ustr

definition digest_row_of :: "unicode_db \<Rightarrow> ustr list \<Rightarrow> digest_row" where
  "digest_row_of U fs = \<lparr>dr_bucket = fs ! 0, dr_key = (if length fs < 2 then None else Some (fs ! 1)),
     dr_sha256 = uc_lower U (strip (if length fs < 3 then [] else fs ! 2))\<rparr>"

text \<open>\<open>DictReader\<close> takes the first record as the header and skips empty records after it.\<close>

definition load_digest_rows :: "unicode_db \<Rightarrow> ustr \<Rightarrow> digest_row list result" where
  "load_digest_rows U content =
     (case csv_records (raw_lines [] content) csv_fresh of
        ([], Some e) \<Rightarrow> Inl e
      | (records, e) \<Rightarrow>
          if (case records of [] \<Rightarrow> [] | header # _ \<Rightarrow> header) \<noteq> EXPECTED_COLUMNS then Inl (Raised ''SystemExit'')
          else (case e of Some x \<Rightarrow> Inl x
                | None \<Rightarrow> Inr (map (digest_row_of U) (filter (\<lambda>fs. fs \<noteq> []) (tl records)))))"

section \<open>The classification\<close>

record tally =
  ty_matched :: nat
  ty_mismatch :: nat
  ty_missing :: nat
  ty_uncovered :: nat

definition no_tally :: tally where
  "no_tally = \<lparr>ty_matched = 0, ty_mismatch = 0, ty_missing = 0, ty_uncovered = 0\<rparr>"

text \<open>\<open>f"{bucket}/{key}"\<close>.\<close>

definition row_name :: "digest_row \<Rightarrow> ustr" where
  "row_name row = dr_bucket row @ 47 # (case dr_key row of None \<Rightarrow> u ''None'' | Some k \<Rightarrow> k)"

definition stored_digest :: "(ustr \<Rightarrow> digests option) \<Rightarrow> digest_row \<Rightarrow> ustr option" where
  "stored_digest hashsums row =
     (case (hashsums (dr_bucket row), dr_key row) of (Some listing, Some k) \<Rightarrow> listing k | _ \<Rightarrow> None)"

fun verify_rows ::
  "(ustr \<Rightarrow> digests option) \<Rightarrow> digest_row list \<Rightarrow> tally \<Rightarrow> ustr list \<Rightarrow> tally \<times> ustr list" where
  "verify_rows hashsums [] tally problems = (tally, problems)"
| "verify_rows hashsums (row # rows) tally problems =
     (case hashsums (dr_bucket row) of
        None \<Rightarrow> verify_rows hashsums rows (tally\<lparr>ty_missing := ty_missing tally + 1\<rparr>)
          (problems @ [u ''missing   '' @ row_name row @ u ''  (no hashsum file for bucket)''])
      | Some listing \<Rightarrow>
          (case stored_digest hashsums row of
             None \<Rightarrow> verify_rows hashsums rows (tally\<lparr>ty_missing := ty_missing tally + 1\<rparr>)
               (problems @ [u ''missing   '' @ row_name row])
           | Some actual \<Rightarrow>
               if dr_sha256 row = [] \<or> actual = []
               then verify_rows hashsums rows (tally\<lparr>ty_uncovered := ty_uncovered tally + 1\<rparr>) problems
               else if actual = dr_sha256 row
               then verify_rows hashsums rows (tally\<lparr>ty_matched := ty_matched tally + 1\<rparr>) problems
               else verify_rows hashsums rows (tally\<lparr>ty_mismatch := ty_mismatch tally + 1\<rparr>)
                 (problems @ [u ''mismatch  '' @ row_name row @ u ''  db='' @ dr_sha256 row @ u ''  stored='' @ actual])))"

definition verify_digests :: "digest_row list \<Rightarrow> (ustr \<Rightarrow> digests option) \<Rightarrow> tally \<times> ustr list" where
  "verify_digests rows hashsums = verify_rows hashsums rows no_tally []"

section \<open>A run\<close>

record migration_args =
  ma_digests :: ustr
  ma_hashsum :: "ustr list"
  ma_listing :: "ustr list"
  ma_missing_out :: bool

record migration_report =
  mr_exit :: nat
  mr_problems :: "ustr list"
  mr_missing :: "ustr list option"     \<comment> \<open>the lines of the file of \<open>--missing-out\<close>\<close>
  mr_tally :: tally

definition read_file :: "(ustr \<Rightarrow> ustr option) \<Rightarrow> ustr \<Rightarrow> ustr result" where
  "read_file files path = (case files path of None \<Rightarrow> Inl (Raised ''FileNotFoundError'') | Some text \<Rightarrow> Inr text)"

text \<open>One \<open>BUCKET=FILE\<close> option; \<open>parser.error\<close> exits.\<close>

definition load_spec ::
  "(ustr \<Rightarrow> ustr option) \<Rightarrow> (ustr \<Rightarrow> digests result) \<Rightarrow> ustr \<Rightarrow> (ustr \<Rightarrow> digests option) \<Rightarrow>
   (ustr \<Rightarrow> digests option) result" where
  "load_spec files loader spec hashsums =
     (case partition_at [61] spec of
        None \<Rightarrow> Inl (Raised ''SystemExit'')
      | Some (bucket, file_name) \<Rightarrow>
          if bucket = [] \<or> file_name = [] \<or> hashsums bucket \<noteq> None then Inl (Raised ''SystemExit'')
          else case read_file files file_name of
            Inl e \<Rightarrow> Inl e
          | Inr text \<Rightarrow> (case loader text of Inl e \<Rightarrow> Inl e | Inr listing \<Rightarrow> Inr (hashsums(bucket \<mapsto> listing))))"

fun load_specs ::
  "(ustr \<Rightarrow> ustr option) \<Rightarrow> (ustr \<Rightarrow> digests result) \<Rightarrow> ustr list \<Rightarrow> (ustr \<Rightarrow> digests option) \<Rightarrow>
   (ustr \<Rightarrow> digests option) result" where
  "load_specs files loader [] hashsums = Inr hashsums"
| "load_specs files loader (spec # specs) hashsums =
     (case load_spec files loader spec hashsums of Inl e \<Rightarrow> Inl e | Inr hashsums' \<Rightarrow> load_specs files loader specs hashsums')"

definition load_all_specs ::
  "unicode_db \<Rightarrow> (ustr \<Rightarrow> ustr option) \<Rightarrow> migration_args \<Rightarrow> (ustr \<Rightarrow> digests option) result" where
  "load_all_specs U files args =
     (case load_specs files (load_hashsums U) (ma_hashsum args) (\<lambda>_. None) of
        Inl e \<Rightarrow> Inl e
      | Inr hashsums \<Rightarrow> load_specs files (\<lambda>text. Inr (load_listing text)) (ma_listing args) hashsums)"

definition missing_lines :: "digest_row list \<Rightarrow> (ustr \<Rightarrow> digests option) \<Rightarrow> ustr list" where
  "missing_lines rows hashsums = sort (map row_name (filter (\<lambda>row. stored_digest hashsums row = None) rows))"

definition migration_main :: "unicode_db \<Rightarrow> (ustr \<Rightarrow> ustr option) \<Rightarrow> migration_args \<Rightarrow> migration_report result" where
  "migration_main U files args =
     (case load_all_specs U files args of
        Inl e \<Rightarrow> Inl e
      | Inr hashsums \<Rightarrow>
          (case read_file files (ma_digests args) of
             Inl e \<Rightarrow> Inl e
           | Inr text \<Rightarrow>
               (case load_digest_rows U text of
                  Inl e \<Rightarrow> Inl e
                | Inr rows \<Rightarrow>
                    (let (tally, problems) = verify_digests rows hashsums
                     in Inr \<lparr>mr_exit = (if ty_mismatch tally \<noteq> 0 \<or> ty_missing tally \<noteq> 0 then 1 else 0),
                          mr_problems = problems,
                          mr_missing = (if ma_missing_out args then Some (missing_lines rows hashsums) else None),
                          mr_tally = tally\<rparr>))))"

section \<open>What the check decides\<close>

datatype outcome = Matched | Mismatch | Missing | Uncovered

definition row_outcome :: "(ustr \<Rightarrow> digests option) \<Rightarrow> digest_row \<Rightarrow> outcome" where
  "row_outcome hashsums row =
     (case stored_digest hashsums row of
        None \<Rightarrow> Missing
      | Some actual \<Rightarrow>
          if dr_sha256 row = [] \<or> actual = [] then Uncovered else if actual = dr_sha256 row then Matched else Mismatch)"

definition outcomes :: "(ustr \<Rightarrow> digests option) \<Rightarrow> digest_row list \<Rightarrow> outcome \<Rightarrow> nat" where
  "outcomes hashsums rows x = length (filter (\<lambda>row. row_outcome hashsums row = x) rows)"

lemma outcomes_Cons:
  "outcomes hashsums (row # rows) x = (if row_outcome hashsums row = x then 1 else 0) + outcomes hashsums rows x"
  by (simp add: outcomes_def)

lemma unlisted_is_missing: "hashsums (dr_bucket row) = None \<Longrightarrow> stored_digest hashsums row = None"
  by (simp add: stored_digest_def)

lemma verify_rows_counts:
  "verify_rows hashsums rows t ps = (t', ps') \<Longrightarrow>
   t' = \<lparr>ty_matched = ty_matched t + outcomes hashsums rows Matched, ty_mismatch = ty_mismatch t + outcomes hashsums rows Mismatch,
     ty_missing = ty_missing t + outcomes hashsums rows Missing, ty_uncovered = ty_uncovered t + outcomes hashsums rows Uncovered\<rparr> \<and>
   length ps' = length ps + outcomes hashsums rows Missing + outcomes hashsums rows Mismatch"
proof (induction rows arbitrary: t ps)
  case Nil
  then show ?case by (cases t) (auto simp: outcomes_def)
next
  case (Cons row rows)
  show ?case
  proof (cases "hashsums (dr_bucket row)")
    case None
    then show ?thesis using Cons.IH Cons.prems
      by (force simp: outcomes_Cons row_outcome_def unlisted_is_missing)
  next
    case (Some listing)
    then show ?thesis using Cons.prems
      by (cases "stored_digest hashsums row") (force dest: Cons.IH simp: outcomes_Cons row_outcome_def split: if_splits)+
  qed
qed

lemma verify_digests_counts:
  assumes "verify_digests rows hashsums = (t, ps)"
  shows "t = \<lparr>ty_matched = outcomes hashsums rows Matched, ty_mismatch = outcomes hashsums rows Mismatch,
      ty_missing = outcomes hashsums rows Missing, ty_uncovered = outcomes hashsums rows Uncovered\<rparr>"
    and "length ps = outcomes hashsums rows Missing + outcomes hashsums rows Mismatch"
  using verify_rows_counts [OF assms [unfolded verify_digests_def]] by (simp_all add: no_tally_def)

lemma outcomes_partition:
  "outcomes hashsums rows Matched + outcomes hashsums rows Mismatch + outcomes hashsums rows Missing +
   outcomes hashsums rows Uncovered = length rows"
proof (induction rows)
  case (Cons row rows)
  then show ?case by (cases "row_outcome hashsums row") (simp_all add: outcomes_Cons)
qed (simp add: outcomes_def)

lemma outcomes_zero: "outcomes hashsums rows x = 0 \<longleftrightarrow> (\<forall>row\<in>set rows. row_outcome hashsums row \<noteq> x)"
  by (auto simp: outcomes_def filter_empty_conv)

lemma migration_main_Inr:
  assumes "migration_main U files args = Inr rep"
  obtains hashsums content rows where "load_all_specs U files args = Inr hashsums" "read_file files (ma_digests args) = Inr content"
    "load_digest_rows U content = Inr rows" "verify_digests rows hashsums = (mr_tally rep, mr_problems rep)"
    "mr_exit rep = (if ty_mismatch (mr_tally rep) \<noteq> 0 \<or> ty_missing (mr_tally rep) \<noteq> 0 then 1 else 0)"
    "mr_missing rep = (if ma_missing_out args then Some (missing_lines rows hashsums) else None)"
  using assms by (fastforce simp: migration_main_def Let_def split: sum.splits prod.splits)

text \<open>
  The exit status is that of the rollback trigger: 0 exactly when every exported row is found
  on the destination and, where both digests are known, they agree. Every row is counted
  once, and a problem line is printed exactly for the rows that make the run fail.
\<close>

lemma migration_exit_exact:
  assumes run: "migration_main U files args = Inr rep"
    and specs: "load_all_specs U files args = Inr hashsums"
    and rows: "read_file files (ma_digests args) = Inr text" "load_digest_rows U text = Inr rows"
  shows "mr_exit rep = 0 \<longleftrightarrow>
      (\<forall>row\<in>set rows. \<exists>actual. stored_digest hashsums row = Some actual \<and>
         (dr_sha256 row = [] \<or> actual = [] \<or> actual = dr_sha256 row))"
    and "mr_exit rep = 0 \<longleftrightarrow> mr_problems rep = []"
    and "ty_matched (mr_tally rep) + ty_mismatch (mr_tally rep) + ty_missing (mr_tally rep) + ty_uncovered (mr_tally rep) = length rows"
proof -
  from run obtain h t r where "load_all_specs U files args = Inr h" "read_file files (ma_digests args) = Inr t"
      "load_digest_rows U t = Inr r" and v: "verify_digests r h = (mr_tally rep, mr_problems rep)"
      and e: "mr_exit rep = (if ty_mismatch (mr_tally rep) \<noteq> 0 \<or> ty_missing (mr_tally rep) \<noteq> 0 then 1 else 0)"
    by (rule migration_main_Inr)
  then have eq: "h = hashsums" "r = rows" using specs rows by auto
  note v = verify_digests_counts [OF v [unfolded eq]]
  have exit_zero: "mr_exit rep = 0 \<longleftrightarrow> outcomes hashsums rows Mismatch = 0 \<and> outcomes hashsums rows Missing = 0"
    by (simp add: e v(1))
  then have none: "mr_exit rep = 0 \<longleftrightarrow> (\<forall>row\<in>set rows. row_outcome hashsums row \<noteq> Mismatch \<and> row_outcome hashsums row \<noteq> Missing)"
    by (auto simp: outcomes_zero)
  have "row_outcome hashsums row \<noteq> Mismatch \<and> row_outcome hashsums row \<noteq> Missing \<longleftrightarrow>
      (\<exists>actual. stored_digest hashsums row = Some actual \<and> (dr_sha256 row = [] \<or> actual = [] \<or> actual = dr_sha256 row))" for row
    by (auto simp: row_outcome_def split: option.splits)
  with none show "mr_exit rep = 0 \<longleftrightarrow>
      (\<forall>row\<in>set rows. \<exists>actual. stored_digest hashsums row = Some actual \<and>
         (dr_sha256 row = [] \<or> actual = [] \<or> actual = dr_sha256 row))" by simp
  show "mr_exit rep = 0 \<longleftrightarrow> mr_problems rep = []"
    using exit_zero length_0_conv [of "mr_problems rep"] by (simp only: v(2)) auto
  show "ty_matched (mr_tally rep) + ty_mismatch (mr_tally rep) + ty_missing (mr_tally rep) + ty_uncovered (mr_tally rep) = length rows"
    using outcomes_partition by (simp add: v(1))
qed

text \<open>The names of rows in different buckets differ as long as no bucket name has a slash.\<close>

definition plain_row :: "digest_row \<Rightarrow> bool" where
  "plain_row row \<longleftrightarrow> 47 \<notin> set (dr_bucket row) \<and> dr_key row \<noteq> None"

lemma row_name_inj:
  assumes "plain_row a" "plain_row b" "row_name a = row_name b"
  shows "dr_bucket a = dr_bucket b" "dr_key a = dr_key b"
proof -
  obtain k l where kl: "dr_key a = Some k" "dr_key b = Some l" using assms(1,2) by (auto simp: plain_row_def)
  have eq: "dr_bucket a @ 47 # k = dr_bucket b @ 47 # l" using assms(3) by (simp add: row_name_def kl)
  from assms(1,2) have "47 \<notin> set (dr_bucket a)" "47 \<notin> set (dr_bucket b)" by (simp_all add: plain_row_def)
  from first_separator [OF this eq] show "dr_bucket a = dr_bucket b" "dr_key a = dr_key b" by (simp_all add: kl)
qed

text \<open>
  "An empty diff means the migration lost nothing": when the baseline run on the source and
  the run on the destination write the same file of missing rows, a row is missing on the
  destination exactly when it was missing on the source.
\<close>

lemma same_missing_lines:
  assumes same: "missing_lines rows hs = missing_lines rows ht" and plain: "\<forall>row\<in>set rows. plain_row row"
    and row: "row \<in> set rows" and lost: "stored_digest hs row = None"
  shows "stored_digest ht row = None"
proof -
  have "row_name row \<in> set (missing_lines rows ht)"
    unfolding same [symmetric] using row lost by (auto simp: missing_lines_def)
  then obtain row' where "row' \<in> set rows" "stored_digest ht row' = None" "row_name row = row_name row'"
    by (auto simp: missing_lines_def)
  moreover from this have "dr_bucket row = dr_bucket row'" "dr_key row = dr_key row'"
    using row_name_inj [of row row'] plain row by auto
  ultimately show ?thesis by (simp add: stored_digest_def)
qed

lemma empty_diff_loses_nothing:
  assumes src: "migration_main U src args = Inr rep" "load_all_specs U src args = Inr hs" "read_file src (ma_digests args) = Inr text"
    and dst: "migration_main U dst args' = Inr rep'" "load_all_specs U dst args' = Inr ht" "read_file dst (ma_digests args') = Inr text"
    and rows: "load_digest_rows U text = Inr rows" "\<forall>row\<in>set rows. plain_row row"
    and diff: "mr_missing rep = mr_missing rep'" "mr_missing rep \<noteq> None" and row: "row \<in> set rows"
  shows "stored_digest hs row = None \<longleftrightarrow> stored_digest ht row = None"
proof -
  have missing: "mr_missing r = (if ma_missing_out a then Some (missing_lines rows h) else None)"
    if "migration_main U f a = Inr r" "load_all_specs U f a = Inr h" "read_file f (ma_digests a) = Inr text" for f a r h
    using that rows(1) by (auto elim!: migration_main_Inr)
  have "missing_lines rows hs = missing_lines rows ht"
    using diff missing [OF src] missing [OF dst] by (simp split: if_splits)
  then show ?thesis using same_missing_lines rows(2) row by metis
qed

section \<open>The reader reads quoted records back\<close>

definition csv_quote :: "ustr \<Rightarrow> ustr" where
  "csv_quote f = 34 # concat (map (\<lambda>c. if c = 34 then [34, 34] else [c]) f) @ [34]"

lemma csv_chars_append: "csv_chars (a @ b) r = (case csv_chars a r of Inl e \<Rightarrow> Inl e | Inr r' \<Rightarrow> csv_chars b r')"
  by (induction a arbitrary: r) (auto split: sum.split)

lemma csv_quoted_body:
  "cs_state r = IN_QUOTED_FIELD \<Longrightarrow> length (cs_field r) + length f \<le> FIELD_LIMIT \<Longrightarrow>
   csv_chars (map Some (concat (map (\<lambda>c. if c = 34 then [34, 34] else [c]) f))) r = Inr (r\<lparr>cs_field := cs_field r @ f\<rparr>)"
proof (induction f arbitrary: r)
  case (Cons c f)
  then show ?case using Cons.IH [of "r\<lparr>cs_field := cs_field r @ [c]\<rparr>"]
    by (auto simp: csv_char_def csv_add_def)
qed simp

lemma csv_quoted_field:
  assumes "cs_state r = START_RECORD \<or> cs_state r = START_FIELD" "cs_field r = []" "length f \<le> FIELD_LIMIT"
  shows "csv_chars (map Some (csv_quote f)) r = Inr (r\<lparr>cs_field := f, cs_state := QUOTE_IN_QUOTED_FIELD\<rparr>)"
proof -
  have "csv_char (Some 34) r = Inr (r\<lparr>cs_state := IN_QUOTED_FIELD\<rparr>)"
    using assms(1) by (auto simp: csv_char_def csv_start_field_def csv_ends_def)
  then show ?thesis using csv_quoted_body [of "r\<lparr>cs_state := IN_QUOTED_FIELD\<rparr>" f] assms(2,3)
    by (simp add: csv_quote_def csv_chars_append) (simp add: csv_char_def)
qed

lemma csv_record_reads_back:
  "fs \<noteq> [] \<Longrightarrow> \<forall>f\<in>set fs. length f \<le> FIELD_LIMIT \<Longrightarrow> cs_state r = START_RECORD \<or> cs_state r = START_FIELD \<Longrightarrow> cs_field r = [] \<Longrightarrow>
   csv_chars (map Some (join_with 44 (map csv_quote fs)) @ [None]) r =
     Inr \<lparr>cs_state = START_RECORD, cs_field = [], cs_fields = cs_fields r @ fs\<rparr>"
proof (induction fs arbitrary: r)
  case (Cons f fs)
  show ?case
  proof (cases fs)
    case Nil
    then show ?thesis using Cons.prems
      by (simp add: csv_chars_append csv_quoted_field) (simp add: csv_char_def csv_ends_def csv_save_def)
  next
    case (Cons g gs)
    let ?r = "r\<lparr>cs_fields := cs_fields r @ [f], cs_field := [], cs_state := START_FIELD\<rparr>"
    have "csv_char (Some 44) (r\<lparr>cs_field := f, cs_state := QUOTE_IN_QUOTED_FIELD\<rparr>) = Inr ?r"
      by (simp add: csv_char_def csv_save_def)
    then show ?thesis using Cons.IH [of ?r] Cons.prems Cons
      by (simp add: csv_chars_append csv_quoted_field)
  qed
qed simp

section \<open>A concrete export\<close>

definition same_case :: unicode_db where
  "same_case = \<lparr>uc_nfc = id, uc_other = (\<lambda>_. False), uc_lower = id\<rparr>"

text \<open>Header, a quoted key with a comma, an empty record, a short record; both line ends.\<close>

definition demo_export :: ustr where
  "demo_export = u ''storage_bucket,object_key,sha256'' @ [13, 10] @ u ''b,'' @ csv_quote (u ''k,1'') @ u '',ab'' @ [10, 10] @ u ''b'' @ [10]"

lemmas csv_rules = csv_char_def csv_start_field_def csv_add_def csv_save_def csv_ends_def csv_fresh_def FIELD_LIMIT_def

lemma demo_export_rows:
  "load_digest_rows same_case demo_export = Inr
     [\<lparr>dr_bucket = u ''b'', dr_key = Some (u ''k,1''), dr_sha256 = u ''ab''\<rparr>,
      \<lparr>dr_bucket = u ''b'', dr_key = None, dr_sha256 = []\<rparr>]"
  by (simp add: load_digest_rows_def demo_export_def csv_quote_def csv_rules u_def EXPECTED_COLUMNS_def digest_row_of_def
      strip_def is_space_def same_case_def)

text \<open>Against a bare listing of the bucket the first row is not compared; the second is missing.\<close>

lemma demo_listing: "load_listing (u ''k,1'' @ [13, 10]) = [u ''k,1'' \<mapsto> []]"
  by (simp add: load_listing_def text_lines_def rstrip_newlines_def strip_def is_space_def u_def)

lemma demo_migration_fails:
  "migration_main same_case [u ''d'' \<mapsto> demo_export, u ''l'' \<mapsto> u ''k,1'' @ [13, 10]]
     \<lparr>ma_digests = u ''d'', ma_hashsum = [], ma_listing = [u ''b=l''], ma_missing_out = True\<rparr> = Inr
   \<lparr>mr_exit = 1, mr_problems = [u ''missing   b/None''], mr_missing = Some [u ''b/None''],
     mr_tally = \<lparr>ty_matched = 0, ty_mismatch = 0, ty_missing = 1, ty_uncovered = 1\<rparr>\<rparr>"
proof -
  have spec: "partition_at [61] (u ''b=l'') = Some (u ''b'', u ''l'')"
    by (simp add: partition_at.simps u_def)
  have "u ''d'' \<noteq> u ''l''" "u ''b'' \<noteq> []" "u ''l'' \<noteq> []" by (simp_all add: u_def)
  then show ?thesis
    by (simp add: migration_main_def load_all_specs_def load_spec_def read_file_def spec demo_listing demo_export_rows
        verify_digests_def no_tally_def stored_digest_def missing_lines_def) (simp add: row_name_def u_def)
qed

end
