(* ===== verification/ShippedLock.thy ===== *)
theory ShippedLock
  imports Ssrf MigrationDigests "HOL-Library.AList"
begin

text \<open>
  The policing of the shipped dependency lock (\<open>scripts/shipped_lock_env.py\<close>): the pins of a
  lock, the constraints emitted from them, the comparison with the installed distributions
  and the search for lines that only resolve where the lock was made. The regular
  expressions are written as the functions they denote; the installed versions are a
  parameter.
\<close>

section \<open>Pins\<close>

text \<open>\<open>str.splitlines\<close> of a text with translated newlines.\<close>

definition is_linebreak :: "nat \<Rightarrow> bool" where
  "is_linebreak c \<longleftrightarrow> c \<in> {10, 11, 12, 13, 28, 29, 30, 133, 8232, 8233}"

fun splitlines_from :: "ustr \<Rightarrow> ustr \<Rightarrow> ustr list" where
  "splitlines_from cur [] = (if cur = [] then [] else [cur])"
| "splitlines_from cur (c # s) = (if is_linebreak c then cur # splitlines_from [] s else splitlines_from (cur @ [c]) s)"

definition lock_lines :: "ustr \<Rightarrow> ustr list" where
  "lock_lines content = splitlines_from [] (translate_newlines False content)"

definition is_alnum :: "nat \<Rightarrow> bool" where
  "is_alnum c \<longleftrightarrow> is_digit c \<or> is_alpha c"

definition is_name_char :: "nat \<Rightarrow> bool" where   \<comment> \<open>\<open>[A-Za-z0-9_.-]\<close>\<close>
  "is_name_char c \<longleftrightarrow> is_alnum c \<or> c \<in> {95, 46, 45}"

definition is_extra_char :: "nat \<Rightarrow> bool" where   \<comment> \<open>\<open>[A-Za-z0-9,_-]\<close>\<close>
  "is_extra_char c \<longleftrightarrow> is_alnum c \<or> c \<in> {44, 95, 45}"

text \<open>The optional \<open>[extra1,extra2]\<close>; \<open>None\<close> when a bracket opens something else.\<close>

definition skip_extras :: "ustr \<Rightarrow> ustr option" where
  "skip_extras s =
     (if s \<noteq> [] \<and> hd s = 91
      then (let extras = takeWhile is_extra_char (tl s); rest = dropWhile is_extra_char (tl s)
            in if extras \<noteq> [] \<and> rest \<noteq> [] \<and> hd rest = 93 then Some (tl rest) else None)
      else Some s)"

text \<open>\<open>_PIN_RE.match\<close>: the name, and the text after \<open>==\<close> up to white space.\<close>

definition pin_match :: "ustr \<Rightarrow> (ustr \<times> ustr) option" where
  "pin_match line =
     (let name = takeWhile is_name_char line
      in if name = [] then None
         else case skip_extras (dropWhile is_name_char line) of
           None \<Rightarrow> None
         | Some rest \<Rightarrow>
             (let pinned = takeWhile (\<lambda>c. \<not> is_space c) (drop 2 rest)
              in if take 2 rest = [61, 61] \<and> pinned \<noteq> [] then Some (name, pinned) else None))"

definition rstrip_backslashes :: "ustr \<Rightarrow> ustr" where
  "rstrip_backslashes s = rev (dropWhile (\<lambda>c. c = 92) (rev s))"

definition pin_of :: "ustr \<Rightarrow> (ustr \<times> ustr) option" where
  "pin_of line = map_option (\<lambda>(name, pinned). (name, strip (rstrip_backslashes pinned))) (pin_match line)"

fun collect_pins :: "ustr list \<Rightarrow> (ustr \<times> ustr) list \<Rightarrow> (ustr \<times> ustr) list" where
  "collect_pins [] pins = pins"
| "collect_pins (line # rest) pins =
     collect_pins rest (case pin_of line of None \<Rightarrow> pins | Some (name, pinned) \<Rightarrow> AList.update name pinned pins)"

definition read_pins :: "ustr \<Rightarrow> (ustr \<times> ustr) list result" where
  "read_pins lock =
     (let pins = collect_pins (lock_lines lock) [] in if pins = [] then Inl (Raised ''SystemExit'') else Inr pins)"

section \<open>The three commands\<close>

text \<open>\<open>--emit-constraints\<close>: the text written.\<close>

definition constraint_line :: "ustr \<times> ustr \<Rightarrow> ustr" where
  "constraint_line pin = fst pin @ [61, 61] @ snd pin"

definition emit_constraints :: "ustr \<Rightarrow> ustr result" where
  "emit_constraints lock =
     map_sum id (\<lambda>pins. join_with 10 (map constraint_line (sort_key fst pins)) @ [10]) (read_pins lock)"

text \<open>\<open>--verify\<close>: the names missing, the names drifted, the exit status.\<close>

definition verify_installed ::
  "(ustr \<Rightarrow> ustr option) \<Rightarrow> ustr \<Rightarrow> (ustr list \<times> ustr list \<times> nat) result" where
  "verify_installed version lock =
     (case read_pins lock of
        Inl e \<Rightarrow> Inl e
      | Inr pins \<Rightarrow>
          (let sorted_pins = sort_key fst pins;
               missing = map fst (filter (\<lambda>p. version (fst p) = None) sorted_pins);
               drifted = map fst (filter (\<lambda>p. version (fst p) \<noteq> None \<and> version (fst p) \<noteq> Some (snd p)) sorted_pins)
           in Inr (missing, drifted, if missing \<noteq> [] \<or> drifted \<noteq> [] then 1 else 0)))"

definition SOURCE_OPTIONS :: "ustr list" where
  "SOURCE_OPTIONS = map u [''-f'', ''--find-links'', ''-i'', ''--index-url'', ''--extra-index-url'', ''-e'', ''--editable'']"

definition is_source_option :: "ustr \<Rightarrow> bool" where
  "is_source_option line \<longleftrightarrow>
     list_ex (\<lambda>o'. take (length o') line = o' \<and>
       (let rest = drop (length o') line in rest = [] \<or> is_space (hd rest) \<or> hd rest = 61)) SOURCE_OPTIONS"

definition is_slash :: "nat \<Rightarrow> bool" where
  "is_slash c \<longleftrightarrow> c = 92 \<or> c = 47"

definition starts_path :: "ustr \<Rightarrow> bool" where
  "starts_path s \<longleftrightarrow>
     (case s of
        [] \<Rightarrow> False
      | c # r \<Rightarrow>
          c = 46 \<and> (r \<noteq> [] \<and> is_slash (hd r) \<or> r \<noteq> [] \<and> hd r = 46 \<and> tl r \<noteq> [] \<and> is_slash (hd (tl r))) \<or>
          c = 126 \<and> r \<noteq> [] \<and> is_slash (hd r) \<or> c = 47 \<or> take 5 s = u ''file:'' \<or>
          is_alpha c \<and> r \<noteq> [] \<and> hd r = 58 \<and> tl r \<noteq> [] \<and> is_slash (hd (tl r)))"

text \<open>\<open>_PATH_RE.search\<close>: at the start or after white space, an equals or an at sign.\<close>

fun has_path :: "bool \<Rightarrow> ustr \<Rightarrow> bool" where
  "has_path here [] \<longleftrightarrow> False"
| "has_path here (c # r) \<longleftrightarrow> here \<and> starts_path (c # r) \<or> has_path (is_space c \<or> c = 61 \<or> c = 64) r"

definition PLATFORM_ONLY :: "(ustr \<times> ustr) list" where
  "PLATFORM_ONLY = map (map_prod u u) [(''colorama'', ''Windows ANSI shim pulled in by click''),
     (''pywin32'', ''Windows API bindings''), (''pywin32-ctypes'', ''Windows API bindings used by keyring''),
     (''pywinpty'', ''Windows pseudo-terminal'')]"

definition at_line :: "nat \<Rightarrow> ustr \<Rightarrow> ustr" where
  "at_line number message = u ''  line '' @ str_nat number @ u '': '' @ message"

definition line_problem :: "nat \<Rightarrow> ustr \<Rightarrow> ustr option" where
  "line_problem number raw =
     (let line = strip raw
      in if line = [] \<or> hd line = 35 then None
         else if is_source_option line then Some (at_line number (u ''package-source option: '' @ line))
         else if take 7 line \<noteq> u ''--hash='' \<and> has_path True line then Some (at_line number (u ''filesystem path: '' @ line))
         else case pin_match line of
           None \<Rightarrow> None
         | Some (name0, _) \<Rightarrow>
             (let name = replace_ch 95 45 (lower_ascii name0)
              in case map_of PLATFORM_ONLY name of
                   None \<Rightarrow> None
                 | Some reason \<Rightarrow> Some (at_line number
                     (name @ u '' is platform-only ('' @ reason @ u ''); the lock was not resolved on Linux''))))"

definition portability_problems :: "ustr \<Rightarrow> ustr list" where
  "portability_problems lock =
     List.map_filter (\<lambda>(number, raw). line_problem number raw) (enumerate 1 (lock_lines lock))"

definition check_portable :: "ustr list \<Rightarrow> nat" where
  "check_portable locks = (if list_ex (\<lambda>lock. portability_problems lock \<noteq> []) locks then 1 else 0)"

section \<open>What the commands decide\<close>

lemma collect_pins_distinct: "distinct (map fst pins) \<Longrightarrow> distinct (map fst (collect_pins ls pins))"
  by (induction ls pins rule: collect_pins.induct) (auto simp: distinct_update split: option.split)

lemma read_pins_distinct: "read_pins lock = Inr pins \<Longrightarrow> pins \<noteq> [] \<and> distinct (map fst pins)"
  using collect_pins_distinct [of "[]" "lock_lines lock"] by (auto simp: read_pins_def Let_def split: if_splits)

text \<open>The environment passes exactly when every pin is installed at exactly its version.\<close>

lemma verify_installed_exact:
  assumes pins: "read_pins lock = Inr pins" and run: "verify_installed version lock = Inr (missing, drifted, status)"
  shows "set missing = {name. name \<in> fst ` set pins \<and> version name = None}"
    and "set drifted = {name. \<exists>pinned other. (name, pinned) \<in> set pins \<and> version name = Some other \<and> other \<noteq> pinned}"
    and "status = 0 \<longleftrightarrow> (\<forall>(name, pinned)\<in>set pins. version name = Some pinned)"
proof -
  have m: "missing = map fst (filter (\<lambda>p. version (fst p) = None) (sort_key fst pins))"
    and d: "drifted = map fst (filter (\<lambda>p. version (fst p) \<noteq> None \<and> version (fst p) \<noteq> Some (snd p)) (sort_key fst pins))"
    and st: "status = (if missing \<noteq> [] \<or> drifted \<noteq> [] then 1 else 0)"
    using run unfolding verify_installed_def pins sum.case Let_def sum.inject prod.inject by blast+
  show "set missing = {name. name \<in> fst ` set pins \<and> version name = None}" unfolding m by auto
  show "set drifted = {name. \<exists>pinned other. (name, pinned) \<in> set pins \<and> version name = Some other \<and> other \<noteq> pinned}"
    unfolding d by force
  have "missing = [] \<and> drifted = [] \<longleftrightarrow> (\<forall>(name, pinned)\<in>set pins. version name = Some pinned)"
    unfolding m d by (fastforce simp: filter_empty_conv)
  then show "status = 0 \<longleftrightarrow> (\<forall>(name, pinned)\<in>set pins. version name = Some pinned)"
    unfolding st by (cases "missing = [] \<and> drifted = []") simp_all
qed

section \<open>Emitted constraints are the pins\<close>

definition good_pin :: "ustr \<times> ustr \<Rightarrow> bool" where
  "good_pin pin \<longleftrightarrow> fst pin \<noteq> [] \<and> list_all is_name_char (fst pin) \<and> snd pin \<noteq> [] \<and>
     list_all (\<lambda>c. \<not> is_space c) (snd pin) \<and> last (snd pin) \<noteq> 92"

lemma name_char_facts: "is_name_char c \<Longrightarrow> c \<noteq> 61 \<and> c \<noteq> 91 \<and> \<not> is_space c"
  by (auto simp: is_name_char_def is_alnum_def is_digit_def is_alpha_def is_space_def)

lemma linebreak_is_space: "is_linebreak c \<Longrightarrow> is_space c"
  by (auto simp: is_linebreak_def is_space_def)

lemma rstrip_backslashes_fixed: "s = [] \<or> last s \<noteq> 92 \<Longrightarrow> rstrip_backslashes s = s"
  by (cases "rev s") (auto simp: rstrip_backslashes_def hd_rev [symmetric])

lemma pin_of_constraint:
  assumes "good_pin pin"
  shows "pin_of (constraint_line pin) = Some pin"
proof -
  obtain name pinned where pin: "pin = (name, pinned)" by fastforce
  have n: "\<forall>c\<in>set name. is_name_char c" and v: "\<forall>c\<in>set pinned. \<not> is_space c" "pinned \<noteq> []" "last pinned \<noteq> 92" "name \<noteq> []"
    using assms by (auto simp: good_pin_def pin list_all_iff)
  have "\<not> is_name_char 61" using name_char_facts by blast
  then have "takeWhile is_name_char (constraint_line pin) = name" "dropWhile is_name_char (constraint_line pin) = [61, 61] @ pinned"
    using n by (simp_all add: constraint_line_def pin)
  moreover have "takeWhile (\<lambda>c. \<not> is_space c) pinned = pinned" using v(1) by simp
  moreover have "strip pinned = pinned" using v(1,2) by (intro strip_fixed) simp
  ultimately show ?thesis using v
    by (simp add: pin_of_def pin_match_def skip_extras_def Let_def takeWhile_eq_all_conv [THEN iffD2] rstrip_backslashes_fixed pin)
qed

lemma collect_constraints:
  "\<forall>pin\<in>set pins. good_pin pin \<Longrightarrow> distinct (map fst (acc @ pins)) \<Longrightarrow>
   collect_pins (map constraint_line pins) acc = acc @ pins"
proof (induction pins arbitrary: acc)
  case (Cons pin pins)
  have "AList.update k v acc = acc @ [(k, v)]" if "k \<notin> fst ` set acc" for k v and acc :: "(ustr \<times> ustr) list"
    using that by (induction acc) auto
  then have "AList.update (fst pin) (snd pin) acc = acc @ [pin]" using Cons.prems(2) by simp
  then show ?case using Cons.IH [of "acc @ [pin]"] Cons.prems by (simp add: pin_of_constraint split_beta)
qed simp

text \<open>Lines without line breaks, joined by line feeds and ended by one, are read back.\<close>

lemma translate_plain: "13 \<notin> set s \<Longrightarrow> translate_newlines False s = s"
  by (induction s) auto

lemma splitlines_line:
  "\<forall>c\<in>set l. \<not> is_linebreak c \<Longrightarrow> splitlines_from cur (l @ 10 # s) = (cur @ l) # splitlines_from [] s"
  by (induction l arbitrary: cur) (auto simp: is_linebreak_def)

lemma splitlines_join:
  "ls \<noteq> [] \<Longrightarrow> \<forall>l\<in>set ls. \<forall>c\<in>set l. \<not> is_linebreak c \<Longrightarrow> splitlines_from [] (join_with 10 ls @ [10]) = ls"
proof (induction "10 :: nat" ls rule: join_with.induct)
  case (3 p q ps)
  then show ?case using splitlines_line [of p "[]" "join_with 10 (q # ps) @ [10]"] by simp
qed (use splitlines_line [of _ "[]" "[]"] in auto)

lemma in_join_with: "x \<in> set (join_with c ls) \<Longrightarrow> x = c \<or> (\<exists>l\<in>set ls. x \<in> set l)"
  by (induction c ls rule: join_with.induct) auto

text \<open>
  What \<open>--emit-constraints\<close> writes for a lock whose pins have versions is read as exactly the
  pins of the lock, by name: installing under the constraints moves no shipped package.
\<close>

lemma constraints_are_the_pins:
  assumes pins: "read_pins lock = Inr pins" and good: "\<forall>pin\<in>set pins. good_pin pin"
  shows "\<exists>constraints. emit_constraints lock = Inr constraints \<and> read_pins constraints = Inr (sort_key fst pins)"
proof -
  let ?s = "sort_key fst pins" and ?ls = "map constraint_line (sort_key fst pins)"
  have ne: "?s \<noteq> []" "distinct (map fst ?s)" using read_pins_distinct [OF pins] by (auto simp flip: set_empty simp: distinct_map)
  have plain: "\<not> is_linebreak c" if "c \<in> set (constraint_line pin)" "pin \<in> set pins" for c pin
    using that good linebreak_is_space [of c] name_char_facts [of c]
    by (auto simp: constraint_line_def good_pin_def list_all_iff is_linebreak_def is_space_def)
  then have lines: "\<forall>l\<in>set ?ls. \<forall>c\<in>set l. \<not> is_linebreak c" by auto
  have "13 \<notin> set (join_with 10 ?ls @ [10])"
  proof
    assume "13 \<in> set (join_with 10 ?ls @ [10])"
    then obtain pin where "pin \<in> set pins" "13 \<in> set (constraint_line pin)" using in_join_with [of 13 10 ?ls] by auto
    then show False using plain [of 13 pin] by (simp add: is_linebreak_def)
  qed
  from translate_plain [OF this] have "lock_lines (join_with 10 ?ls @ [10]) = splitlines_from [] (join_with 10 ?ls @ [10])"
    by (simp only: lock_lines_def)
  also have "\<dots> = ?ls" by (rule splitlines_join [OF _ lines]) (use ne in simp)
  finally have "lock_lines (join_with 10 ?ls @ [10]) = ?ls" .
  then have "read_pins (join_with 10 ?ls @ [10]) = Inr ?s"
    using collect_constraints [of ?s "[]"] ne good by (simp add: read_pins_def)
  then show ?thesis by (simp add: emit_constraints_def pins)
qed

section \<open>Portable locks\<close>

text \<open>A lock passes exactly when none of its lines has a problem.\<close>

lemma numbered_problems:
  "List.map_filter (\<lambda>(number, raw). line_problem number raw) (enumerate n ls) = [] \<longleftrightarrow>
   (\<forall>i < length ls. line_problem (n + i) (ls ! i) = None)"
proof (induction ls arbitrary: n)
  case (Cons l ls)
  have "(\<forall>i < length (l # ls). line_problem (n + i) ((l # ls) ! i) = None) \<longleftrightarrow>
      line_problem n l = None \<and> (\<forall>i < length ls. line_problem (Suc n + i) (ls ! i) = None)"
    by (simp add: All_less_Suc2)
  then show ?case using Cons.IH [of "Suc n"] by (simp add: List.map_filter_simps split: option.split)
qed (simp add: List.map_filter_simps)

lemma check_portable_exact:
  "check_portable locks = 0 \<longleftrightarrow>
   (\<forall>lock\<in>set locks. \<forall>i < length (lock_lines lock). line_problem (i + 1) (lock_lines lock ! i) = None)"
  by (simp add: check_portable_def portability_problems_def numbered_problems list_ex_iff)

text \<open>One line of each kind.\<close>

lemma demo_lock_lines:
  "line_problem 1 (u ''httpx==0.28.1 '' @ [92]) = None"
  "line_problem 2 (u ''    --hash=sha256:ab/cd'') = None"
  "line_problem 3 (u ''-e ../sibling'') = Some (u ''  line 3: package-source option: -e ../sibling'')"
  "line_problem 4 (u ''media-sdk @ file:///tmp/sdk'') = Some (u ''  line 4: filesystem path: media-sdk @ file:///tmp/sdk'')"
  "line_problem 5 (u ''PyWin32==306'') =
     Some (u ''  line 5: pywin32 is platform-only (Windows API bindings); the lock was not resolved on Linux'')"
  by (simp_all add: line_problem_def strip_def is_space_def is_source_option_def SOURCE_OPTIONS_def u_def starts_path_def is_slash_def
      pin_match_def skip_extras_def is_name_char_def is_alnum_def is_digit_def is_alpha_def PLATFORM_ONLY_def replace_ch_def
      lower_ascii_def at_line_def str_nat.simps Let_def)

end
