(* ===== verification/Spec2Isabelle.thy ===== *)
theory Spec2Isabelle
  imports Quotas Validation Presets Categories Outbox Ssrf Keys Objects Uploads Shares Variants Admin Maintenance
    TransferExport TransferImport RateLimit ServiceCore Service Isolation Dashboard Routes Worker Configuration
    MigrationDigests ShippedLock
begin

text \<open>
  A verification development for the media service (\<open>src/media_service\<close>), a FastAPI service
  that stores media objects in S3 buckets and their metadata in a relational database.

  \<^bold>\<open>The program.\<close> A route module (\<open>app/routes\<close>) authenticates and rate-limits a request
  (\<open>core/deps.py\<close>, \<open>core/rate_limit.py\<close>) and calls one controller (\<open>controllers\<close>). Controllers
  read and write the tables of \<open>db_models\<close> and the buckets, and share the modules of \<open>core\<close>:
  quotas, validation, presets, the category tree, the outbox and the webhook guard. Keys and
  buckets are chosen in \<open>storage\<close>. A second process, the maintenance worker
  (\<open>maintenance_worker.py\<close>), purges, expires, reconciles and delivers on a schedule.

  \<^bold>\<open>The state.\<close> A table is the list of its rows with a key function (\<open>Prelude\<close>; the locale
  \<open>keyed_table\<close> is what its clients rely on). \<open>database\<close> is the record of all tables, \<open>world\<close>
  adds the buckets and the metrics. A controller method is a function from the world, or the
  database when it touches nothing else, to a result and the new state; an exception is the
  \<open>Inl\<close> of a result: \<open>Http\<close> with status and detail, \<open>Raised\<close> for everything that answers 500.
  Clock readings and fresh ids are arguments. A commit is atomic and succeeds unless a
  constraint the code can run into is violated, which is then a branch of the model
  (\<open>tbl_insert\<close>); a flag makes the commit of \<open>update_object\<close> fail, since that handler
  compensates for it. Times are integers in microseconds.

  \<^bold>\<open>Theories and sources.\<close>
  \<^item> \<open>Prelude\<close>, \<open>PyText\<close>, \<open>PyJson\<close>: tables, results, de-duplication; text as code points with
    the string methods the code calls; JSON values and the codecs used on cursors and manifests.
  \<^item> \<open>DataModel\<close>: \<open>db_models\<close>, \<open>core/tenancy.py\<close>, \<open>policies/ownership.py\<close>, settings fields.
  \<^item> \<open>Storage\<close>, \<open>Keys\<close>: \<open>storage/buckets.py\<close>, \<open>keys.py\<close>, \<open>presign.py\<close>,
    \<open>controllers/export_archive.py\<close>. The SDK's client is the record \<open>storage_api\<close>;
    \<open>storage_laws\<close> states what a working one does.
  \<^item> \<open>Quotas\<close>: \<open>core/quotas.py\<close>; the locale \<open>usage_ledger\<close> is its contract of credits and debits.
  \<^item> \<open>Validation\<close>: \<open>core/validation.py\<close>, \<open>core/media_types.py\<close>.
  \<^item> \<open>CategoryTree\<close>, \<open>Categories\<close>: \<open>core/category_tree.py\<close>, \<open>controllers/category.py\<close>; the locale
    \<open>scope_gate\<close> ties a listing statement to the check on one row, here and for objects.
  \<^item> \<open>Presets\<close>, \<open>Variants\<close>: \<open>core/presets.py\<close>, \<open>schemas/presets.py\<close>, \<open>controllers/presets.py\<close>,
    \<open>controllers/variants.py\<close>.
  \<^item> \<open>ObjectAccess\<close>, \<open>Objects\<close>: the reading and the writing half of \<open>controllers/objects.py\<close>.
  \<^item> \<open>Uploads\<close>, \<open>Shares\<close>, \<open>Admin\<close>, \<open>Maintenance\<close>: the controllers of those names.
  \<^item> \<open>TransferExport\<close>, \<open>TransferImport\<close>: \<open>controllers/transfer.py\<close>, \<open>transfer_import.py\<close>,
    \<open>schemas/transfer.py\<close>.
  \<^item> \<open>Outbox\<close>, \<open>Ssrf\<close>: \<open>core/outbox.py\<close>, \<open>controllers/outbox.py\<close>, \<open>core/ssrf.py\<close>.
  \<^item> \<open>RateLimit\<close>, \<open>Routes\<close>, \<open>Dashboard\<close>: \<open>core/rate_limit.py\<close>, \<open>core/deps.py\<close>, \<open>app/routes\<close>,
    \<open>controllers/dashboard.py\<close>.
  \<^item> \<open>Worker\<close>: \<open>maintenance_worker.py\<close>. \<open>Configuration\<close>: the checks of \<open>core/config.py\<close>.
  \<^item> \<open>MigrationDigests\<close>, \<open>ShippedLock\<close>: the migration check under \<open>docker_compose\<close> and
    \<open>scripts/shipped_lock_env.py\<close>.

  \<^bold>\<open>How the theorems compose.\<close> \<open>ServiceCore\<close> abstracts the object, session and usage tables to a
  machine of atomic changes; the locale \<open>core_invariant\<close> lifts what each change keeps to runs,
  and is interpreted for well-formedness and for the accounting. \<open>Service\<close> shows that every
  handler is a run of that machine. \<open>Isolation\<close> defines what of the database a principal has
  no authority over and shows that no operation of its own changes it. \<open>Routes\<close> proves that a
  request over HTTP writes what one such operation writes, under the authority its route
  demands, and \<open>Worker\<close> does so for the cron jobs, so that the theorem below holds for
  every interleaving of requests and jobs.

  \<^bold>\<open>What is shown.\<close> For each component: its invariant and that every operation keeps it
  (quotas, category hierarchy, presets, variants, objects, sessions, export jobs, outbox); the
  exact outcome of the operations with many branches (completion of an upload, generation of
  variants, purge, reconciliation, soft delete, reservation); equivalences (listing and
  visibility check, branch filter and branch, a second import and nothing); termination of
  the page walk; round trips (share tokens, import paths, emitted constraints); bounds (rate
  windows, archive ceilings, usage); and what must never happen (bytes lost by a metadata
  patch, a share of an unscanned object, a request to an internal address, a change outside
  the caller's own rows).

  \<^bold>\<open>Loops and bounds.\<close> Recursion follows the lists of rows, characters or pages. The walks of
  the category tree carry the set of visited ids, and the finite table is their measure.
  \<open>walk_pages\<close>, the client's loop over cursors, has fuel: one request more than there are
  rows, which is proved to be enough. No theorem assumes a category depth.

  \<^bold>\<open>Parameters.\<close> Code that is not in the repository is an argument of the definitions: the SDK's
  storage client, user validation and webhook rendering; HMAC and SHA-256; the magic-byte
  sniffer; the Unicode database, NFKC and digit values; the slug function; the codecs of JSON
  and base64; collation and LIKE; the resolver; Redis; the zip reader; the queue; the time
  stamps and the exception handler of the SDK's mixins; whether the database layer takes a
  timestamp without time zone (\<open>bind_timestamp\<close>). Where a theorem relies on one, the law
  is a named hypothesis (\<open>storage_laws\<close>, \<open>redis_laws\<close>, \<open>codec_laws\<close>, \<open>auth_laws\<close>,
  \<open>unicode_laws\<close>, \<open>sizes_nonneg\<close>), and the witness instantiates it with a concrete function.

  \<^bold>\<open>Not modelled.\<close>
  \<^item> Wiring without decisions: \<open>main.py\<close>, \<open>core/arq.py\<close>, \<open>core/events.py\<close>, \<open>storage/client.py\<close>,
    the registration of the counters in \<open>metrics.py\<close>, the schedule in \<open>WorkerSettings\<close>; the
    code only passes settings to libraries.
  \<^item> Database plumbing: \<open>alembic\<close>, \<open>core/utc_session.py\<close>, \<open>core/db_models.py\<close>,
    \<open>fastapi_pre_start.py\<close>: SQL types, sessions and retries of drivers outside the repository.
  \<^item> The column \<open>ExportJob.filters\<close>, a snapshot for audit that no code reads back.
  \<^item> Interleaving inside one handler: a handler is one step. The exception is the share
    counter, whose conditional update is modelled as interleaved steps.
  \<^item> The semaphore of the digest verification, log messages, and OpenAPI descriptions.
\<close>

section \<open>The system\<close>

text \<open>
  C1. Whatever HTTP requests arrive, from whomever and in whatever order, interleaved with
  whatever cron jobs: from an empty database the system only reaches states in which object
  ids and keys are unique, live bytes belong in the bucket of their visibility, deleted rows
  carry their deletion time, every open upload can still be completed on a free row, and no
  scope is charged more bytes or objects than it holds.
\<close>

theorem system_invariants:
  assumes "sizes_nonneg (ht_storage env)" and "w_db w = empty_db"
    and run: "fold (system_step env wk) events (w, ls) = (w', ls')"
  shows "objects_wf (ht_settings env) (w_db w') \<and>
    (\<forall>obj \<in> set (db_objects (w_db w')). mo_status obj = OBJ_DELETED \<longrightarrow> mo_deleted_at obj \<noteq> None) \<and>
    (\<forall>i s. tbl_get us_id (db_sessions (w_db w')) i = Some s \<longrightarrow> us_status s = SES_INITIATED \<longrightarrow>
       row_free (db_objects (w_db w')) s) \<and>
    (\<forall>k. fst (balance (db_usage (w_db w')) k) \<le> weight mo_size_bytes k (db_objects (w_db w')) \<and>
       snd (balance (db_usage (w_db w')) k) \<le> weight (\<lambda>_. 1) k (db_objects (w_db w')))"
proof -
  have wf: "core_wf (ht_settings env) (w_db w')"
    using system_run_wf [OF assms(1), of "(w, ls)" wk events] by (simp add: run assms(2) empty_core)
  have books: "not_overcharged (w_db w')"
    using system_run_books [OF assms(1), of "(w, ls)" wk events] by (simp add: run assms(2) empty_core)
  show ?thesis
    using core_wf_objects [OF wf] core_wf_open_free [OF wf] core_wfD(4) [OF wf] not_overchargedD(1,2) [OF books]
    by (auto simp: row_ok_def)
qed

text \<open>An upload is initiated by its owner, expires, and the hourly job closes it.\<close>

definition demo_initiate :: http_request where
  "demo_initiate = (demo_abort [119])\<lparr>hq_endpoint := Uploads (POST_initiate \<lparr>ur_category = CAT_ASSET, ur_visibility = VIS_PRIVATE,
     ur_original_filename = [97], ur_mime_type = ''image/png'', ur_expected_size_bytes = 3, ur_category_ids = []\<rparr>)\<rparr>"

definition demo_events :: "system_event list" where
  "demo_events = [Http demo_initiate, Cron Expire_stale (seconds 100000), Cron Deliver_outbox (seconds 100001)]"

theorem system_invariants_witness:
  "case fold (system_step demo_http demo_worker) demo_events (blank_world, demo_counters) of (w', ls') \<Rightarrow>
     objects_wf (default_settings None None) (w_db w') \<and> fst (balance (db_usage (w_db w')) (7, None)) \<le>
       weight mo_size_bytes (7, None) (db_objects (w_db w'))"
proof -
  obtain w' ls' where run: "fold (system_step demo_http demo_worker) demo_events (blank_world, demo_counters) = (w', ls')"
    by (cases "fold (system_step demo_http demo_worker) demo_events (blank_world, demo_counters)") auto
  have "sizes_nonneg (ht_storage demo_http)" using demo_sizes by (simp add: demo_http_def)
  moreover have "ht_settings demo_http = default_settings None None" by (simp add: demo_http_def demo_service_def)
  moreover have "w_db blank_world = empty_db" by (simp add: blank_world_def)
  ultimately show ?thesis using system_invariants [OF _ _ run] unfolding run by simp
qed

end
